(* ===== verification/Jail_Prelude.thy ===== *)
theory Jail_Prelude
  imports Main "HOL-Library.Multiset"
begin

text \<open>
  Shared vocabulary of the jail-builder model: paths and command lines as strings,
  the error values that the Go functions return, the type of a Go method
  \<open>func (b *Builder) X() error\<close> as an action on an explicit state, and the
  sequencing combinator for the idiom
  \<open>if err := a(); err != nil { return err }; return b()\<close>.
  Generic lemmas on these, and the fact collections that the component theories
  fill, are declared here.
\<close>

named_theorems host_simps "equations of the host primitives"
named_theorems jail_simps "unfolding rules of the modelled Go methods"
named_theorems eval_simps "definitions unfolded to evaluate the model on concrete inputs"

type_synonym path = string
type_synonym argv = "string list"

text \<open>
  Go returns \<open>error\<close> values; the model distinguishes them by where they come
  from. \<open>ErrFs op p\<close> is an \<open>*os.PathError\<close> of operation \<open>op\<close> on \<open>p\<close>,
  \<open>ErrExit cmd n\<close> an \<open>*exec.ExitError\<close> of the command line \<open>cmd\<close> with status
  \<open>n\<close>, \<open>ErrValidation msg\<close> the \<open>errors.New\<close> values of \<open>Opts.Validate\<close>.
\<close>

datatype error =
    ErrValidation string
  | ErrFs string path
  | ErrHttp string
  | ErrCopy string
  | ErrArchive path
  | ErrExit argv nat

type_synonym 'h act = "'h \<Rightarrow> error option \<times> 'h"

definition ok :: "'h act" where
  "ok h = (None, h)"

definition fail :: "error \<Rightarrow> 'h act" where
  "fail e h = (Some e, h)"

text \<open>\<open>if err := a(); err != nil { return err }; return b()\<close>\<close>

definition then_go :: "'h act \<Rightarrow> 'h act \<Rightarrow> 'h act" where
  "then_go a b h = (case a h of (Some e, h') \<Rightarrow> (Some e, h') | (None, h') \<Rightarrow> b h')"

declare ok_def [eval_simps] fail_def [eval_simps]

lemma then_go_ok [simp]: "a h = (None, h') \<Longrightarrow> then_go a b h = b h'"
  by (simp add: then_go_def)

lemma then_go_err [simp]: "a h = (Some e, h') \<Longrightarrow> then_go a b h = (Some e, h')"
  by (simp add: then_go_def)

lemma then_go_assoc: "then_go (then_go a b) c = then_go a (then_go b c)"
  by (rule ext) (simp add: then_go_def split: prod.splits option.splits)

lemma then_go_ok_left [simp]: "then_go ok b = b"
  by (rule ext) (simp add: then_go_def ok_def)

lemma then_go_ok_right [simp]: "then_go a ok = a"
  by (rule ext) (simp add: then_go_def ok_def split: prod.splits option.splits)

lemma then_go_None_iff:
  "(fst (then_go a b h) = None) \<longleftrightarrow>
     fst (a h) = None \<and> fst (b (snd (a h))) = None"
  by (simp add: then_go_def split: prod.splits option.splits)

lemma then_go_cases:
  assumes "then_go a b h = (r, h'')"
  obtains e where "a h = (Some e, h'')" and "r = Some e"
    | h' where "a h = (None, h')" and "b h' = (r, h'')"
  using assms by (cases "a h") (auto simp: then_go_def split: option.splits)

text \<open>A relation between the states before and after each action that is transitive
  holds across their sequence, whatever the first action returns.\<close>

lemma then_go_preserves:
  assumes "\<And>h. R h (snd (a h))" and "\<And>h. R h (snd (b h))"
      and "\<And>x y z. R x y \<Longrightarrow> R y z \<Longrightarrow> R x z"
  shows "R h (snd (then_go a b h))"
proof (cases "a h")
  case (Pair r h1)
  with assms(1) [of h] have "R h h1" by simp
  show ?thesis
  proof (cases r)
    case None
    with Pair have "snd (then_go a b h) = snd (b h1)" by simp
    with assms(2) [of h1] assms(3) \<open>R h h1\<close> show ?thesis by metis
  next
    case (Some e)
    with Pair \<open>R h h1\<close> show ?thesis by simp
  qed
qed

text \<open>Membership in a list after one position is overwritten.\<close>

lemma mem_set_update_other:
  assumes "i < length xs" and "xs ! i \<noteq> y"
  shows "y \<in> set (xs[i := v]) \<longleftrightarrow> y = v \<or> y \<in> set xs"
proof -
  have "y \<in> set (xs[i := v]) \<longleftrightarrow> (\<exists>j<length xs. xs[i := v] ! j = y)"
    by (simp add: in_set_conv_nth)
  also have "\<dots> \<longleftrightarrow> (\<exists>j<length xs. (if j = i then v else xs ! j) = y)"
    using assms(1) by (auto simp: nth_list_update)
  also have "\<dots> \<longleftrightarrow> y = v \<or> (\<exists>j<length xs. xs ! j = y)"
    using assms by (auto split: if_splits)
  finally show ?thesis by (simp add: in_set_conv_nth)
qed

text \<open>The directory part of a path.\<close>

definition parent_dir :: "path \<Rightarrow> path" where
  "parent_dir p = rev (drop 1 (dropWhile (\<lambda>c. c \<noteq> CHR ''/'') (rev p)))"

lemma parent_dir_append_slash:
  assumes "CHR ''/'' \<notin> set n"
  shows "parent_dir (d @ ''/'' @ n) = d"
proof -
  have "dropWhile (\<lambda>c. c \<noteq> CHR ''/'') (rev n @ CHR ''/'' # rev d) = CHR ''/'' # rev d"
    using assms by (subst dropWhile_append2) auto
  then show ?thesis by (simp add: parent_dir_def)
qed

declare parent_dir_def [eval_simps]

end
