(* ===== verification/Host.thy ===== *)
theory Host
  imports Jail_Prelude
begin

text \<open>
  The host that the builder acts on, and the external collaborators the spec puts out
  of scope, modelled from the spec (they are not code of \<open>src/\<close>):
  the file system as seen through Go's \<open>os\<close> package, the ZFS command \<open>zfs\<close>
  with its dataset, snapshot and clone semantics, the HTTP server's answers, the
  contents of the \<open>.txz\<close> archives and the exit status of other external tools.
  An archive's content decodes to the entries read before the stream ends and whether
  it ended cleanly (\<open>False\<close>: the decoder fails after those entries).
  The mutable part of the host is the record \<open>host\<close>; the fields \<open>net\<close>,
  \<open>tar\<close> and \<open>tool\<close> are the fixed behaviour of the outside world, which no
  operation changes. \<open>events\<close> is a ghost trace of every external interaction,
  in order, used to state sequencing properties.
\<close>

datatype response =
    Resp nat string       \<comment> \<open>\<open>hc.Do\<close> returned a response: status code, body\<close>
  | RespFail              \<comment> \<open>\<open>hc.Do\<close> returned an error\<close>
  | RespCut string        \<comment> \<open>a response whose body read fails after this prefix\<close>

datatype tar_entry = TDir path | TFile path string

datatype event =
    EvMkdir path
  | EvCreate path
  | EvOpen path
  | EvGet string
  | EvExtract path path
  | EvExec argv

record host =
  files :: "path \<rightharpoonup> string"
  dirs :: "path set"
  datasets :: "string set"
  snapshots :: "string set"
  origin :: "string \<rightharpoonup> string"
  events :: "event list"
  stdout :: "string list"
  net :: "string \<Rightarrow> response"
  tar :: "string \<Rightarrow> tar_entry list \<times> bool"
  tool :: "argv \<Rightarrow> nat"

definition log :: "event \<Rightarrow> host \<Rightarrow> host" where
  "log ev h = h\<lparr>events := events h @ [ev]\<rparr>"

text \<open>Two hosts that agree on everything but the files and the trace.\<close>

definition same_except_files :: "host \<Rightarrow> host \<Rightarrow> bool" where
  "same_except_files h h' \<longleftrightarrow>
     dirs h' = dirs h \<and> datasets h' = datasets h \<and> snapshots h' = snapshots h \<and>
     origin h' = origin h \<and> stdout h' = stdout h \<and> net h' = net h \<and> tar h' = tar h \<and>
     tool h' = tool h"

lemma same_except_files_refl [simp]: "same_except_files h h"
  by (simp add: same_except_files_def)

lemma same_except_files_trans:
  "same_except_files h1 h2 \<Longrightarrow> same_except_files h2 h3 \<Longrightarrow> same_except_files h1 h3"
  by (simp add: same_except_files_def)

text \<open>The ZFS state only grows: no dataset or snapshot is destroyed between two hosts.\<close>

definition zfs_grows :: "host \<Rightarrow> host \<Rightarrow> bool" where
  "zfs_grows h h' \<longleftrightarrow> datasets h \<subseteq> datasets h' \<and> snapshots h \<subseteq> snapshots h'"

lemma zfs_grows_trans: "zfs_grows x y \<Longrightarrow> zfs_grows y z \<Longrightarrow> zfs_grows x z"
  by (auto simp: zfs_grows_def)

lemma same_except_files_grows: "same_except_files h h' \<Longrightarrow> zfs_grows h h'"
  by (simp add: same_except_files_def zfs_grows_def)

lemma log_grows: "zfs_grows h (log ev h)"
  by (simp add: zfs_grows_def log_def)

lemma then_go_grows:
  "(\<And>h. zfs_grows h (snd (a h))) \<Longrightarrow> (\<And>h. zfs_grows h (snd (b h)))
   \<Longrightarrow> zfs_grows h (snd (then_go a b h))"
  by (rule then_go_preserves [where R = zfs_grows]) (assumption, assumption, erule (1) zfs_grows_trans)

subsection \<open>File system\<close>

text \<open>\<open>utils.Exists\<close>: \<open>os.Stat\<close> succeeds, for a file or a directory.\<close>

definition exists :: "host \<Rightarrow> path \<Rightarrow> bool" where
  "exists h p \<longleftrightarrow> p \<in> dirs h \<or> files h p \<noteq> None"

text \<open>\<open>os.Mkdir\<close>: the parent must be a directory and the path must be free.\<close>

definition os_mkdir :: "path \<Rightarrow> host act" where
  "os_mkdir p h =
     (let h' = log (EvMkdir p) h in
      if exists h p \<or> parent_dir p \<notin> dirs h then (Some (ErrFs ''mkdir'' p), h')
      else (None, h'\<lparr>dirs := insert p (dirs h)\<rparr>))"

text \<open>
  \<open>os.Create\<close>: create or truncate a regular file in an existing directory; it
  fails (as an \<open>open\<close> error) where the parent is not a directory or the path is a
  directory.
\<close>

abbreviation can_create :: "host \<Rightarrow> path \<Rightarrow> bool" where
  "can_create h p \<equiv> parent_dir p \<in> dirs h \<and> p \<notin> dirs h"

definition os_create :: "path \<Rightarrow> host act" where
  "os_create p h =
     (let h' = log (EvCreate p) h in
      if parent_dir p \<in> dirs h \<and> p \<notin> dirs h then (None, h'\<lparr>files := (files h)(p \<mapsto> [])\<rparr>)
      else (Some (ErrFs ''open'' p), h'))"

text \<open>
  A Go \<open>*os.File\<close>: the path it was opened at and its access mode. \<open>os.Open\<close>
  opens read-only (\<open>O_RDONLY\<close>), \<open>os.Create\<close> read-write (\<open>O_RDWR\<close>).
\<close>

datatype fmode = O_RDONLY | O_RDWR

datatype os_file = File fmode path

text \<open>\<open>os.Open\<close>: a read-only descriptor of an existing regular file.\<close>

definition os_open :: "path \<Rightarrow> host \<Rightarrow> (error + os_file) \<times> host" where
  "os_open p h =
     (let h' = log (EvOpen p) h in
      case files h p of None \<Rightarrow> (Inl (ErrFs ''open'' p), h') | Some _ \<Rightarrow> (Inr (File O_RDONLY p), h'))"

text \<open>\<open>os.Create\<close> with its descriptor: \<open>os_create\<close>, then a read-write file.\<close>

definition os_create_file :: "path \<Rightarrow> host \<Rightarrow> (error + os_file) \<times> host" where
  "os_create_file p h =
     (case os_create p h of (Some e, h') \<Rightarrow> (Inl e, h') | (None, h') \<Rightarrow> (Inr (File O_RDWR p), h'))"

text \<open>Reading a descriptor to its end (the source side of \<open>io.Copy\<close>).\<close>

definition file_read :: "os_file \<Rightarrow> host \<Rightarrow> string" where
  "file_read f h = (case f of File _ p \<Rightarrow> (case files h p of Some c \<Rightarrow> c | None \<Rightarrow> []))"

text \<open>
  \<open>(*os.File).Write\<close>: on a read-only descriptor the system call fails (\<open>EBADF\<close>)
  and Go returns a \<open>write\<close> path error; otherwise the bytes are appended at the
  offset, which for a file from \<open>os.Create\<close> is its end.
\<close>

definition file_write :: "os_file \<Rightarrow> string \<Rightarrow> host act" where
  "file_write f s h =
     (case f of File m p \<Rightarrow>
        if m = O_RDONLY then (Some (ErrFs ''write'' p), h)
        else (None, h\<lparr>files := (files h)(p \<mapsto> (case files h p of Some c \<Rightarrow> c | None \<Rightarrow> []) @ s)\<rparr>))"

text \<open>Replacing a file's content (the archiver and the HTTP body copy write whole files).\<close>

definition put_file :: "path \<Rightarrow> string \<Rightarrow> host \<Rightarrow> host" where
  "put_file p c h = h\<lparr>files := (files h)(p \<mapsto> c)\<rparr>"

text \<open>\<open>os.MkdirAll\<close> as the archiver uses it: the directory and its ancestors.\<close>

definition ancestors :: "path \<Rightarrow> path list" where
  "ancestors p = map (\<lambda>i. take i p) (filter (\<lambda>i. p ! i = CHR ''/'' \<and> 0 < i) [0..<length p]) @ [p]"

definition mkdir_all :: "path \<Rightarrow> host \<Rightarrow> host" where
  "mkdir_all p h = h\<lparr>dirs := dirs h \<union> set (ancestors p)\<rparr>"

subsection \<open>ZFS\<close>

text \<open>
  ZFS's naming rules (\<open>zfs(8)\<close>, \<^emph>\<open>Naming\<close>): a dataset name is a slash-separated
  path of components, each non-empty, neither \<open>.\<close> nor \<open>..\<close>, made of
  alphanumeric characters and \<open>_ - : .\<close> and space; its first component is the
  pool, whose name begins with a letter (\<open>zpool(8)\<close>). A snapshot is named
  \<open>dataset@tag\<close>, the tag made of the same characters. The limit of 255 characters
  on a name and the reserved pool names are not modelled.
\<close>

definition is_letter :: "char \<Rightarrow> bool" where
  "is_letter c \<longleftrightarrow> c \<in> set ''abcdefghijklmnopqrstuvwxyzABCDEFGHIJKLMNOPQRSTUVWXYZ''"

definition ds_char :: "char \<Rightarrow> bool" where
  "ds_char c \<longleftrightarrow>
     c \<in> set ''abcdefghijklmnopqrstuvwxyzABCDEFGHIJKLMNOPQRSTUVWXYZ0123456789_-:. ''"

primrec ds_components :: "string \<Rightarrow> string list" where
  "ds_components [] = [[]]"
| "ds_components (c # cs) =
     (if c = CHR ''/'' then [] # ds_components cs
      else (let r = ds_components cs in (c # hd r) # tl r))"

definition component_ok :: "string \<Rightarrow> bool" where
  "component_ok x \<longleftrightarrow> x \<noteq> [] \<and> x \<noteq> ''.'' \<and> x \<noteq> ''..'' \<and> list_all ds_char x"

definition valid_ds :: "string \<Rightarrow> bool" where
  "valid_ds n \<longleftrightarrow> n \<noteq> [] \<and> is_letter (hd n) \<and> list_all component_ok (ds_components n)"

definition snap_ds :: "string \<Rightarrow> string" where
  "snap_ds s = takeWhile (\<lambda>c. c \<noteq> CHR ''@'') s"

definition snap_tag :: "string \<Rightarrow> string" where
  "snap_tag s = drop 1 (dropWhile (\<lambda>c. c \<noteq> CHR ''@'') s)"

definition valid_tag :: "string \<Rightarrow> bool" where
  "valid_tag t \<longleftrightarrow> t \<noteq> [] \<and> list_all ds_char t"

definition pool :: "string \<Rightarrow> string" where
  "pool n = takeWhile (\<lambda>c. c \<noteq> CHR ''/'') n"

text \<open>
  \<open>zfs\<close>'s command line, as its option parser reads the subcommands the builder uses:
  \<open>create [-p] [-o prop=value]... dataset\<close>, \<open>destroy [-r] name\<close>,
  \<open>snapshot name\<close>, \<open>clone snapshot dataset\<close>. Options come before the single
  operand; a missing or extra operand, an unknown option or a property without \<open>=\<close>
  is a usage error.
\<close>

datatype zfs_req =
    ZCreate bool "string list" string
  | ZDestroy bool string
  | ZSnapshot string
  | ZClone string string
  | ZUsage

definition is_option :: "string \<Rightarrow> bool" where
  "is_option a \<longleftrightarrow> take 1 a = ''-''"

fun create_args :: "bool \<Rightarrow> string list \<Rightarrow> argv \<Rightarrow> zfs_req" where
  "create_args p os [] = ZUsage"
| "create_args p os (a # as) =
     (if a = ''-p'' then create_args True os as
      else if a = ''-o'' then
        (case as of
           [] \<Rightarrow> ZUsage
         | v # as' \<Rightarrow> if CHR ''='' \<in> set v then create_args p (os @ [v]) as' else ZUsage)
      else if as = [] \<and> \<not> is_option a then ZCreate p os a
      else ZUsage)"

fun destroy_args :: "bool \<Rightarrow> argv \<Rightarrow> zfs_req" where
  "destroy_args r [] = ZUsage"
| "destroy_args r (a # as) =
     (if a = ''-r'' then destroy_args True as
      else if as = [] \<and> \<not> is_option a then ZDestroy r a
      else ZUsage)"

fun zfs_parse :: "argv \<Rightarrow> zfs_req" where
  "zfs_parse [] = ZUsage"
| "zfs_parse (c # as) =
     (if c = ''create'' then create_args False [] as
      else if c = ''destroy'' then destroy_args False as
      else if c = ''snapshot'' then (case as of [s] \<Rightarrow> ZSnapshot s | _ \<Rightarrow> ZUsage)
      else if c = ''clone'' then (case as of [s, d] \<Rightarrow> ZClone s d | _ \<Rightarrow> ZUsage)
      else ZUsage)"

text \<open>
  Property values: \<open>mountpoint\<close> takes an absolute path, \<open>none\<close> or
  \<open>legacy\<close>; other properties are not modelled and are accepted.
\<close>

definition prop_ok :: "string \<Rightarrow> bool" where
  "prop_ok a =
     (let k = takeWhile (\<lambda>c. c \<noteq> CHR ''='') a; v = drop 1 (dropWhile (\<lambda>c. c \<noteq> CHR ''='') a) in
      if k = ''mountpoint'' then take 1 v = ''/'' \<or> v = ''none'' \<or> v = ''legacy'' else True)"

text \<open>The datasets at or below \<open>d\<close>.\<close>

definition subtree :: "string \<Rightarrow> string set \<Rightarrow> string set" where
  "subtree d S = Set.filter (\<lambda>x. x = d \<or> take (Suc (length d)) x = d @ ''/'') S"

text \<open>
  The effect of a parsed command: exit status and new ZFS state.
  \<open>create\<close> needs a valid name below a pool and valid properties; with \<open>-p\<close> it
  creates the dataset and any missing ancestors and is not an error on an existing
  dataset (it needs the pool); without \<open>-p\<close> the dataset must be new and its parent
  must exist. \<open>destroy\<close> of a snapshot needs the snapshot and no clone of it; of a
  dataset below its pool, with \<open>-r\<close> it removes the dataset, its descendants and their
  snapshots, without \<open>-r\<close> only a dataset with no children or snapshots, and never a
  snapshot that a remaining clone depends on. \<open>snapshot\<close> needs the dataset and a
  fresh valid name. \<open>clone\<close> needs the snapshot, a fresh valid target and the
  target's parent. A usage error exits with status 2, every other failure with 1.
\<close>

fun zfs_exec :: "zfs_req \<Rightarrow> host \<Rightarrow> nat \<times> host" where
  "zfs_exec ZUsage h = (2, h)"
| "zfs_exec (ZCreate p os ds) h =
     (if valid_ds ds \<and> CHR ''/'' \<in> set ds \<and> list_all prop_ok os then
        (if p then
           (if pool ds \<in> datasets h then (0, h\<lparr>datasets := datasets h \<union> set (ancestors ds)\<rparr>)
            else (1, h))
         else if ds \<notin> datasets h \<and> parent_dir ds \<in> datasets h
         then (0, h\<lparr>datasets := insert ds (datasets h)\<rparr>)
         else (1, h))
      else (1, h))"
| "zfs_exec (ZDestroy r d) h =
     (if CHR ''@'' \<in> set d then
        (if d \<in> snapshots h \<and> \<not> (\<exists>x\<in>datasets h. origin h x = Some d)
         then (0, h\<lparr>snapshots := snapshots h - {d}\<rparr>) else (1, h))
      else
        (let D = subtree d (datasets h); S = Set.filter (\<lambda>s. snap_ds s \<in> D) (snapshots h) in
         if d \<in> datasets h \<and> CHR ''/'' \<in> set d \<and> (r \<or> (D = {d} \<and> S = {}))
            \<and> \<not> (\<exists>x\<in>datasets h - D. \<exists>s\<in>S. origin h x = Some s)
         then (0, h\<lparr>datasets := datasets h - D, snapshots := snapshots h - S,
                    origin := restrict_map (origin h) (- D)\<rparr>)
         else (1, h)))"
| "zfs_exec (ZSnapshot s) h =
     (if valid_ds (snap_ds s) \<and> valid_tag (snap_tag s) \<and> snap_ds s \<in> datasets h
         \<and> s \<notin> snapshots h
      then (0, h\<lparr>snapshots := insert s (snapshots h)\<rparr>) else (1, h))"
| "zfs_exec (ZClone s d) h =
     (if s \<in> snapshots h \<and> valid_ds d \<and> d \<notin> datasets h \<and> parent_dir d \<in> datasets h
      then (0, h\<lparr>datasets := insert d (datasets h), origin := (origin h)(d \<mapsto> s)\<rparr>)
      else (1, h))"

definition zfs_cmd :: "argv \<Rightarrow> host \<Rightarrow> nat \<times> host" where
  "zfs_cmd args h = zfs_exec (zfs_parse args) h"

subsection \<open>Names and command lines\<close>

lemma ds_components_ne [simp]: "ds_components s \<noteq> []"
  by (cases s) (simp_all add: Let_def)

lemma ds_components_append_slash:
  "ds_components (a @ CHR ''/'' # b) = ds_components a @ ds_components b"
  by (induction a) (simp_all add: Let_def)

lemma ds_components_chars:
  "c \<in> set n \<Longrightarrow> c \<noteq> CHR ''/'' \<Longrightarrow> \<exists>x\<in>set (ds_components n). c \<in> set x"
proof (induction n)
  case Nil
  then show ?case by simp
next
  case (Cons a n)
  then show ?case
    by (cases "ds_components n") (auto simp: Let_def)
qed

lemma valid_ds_char:
  "valid_ds n \<Longrightarrow> c \<in> set n \<Longrightarrow> c = CHR ''/'' \<or> ds_char c"
  using ds_components_chars [of c n]
  by (auto simp: valid_ds_def component_ok_def list_all_iff)

lemma valid_ds_no_at [host_simps]: "valid_ds n \<Longrightarrow> CHR ''@'' \<notin> set n"
  using valid_ds_char [of n "CHR ''@''"] by (auto simp: ds_char_def)

lemma slash_name_invalid [host_simps]: "\<not> valid_ds (CHR ''/'' # n)"
  by (simp add: valid_ds_def is_letter_def)

lemma valid_ds_not_option [host_simps]: "valid_ds n \<Longrightarrow> \<not> is_option n"
  by (cases n) (auto simp: valid_ds_def is_letter_def is_option_def)

lemma snap_ds_append [host_simps]:
  assumes "CHR ''@'' \<notin> set d"
  shows "snap_ds (d @ CHR ''@'' # t) = d"
proof -
  have "takeWhile (\<lambda>c. c \<noteq> CHR ''@'') (d @ CHR ''@'' # t) = d @ takeWhile (\<lambda>c. c \<noteq> CHR ''@'') (CHR ''@'' # t)"
    using assms by (subst takeWhile_append2) auto
  then show ?thesis by (simp add: snap_ds_def)
qed

lemma snap_tag_append [host_simps]:
  assumes "CHR ''@'' \<notin> set d"
  shows "snap_tag (d @ CHR ''@'' # t) = t"
proof -
  have "dropWhile (\<lambda>c. c \<noteq> CHR ''@'') (d @ CHR ''@'' # t) = CHR ''@'' # t"
    using assms by (subst dropWhile_append2) auto
  then show ?thesis by (simp add: snap_tag_def)
qed

lemma snap_tag_append_at:
  assumes "CHR ''@'' \<in> set d"
  shows "snap_tag (d @ t) = drop 1 (dropWhile (\<lambda>c. c \<noteq> CHR ''@'') d) @ t"
proof -
  from assms have "dropWhile (\<lambda>c. c \<noteq> CHR ''@'') d \<noteq> []"
    by (simp add: dropWhile_eq_Nil_conv)
  then have "Suc 0 - length (dropWhile (\<lambda>c. c \<noteq> CHR ''@'') d) = 0"
    by (cases "dropWhile (\<lambda>c. c \<noteq> CHR ''@'') d") auto
  with assms show ?thesis
    by (simp add: snap_tag_def dropWhile_append1)
qed

lemma snap_tag_invalid_at:
  "CHR ''@'' \<in> set d \<Longrightarrow> CHR ''@'' \<in> set t \<Longrightarrow> \<not> valid_tag (snap_tag (d @ t))"
  by (auto simp: snap_tag_append_at valid_tag_def list_all_iff ds_char_def)

text \<open>A single operand after the options is the dataset unless it reads as an option.\<close>

lemma create_args_single [host_simps]:
  "create_args p os [a] = (if is_option a then ZUsage else ZCreate p os a)"
  by (auto simp: is_option_def)

lemma destroy_args_single [host_simps]:
  "destroy_args r [a] = (if is_option a then ZUsage else ZDestroy r a)"
  by (auto simp: is_option_def)

text \<open>Any other program: its exit status is the world's \<open>tool\<close>; it changes nothing we model.\<close>

definition run_prog :: "argv \<Rightarrow> host \<Rightarrow> nat \<times> host" where
  "run_prog cmd h = (case cmd of ''zfs'' # args \<Rightarrow> zfs_cmd args h | _ \<Rightarrow> (tool h cmd, h))"

text \<open>\<open>cmd.Start(); cmd.Wait()\<close>: an \<open>*exec.ExitError\<close> on a non-zero status.\<close>

definition exec_run :: "argv \<Rightarrow> host act" where
  "exec_run cmd h =
     (let (n, h') = run_prog cmd h in
      (if n = 0 then None else Some (ErrExit cmd n), h'))"

subsection \<open>The command executor interface\<close>

text \<open>
  \<open>Wrapper\<close> is the executor capability the \<open>Builder\<close> holds: \<open>CombinedOutput\<close>
  and \<open>Output\<close> take a program and its arguments and return the output and an
  error. Its implementation \<open>Wrap\<close> is not among the sources; it is modelled from
  the spec as running the command to completion (\<open>exec_run\<close>) with empty output.
\<close>

record wrapper =
  CombinedOutput :: "argv \<Rightarrow> host \<Rightarrow> (string \<times> error option) \<times> host"
  Output :: "argv \<Rightarrow> host \<Rightarrow> (string \<times> error option) \<times> host"

definition wrap_exec :: "argv \<Rightarrow> host \<Rightarrow> (string \<times> error option) \<times> host" where
  "wrap_exec cmd h = (let (r, h') = exec_run cmd h in (([], r), h'))"

definition Wrap :: wrapper where
  "Wrap = \<lparr>CombinedOutput = wrap_exec, Output = wrap_exec\<rparr>"

text \<open>
  The spec's design note asks for a swappable executor so that the pipeline can run
  against a fake one; \<open>Fake\<close> is that executor: every command succeeds with empty
  output and changes nothing.
\<close>

definition Fake :: wrapper where
  "Fake = \<lparr>CombinedOutput = (\<lambda>_ h. (([], None), h)), Output = (\<lambda>_ h. (([], None), h))\<rparr>"

lemmas host_eval [eval_simps] =
  log_def exists_def os_mkdir_def os_create_def os_open_def os_create_file_def file_read_def
  file_write_def put_file_def ancestors_def mkdir_all_def
  valid_ds_def is_letter_def component_ok_def ds_char_def snap_ds_def snap_tag_def valid_tag_def pool_def prop_ok_def
  is_option_def subtree_def zfs_cmd_def exec_run_def run_prog_def
  Wrap_def wrap_exec_def Fake_def

end
