(* ===== verification/Options.thy ===== *)
theory Options
  imports Host
begin

text \<open>
  The builder's configuration (\<open>Opts\<close>, \<open>Opts.Validate\<close>) and the \<open>Builder\<close>
  itself with its constructor \<open>New\<close>, from \<open>src/build.go\<close>. Validation checks
  the three fields in the order of the \<open>switch\<close> and names the first empty one.
\<close>

record opts =
  BaseDir :: string
  Release :: string
  Dataset :: string

definition Validate :: "opts \<Rightarrow> error option" where
  "Validate cfg =
     (if BaseDir cfg = [] then Some (ErrValidation ''missing base directory'')
      else if Release cfg = [] then Some (ErrValidation ''missing release'')
      else if Dataset cfg = [] then Some (ErrValidation ''missing dataset'')
      else None)"

record builder =
  wrap :: wrapper
  bopts :: opts

definition New :: "opts \<Rightarrow> error + builder" where
  "New cfg = (case Validate cfg of Some e \<Rightarrow> Inl e | None \<Rightarrow> Inr \<lparr>wrap = Wrap, bopts = cfg\<rparr>)"

text \<open>The three fields are the required parameters of the spec, in the validator's order.\<close>

definition opts_valid :: "opts \<Rightarrow> bool" where
  "opts_valid cfg \<longleftrightarrow> BaseDir cfg \<noteq> [] \<and> Release cfg \<noteq> [] \<and> Dataset cfg \<noteq> []"

lemma Validate_None_iff: "Validate cfg = None \<longleftrightarrow> opts_valid cfg"
  by (simp add: Validate_def opts_valid_def)

text \<open>
  C19. Validate checks BaseDir, Release and Dataset in that order and reports the first empty field; it succeeds when all three are non-empty.
\<close>

theorem Validate_first_missing:
  "Validate cfg =
     (case filter (\<lambda>(v, _). v = []) [(BaseDir cfg, ''missing base directory''),
                                    (Release cfg, ''missing release''),
                                    (Dataset cfg, ''missing dataset'')] of
        [] \<Rightarrow> None
      | (_, msg) # _ \<Rightarrow> Some (ErrValidation msg))"
  by (simp add: Validate_def)

text \<open>
  C20. New returns a builder exactly for valid options, and that builder holds the concrete executor and the given options.
\<close>

theorem New_Inr_iff: "New cfg = Inr b \<longleftrightarrow> opts_valid cfg \<and> b = \<lparr>wrap = Wrap, bopts = cfg\<rparr>"
  by (auto simp: New_def Validate_None_iff [symmetric] split: option.splits)

lemma New_Inl_iff: "New cfg = Inl e \<longleftrightarrow> Validate cfg = Some e"
  by (auto simp: New_def split: option.splits)

subsection \<open>An example configuration and host\<close>

text \<open>
  The concrete inputs at which the witnesses of the development evaluate the theorems:
  release \<open>13\<close> under \<open>/j\<close> on pool \<open>z\<close>, all three archives cached, the
  directories the pipeline writes into present, every download answering \<open>200\<close>,
  every archive holding an \<open>etc\<close> directory and every external tool exiting 0.
\<close>

definition demo_cfg :: opts where
  "demo_cfg = \<lparr>BaseDir = ''/j'', Release = ''13'', Dataset = ''z''\<rparr>"

definition demo_host :: host where
  "demo_host =
     \<lparr>files = [''/tmp/13/base.txz'' \<mapsto> ''B'', ''/tmp/13/lib32.txz'' \<mapsto> ''L'',
               ''/tmp/13/ports.txz'' \<mapsto> ''P'', ''/etc/resolv.conf'' \<mapsto> ''ns'',
               ''/etc/localtime'' \<mapsto> ''UTC''],
      dirs = {''/'', ''/tmp'', ''/tmp/13'', ''/j/base/etc'', ''/j/web1/etc'', ''/j/releases/13/etc''},
      datasets = {''z''}, snapshots = {}, origin = Map.empty, events = [], stdout = [],
      net = (\<lambda>_. Resp 200 ''data''), tar = (\<lambda>_. ([TDir ''etc''], True)), tool = (\<lambda>_. 0)\<rparr>"

lemmas options_eval [eval_simps] = Validate_def New_def demo_cfg_def demo_host_def

end
