(* ===== verification/Zfs_Ops.thy ===== *)
theory Zfs_Ops
  imports Options
begin

text \<open>
  The Snapshot/Clone manager of \<open>src/zfs.go\<close>: each method builds a \<open>zfs\<close>
  command line from the options and runs it through the builder's \<open>Wrapper\<close>.
  A call through the wrapper first appends the command line to the ghost trace, so
  that the order of commands is visible whatever executor is plugged in.
  Results: with the concrete executor \<open>Wrap\<close>, dataset creation is idempotent,
  a snapshot needs its dataset, and the clone command is always rejected because both
  names it passes start with a slash.
\<close>

definition call_combined :: "builder \<Rightarrow> argv \<Rightarrow> host \<Rightarrow> (string \<times> error option) \<times> host" where
  "call_combined b cmd h = CombinedOutput (wrap b) cmd (log (EvExec cmd) h)"

definition call_output :: "builder \<Rightarrow> argv \<Rightarrow> host \<Rightarrow> (string \<times> error option) \<times> host" where
  "call_output b cmd h = Output (wrap b) cmd (log (EvExec cmd) h)"

definition release_dataset :: "opts \<Rightarrow> string" where
  "release_dataset cfg = Dataset cfg @ ''/jails/releases/'' @ Release cfg"

definition CreateZFSDataset :: "builder \<Rightarrow> host act" where
  "CreateZFSDataset b h =
     (let dataset = release_dataset (bopts b);
          ((out, err), h') = call_combined b [''zfs'', ''create'', ''-p'', dataset] h
      in (err, h'\<lparr>stdout := stdout h' @ [out]\<rparr>))"

definition CreateZFSSnapshot :: "builder \<Rightarrow> host act" where
  "CreateZFSSnapshot b h =
     (let ((_, err), h') =
        call_output b [''zfs'', ''snapshot'', Dataset (bopts b) @ ''/jails/releases/'' @ Release (bopts b) @ ''@p1''] h
      in (err, h'))"

definition CloneBaseToJail :: "builder \<Rightarrow> string \<Rightarrow> host act" where
  "CloneBaseToJail b jname h =
     (let base = ''/'' @ Dataset (bopts b) @ ''/jails/releases/'' @ Release (bopts b) @ ''@p1'';
          dataset = ''/zroot/jails/'' @ jname;
          ((_, err), h') = call_output b [''zfs'', ''clone'', base, dataset] h
      in (err, h'))"

definition CreateBaseJailDataset :: "builder \<Rightarrow> host act" where
  "CreateBaseJailDataset b h =
     (let ((_, err), h') =
        call_output b [''zfs'', ''create'', ''-o'', ''mountpoint='' @ BaseDir (bopts b), ''zroot'', ''''] h
      in (err, h'))"

lemmas zfs_ops_defs [jail_simps] =
  CreateZFSDataset_def CreateZFSSnapshot_def CloneBaseToJail_def CreateBaseJailDataset_def
  call_combined_def call_output_def

lemmas wrap_defs [host_simps] = Wrap_def wrap_exec_def exec_run_def run_prog_def log_def

subsection \<open>Behaviour under the concrete executor\<close>

text \<open>The builder that \<open>New\<close> returns for valid options.\<close>

abbreviation wrap_builder :: "opts \<Rightarrow> builder" where
  "wrap_builder cfg \<equiv> \<lparr>wrap = Wrap, bopts = cfg\<rparr>"

lemma snapshot_name_eq: "Dataset cfg @ ''/jails/releases/'' @ Release cfg @ ''@p1'' = release_dataset cfg @ ''@p1''"
  by (simp add: release_dataset_def)

lemma release_dataset_slash [simp]: "CHR ''/'' \<in> set (release_dataset cfg)"
  by (simp add: release_dataset_def)

text \<open>\<open>zfs create -p ds\<close>, as the parser and the executor read it.\<close>

lemma zfs_create_p:
  "zfs_cmd [''create'', ''-p'', ds] h =
     (if is_option ds then (2, h)
      else if valid_ds ds \<and> CHR ''/'' \<in> set ds \<and> pool ds \<in> datasets h
      then (0, h\<lparr>datasets := datasets h \<union> set (ancestors ds)\<rparr>) else (1, h))"
proof -
  have "zfs_parse [''create'', ''-p'', ds] = create_args True [] [ds]" by simp
  then show ?thesis by (auto simp: zfs_cmd_def create_args_single simp del: create_args.simps)
qed

lemma CreateZFSDataset_Wrap:
  "CreateZFSDataset (wrap_builder cfg) h =
     (let ds = release_dataset cfg; cmd = [''zfs'', ''create'', ''-p'', ds];
          h1 = log (EvExec cmd) h
      in if valid_ds ds \<and> pool ds \<in> datasets h
         then (None, h1\<lparr>datasets := datasets h \<union> set (ancestors ds), stdout := stdout h @ [[]]\<rparr>)
         else (Some (ErrExit cmd (if is_option ds then 2 else 1)), h1\<lparr>stdout := stdout h @ [[]]\<rparr>))"
  by (auto simp: zfs_ops_defs wrap_defs zfs_create_p Let_def valid_ds_not_option)

text \<open>The snapshot command on the release dataset's \<open>@p1\<close> name.\<close>

lemma zfs_snapshot_release:
  "zfs_cmd [''snapshot'', release_dataset cfg @ ''@p1''] h =
     (if valid_ds (release_dataset cfg) \<and> release_dataset cfg \<in> datasets h
         \<and> release_dataset cfg @ ''@p1'' \<notin> snapshots h
      then (0, h\<lparr>snapshots := insert (release_dataset cfg @ ''@p1'') (snapshots h)\<rparr>) else (1, h))"
proof (cases "CHR ''@'' \<in> set (release_dataset cfg)")
  case True
  then have "\<not> valid_tag (snap_tag (release_dataset cfg @ ''@p1''))" and "\<not> valid_ds (release_dataset cfg)"
    using valid_ds_no_at by (auto simp: snap_tag_invalid_at)
  then show ?thesis by (simp add: zfs_cmd_def)
next
  case False
  then show ?thesis by (auto simp: host_simps zfs_cmd_def valid_tag_def ds_char_def)
qed

text \<open>
  C14. With the concrete executor, the snapshot command succeeds exactly when the release dataset exists, is a valid name and its @p1 snapshot does not exist yet; it then adds that snapshot.
\<close>

theorem CreateZFSSnapshot_Wrap:
  "CreateZFSSnapshot (wrap_builder cfg) h =
     (let s = release_dataset cfg @ ''@p1''; cmd = [''zfs'', ''snapshot'', s];
          h1 = log (EvExec cmd) h
      in if valid_ds (release_dataset cfg) \<and> release_dataset cfg \<in> datasets h \<and> s \<notin> snapshots h
         then (None, h1\<lparr>snapshots := insert s (snapshots h)\<rparr>)
         else (Some (ErrExit cmd 1), h1))"
  unfolding CreateZFSSnapshot_def call_output_def snapshot_name_eq
  by (simp add: wrap_defs zfs_snapshot_release Let_def)

lemma CreateZFSSnapshot_Wrap_ok:
  assumes "CreateZFSSnapshot (wrap_builder cfg) h = (None, h')"
  shows "release_dataset cfg @ ''@p1'' \<in> snapshots h' \<and> release_dataset cfg \<in> datasets h'"
  using assms unfolding CreateZFSSnapshot_def call_output_def snapshot_name_eq
  by (auto simp: wrap_defs exec_run_def run_prog_def zfs_snapshot_release log_def Let_def
           split: if_splits)

lemma CloneBaseToJail_Wrap:
  "CloneBaseToJail (wrap_builder cfg) jname h =
     (let cmd = [''zfs'', ''clone'', ''/'' @ release_dataset cfg @ ''@p1'', ''/zroot/jails/'' @ jname]
      in (Some (ErrExit cmd 1), log (EvExec cmd) h))"
proof -
  have "\<not> valid_ds (''/zroot/jails/'' @ jname)" by (simp add: slash_name_invalid)
  then show ?thesis by (simp add: jail_simps host_simps zfs_cmd_def release_dataset_def Let_def)
qed

text \<open>
  C13. With the concrete executor, CloneBaseToJail always fails with exit status 1 and leaves datasets and clone origins unchanged, because both names it passes start with a slash.
\<close>

theorem CloneBaseToJail_rejected:
  "fst (CloneBaseToJail (wrap_builder cfg) jname h) =
     Some (ErrExit [''zfs'', ''clone'', ''/'' @ release_dataset cfg @ ''@p1'', ''/zroot/jails/'' @ jname] 1)
   \<and> datasets (snd (CloneBaseToJail (wrap_builder cfg) jname h)) = datasets h
   \<and> origin (snd (CloneBaseToJail (wrap_builder cfg) jname h)) = origin h"
  by (simp add: CloneBaseToJail_Wrap log_def Let_def)

lemmas zfs_eval [eval_simps] = zfs_ops_defs release_dataset_def

text \<open>
  C15. Creating the release dataset twice gives the same result the second time and no further change to the datasets (zfs create -p on an existing dataset is not an error).
\<close>

theorem CreateZFSDataset_idempotent:
  assumes "CreateZFSDataset (wrap_builder cfg) h = (r1, h1)"
      and "CreateZFSDataset (wrap_builder cfg) h1 = (r2, h2)"
  shows "r2 = r1 \<and> datasets h2 = datasets h1"
  using assms by (auto simp: CreateZFSDataset_Wrap Let_def log_def ancestors_def split: if_splits)

theorem CreateZFSDataset_idempotent_witness:
  "fst (CreateZFSDataset (wrap_builder demo_cfg) (snd (CreateZFSDataset (wrap_builder demo_cfg) demo_host)))
     = fst (CreateZFSDataset (wrap_builder demo_cfg) demo_host)
   \<and> fst (CreateZFSDataset (wrap_builder demo_cfg) demo_host) = None
   \<and> ''z/jails/releases/13'' \<in> datasets (snd (CreateZFSDataset (wrap_builder demo_cfg)
                                     (snd (CreateZFSDataset (wrap_builder demo_cfg) demo_host))))"
proof -
  let ?c = "CreateZFSDataset (wrap_builder demo_cfg)"
  have "fst (?c (snd (?c demo_host))) = fst (?c demo_host)
        \<and> datasets (snd (?c (snd (?c demo_host)))) = datasets (snd (?c demo_host))"
    by (rule CreateZFSDataset_idempotent [OF prod.collapse [symmetric] prod.collapse [symmetric]])
  moreover have "fst (?c demo_host) = None" and "''z/jails/releases/13'' \<in> datasets (snd (?c demo_host))"
    by (simp_all add: eval_simps Let_def)
  ultimately show ?thesis by simp
qed

text \<open>
  C29. Well-formedness of the names the builder gives to \<open>zfs\<close>: the release dataset
  \<open>Dataset/jails/releases/Release\<close> is a valid ZFS dataset name exactly when the dataset
  root begins with a letter and every slash-separated component of the root and of the
  release is a valid ZFS component (non-empty, not \<open>.\<close> or \<open>..\<close>, of ZFS's
  characters). \<open>Validate\<close> checks only non-emptiness.
\<close>

theorem release_dataset_valid:
  "valid_ds (release_dataset cfg) \<longleftrightarrow>
     Dataset cfg \<noteq> [] \<and> is_letter (hd (Dataset cfg))
     \<and> list_all component_ok (ds_components (Dataset cfg))
     \<and> list_all component_ok (ds_components (Release cfg))"
proof -
  have c: "ds_components (release_dataset cfg) =
             ds_components (Dataset cfg) @ [''jails'', ''releases''] @ ds_components (Release cfg)"
    by (simp add: release_dataset_def ds_components_append_slash)
  have hd: "Dataset cfg \<noteq> [] \<Longrightarrow> hd (release_dataset cfg) = hd (Dataset cfg)"
    and ne: "release_dataset cfg \<noteq> []"
    by (simp_all add: release_dataset_def)
  have "list_all component_ok [''jails'', ''releases'']" and "\<not> component_ok []"
    by (simp_all add: component_ok_def ds_char_def)
  with hd ne show ?thesis
    by (cases "Dataset cfg = []") (auto simp: valid_ds_def c)
qed

lemma release_dataset_invalid_root:
  "\<not> valid_ds (release_dataset \<lparr>BaseDir = ''/j'', Release = ''13'', Dataset = ''/zroot''\<rparr>)
   \<and> \<not> valid_ds (release_dataset \<lparr>BaseDir = ''/j'', Release = ''13'', Dataset = ''zroot/''\<rparr>)
   \<and> \<not> valid_ds (release_dataset \<lparr>BaseDir = ''/j'', Release = ''13.0 RELEASE!'', Dataset = ''zroot''\<rparr>)
   \<and> valid_ds (release_dataset demo_cfg)"
  by (simp add: eval_simps)

text \<open>
  C31. \<open>CreateBaseJailDataset\<close> always fails with the concrete executor: it passes two
  dataset operands (\<open>zroot\<close> and the empty string) to \<open>zfs create\<close>, a usage error
  (exit status 2), and changes nothing but the trace.
\<close>

theorem CreateBaseJailDataset_usage_error:
  "CreateBaseJailDataset (wrap_builder cfg) h =
     (Some (ErrExit [''zfs'', ''create'', ''-o'', ''mountpoint='' @ BaseDir cfg, ''zroot'', ''''] 2),
      log (EvExec [''zfs'', ''create'', ''-o'', ''mountpoint='' @ BaseDir cfg, ''zroot'', '''']) h)"
  by (simp add: jail_simps host_simps zfs_cmd_def Let_def)

end
