(* ===== verification/Fetch_Tasks.thy ===== *)
theory Fetch_Tasks
  imports Options
begin

text \<open>
  The download tasks of \<open>DownloadBaseSystem\<close> (\<open>src/build.go\<close>) and the error group
  that runs them. Each goroutine launched by \<open>errgroup.Group.Go\<close> creates its cache file,
  issues the GET and copies the body; concurrency is modelled at the granularity of its two
  atomic effects (\<open>task_create\<close>, \<open>task_get\<close>): a task is \<open>Ready\<close>, \<open>Started\<close> (file
  created) or \<open>Done\<close> with its result, and \<open>errgroup\<close>'s \<open>errOnce\<close> keeps the first error
  in time. \<open>fetch_step\<close> is the step relation (any runnable task moves), \<open>run_sched\<close>
  executes it along a list of scheduler choices and \<open>wait_all\<close> is \<open>g.Wait()\<close>. The
  invariant \<open>fetch_inv\<close> holds in every reachable state (rule induction), and waiting
  finishes every task.
\<close>

definition basePackages :: "string list" where
  "basePackages = [''base.txz'', ''lib32.txz'', ''ports.txz'']"

definition sysDownloadURL :: "string \<Rightarrow> string \<Rightarrow> string" where
  "sysDownloadURL rel p = ''http://ftp.freebsd.org/pub/FreeBSD/releases/amd64/amd64/'' @ rel @ ''/'' @ p"

definition cache_dir :: "opts \<Rightarrow> path" where
  "cache_dir cfg = ''/tmp/'' @ Release cfg"

definition pkg_file :: "opts \<Rightarrow> string \<Rightarrow> path" where
  "pkg_file cfg p = ''/tmp/'' @ Release cfg @ ''/'' @ p"

subsection \<open>One download task\<close>

text \<open>\<open>out, err := os.Create(pkgFile)\<close>\<close>

definition task_create :: "opts \<Rightarrow> string \<Rightarrow> host act" where
  "task_create cfg p = os_create (pkg_file cfg p)"

text \<open>
  \<open>hc.Do(req)\<close> and \<open>io.Copy(out, res.Body)\<close>: the status code is not inspected,
  a transport error leaves the created file empty, a failed copy leaves the prefix
  read so far.
\<close>

definition task_get :: "opts \<Rightarrow> string \<Rightarrow> host act" where
  "task_get cfg p h =
     (let url = sysDownloadURL (Release cfg) p; f = pkg_file cfg p; h' = log (EvGet url) h in
      case net h url of
        RespFail \<Rightarrow> (Some (ErrHttp url), h')
      | Resp _ body \<Rightarrow> (None, put_file f body h')
      | RespCut part \<Rightarrow> (Some (ErrCopy url), put_file f part h'))"

definition download_task :: "opts \<Rightarrow> string \<Rightarrow> host act" where
  "download_task cfg p = then_go (task_create cfg p) (task_get cfg p)"

subsection \<open>The error group\<close>

datatype phase = Ready | Started | Done "error option"

record fetch_state =
  fhost :: host
  phases :: "phase list"
  gerr :: "error option"

text \<open>\<open>g.errOnce.Do(func() { g.err = err })\<close>: only the first error is kept.\<close>

definition first_err :: "error option \<Rightarrow> error option \<Rightarrow> error option" where
  "first_err r g = (case g of None \<Rightarrow> r | Some e \<Rightarrow> Some e)"

definition fetch_init :: "host \<Rightarrow> string list \<Rightarrow> fetch_state" where
  "fetch_init h ps = \<lparr>fhost = h, phases = replicate (length ps) Ready, gerr = None\<rparr>"

definition runnable :: "fetch_state \<Rightarrow> nat \<Rightarrow> bool" where
  "runnable s i \<longleftrightarrow> i < length (phases s) \<and> (case phases s ! i of Done _ \<Rightarrow> False | _ \<Rightarrow> True)"

text \<open>Task \<open>i\<close> performs its next atomic effect.\<close>

definition advance :: "opts \<Rightarrow> string list \<Rightarrow> nat \<Rightarrow> fetch_state \<Rightarrow> fetch_state" where
  "advance cfg ps i s =
     (case phases s ! i of
        Ready \<Rightarrow>
          (case task_create cfg (ps ! i) (fhost s) of
             (None, h') \<Rightarrow> s\<lparr>fhost := h', phases := (phases s)[i := Started]\<rparr>
           | (Some e, h') \<Rightarrow> s\<lparr>fhost := h', phases := (phases s)[i := Done (Some e)],
                               gerr := first_err (Some e) (gerr s)\<rparr>)
      | Started \<Rightarrow>
          (case task_get cfg (ps ! i) (fhost s) of
             (r, h') \<Rightarrow> s\<lparr>fhost := h', phases := (phases s)[i := Done r],
                          gerr := first_err r (gerr s)\<rparr>)
      | Done _ \<Rightarrow> s)"

inductive fetch_step :: "opts \<Rightarrow> string list \<Rightarrow> fetch_state \<Rightarrow> fetch_state \<Rightarrow> bool"
  for cfg ps where
  move: "runnable s i \<Longrightarrow> fetch_step cfg ps s (advance cfg ps i s)"

inductive_cases fetch_stepE: "fetch_step cfg ps s t"

definition finished :: "fetch_state \<Rightarrow> bool" where
  "finished s \<longleftrightarrow> (\<forall>ph \<in> set (phases s). case ph of Done _ \<Rightarrow> True | _ \<Rightarrow> False)"

text \<open>Executing the relation along the scheduler's choices; a choice of a task that cannot move is skipped.\<close>

fun run_sched :: "opts \<Rightarrow> string list \<Rightarrow> nat list \<Rightarrow> fetch_state \<Rightarrow> fetch_state" where
  "run_sched cfg ps [] s = s"
| "run_sched cfg ps (i # is) s =
     run_sched cfg ps is (if runnable s i then advance cfg ps i s else s)"

text \<open>\<open>g.Wait()\<close>: every task that has not finished runs to its end (two effects at most).\<close>

definition wait_all :: "opts \<Rightarrow> string list \<Rightarrow> fetch_state \<Rightarrow> fetch_state" where
  "wait_all cfg ps s = run_sched cfg ps (concat (map (\<lambda>i. [i, i]) [0..<length ps])) s"

subsection \<open>Effects of one task\<close>

lemma pkg_file_inj [simp]: "pkg_file cfg p = pkg_file cfg q \<longleftrightarrow> p = q"
  by (simp add: pkg_file_def)

lemma distinct_pkg_file:
  "distinct ps \<Longrightarrow> i < length ps \<Longrightarrow> j < length ps \<Longrightarrow>
     pkg_file cfg (ps ! i) = pkg_file cfg (ps ! j) \<longleftrightarrow> i = j"
  by (simp add: nth_eq_iff_index_eq)

lemma task_create_eff:
  assumes "task_create cfg p h = (r, h')"
  shows "same_except_files h h'"
    and "r = (if parent_dir (pkg_file cfg p) \<in> dirs h \<and> pkg_file cfg p \<notin> dirs h then None
              else Some (ErrFs ''open'' (pkg_file cfg p)))"
    and "files h' = (if r = None then (files h)(pkg_file cfg p \<mapsto> []) else files h)"
  using assms by (auto simp: task_create_def os_create_def log_def same_except_files_def Let_def
                       split: if_splits)

lemma task_get_eff:
  assumes "task_get cfg p h = (r, h')"
  shows "same_except_files h h'"
    and "r = (case net h (sysDownloadURL (Release cfg) p) of
                RespFail \<Rightarrow> Some (ErrHttp (sysDownloadURL (Release cfg) p))
              | Resp _ _ \<Rightarrow> None
              | RespCut _ \<Rightarrow> Some (ErrCopy (sysDownloadURL (Release cfg) p)))"
    and "files h' = (files h)(pkg_file cfg p :=
                       case net h (sysDownloadURL (Release cfg) p) of
                         RespFail \<Rightarrow> files h (pkg_file cfg p)
                       | Resp _ b \<Rightarrow> Some b
                       | RespCut b \<Rightarrow> Some b)"
  using assms by (auto simp: task_get_def put_file_def log_def same_except_files_def Let_def
                       split: response.splits)

lemma task_create_same_result:
  "same_except_files h h' \<Longrightarrow> fst (task_create cfg p h') = fst (task_create cfg p h)"
  by (simp add: task_create_def os_create_def same_except_files_def Let_def)

lemma task_get_same_result:
  "same_except_files h h' \<Longrightarrow> fst (task_get cfg p h') = fst (task_get cfg p h)"
  by (simp add: task_get_def same_except_files_def Let_def split: response.splits)

subsection \<open>The error slot\<close>

text \<open>
  The group's error is \<open>None\<close> while no task has failed, and otherwise the error of
  a failed task.
\<close>

definition gerr_ok :: "fetch_state \<Rightarrow> bool" where
  "gerr_ok s \<longleftrightarrow>
     (case gerr s of
        None \<Rightarrow> (\<forall>e. Done (Some e) \<notin> set (phases s))
      | Some e \<Rightarrow> Done (Some e) \<in> set (phases s))"

lemma gerr_ok_finish:
  assumes "gerr_ok s" and "i < length (phases s)" and "\<forall>r. phases s ! i \<noteq> Done r"
  shows "gerr_ok (s\<lparr>fhost := h', phases := (phases s)[i := Done r], gerr := first_err r (gerr s)\<rparr>)"
  using assms by (auto simp: gerr_ok_def first_err_def mem_set_update_other split: option.splits)

lemma gerr_ok_start:
  assumes "gerr_ok s" and "i < length (phases s)" and "phases s ! i = Ready"
  shows "gerr_ok (s\<lparr>fhost := h', phases := (phases s)[i := Started]\<rparr>)"
  using assms by (auto simp: gerr_ok_def mem_set_update_other split: option.splits)

subsection \<open>The invariant of the interleaved tasks\<close>

text \<open>
  From an initial host \<open>h0\<close>, the file of task \<open>i\<close> holds what its phase
  says: the old content before it starts, the empty file once created, and after it
  finishes exactly what the task run alone on \<open>h0\<close> leaves there. No other file
  changes, nothing but files and the trace changes, and a finished task's result is
  the result of that solo run. The tasks' files are distinct, so the invariant holds
  whatever the order of the steps.
\<close>

definition task_file :: "opts \<Rightarrow> string \<Rightarrow> host \<Rightarrow> phase \<Rightarrow> string option" where
  "task_file cfg p h0 ph =
     (case ph of
        Ready \<Rightarrow> files h0 (pkg_file cfg p)
      | Started \<Rightarrow> Some []
      | Done _ \<Rightarrow> files (snd (download_task cfg p h0)) (pkg_file cfg p))"

definition fetch_inv :: "opts \<Rightarrow> string list \<Rightarrow> host \<Rightarrow> fetch_state \<Rightarrow> bool" where
  "fetch_inv cfg ps h0 s \<longleftrightarrow>
     length (phases s) = length ps \<and> same_except_files h0 (fhost s) \<and> gerr_ok s \<and>
     (\<forall>i<length ps. files (fhost s) (pkg_file cfg (ps ! i)) = task_file cfg (ps ! i) h0 (phases s ! i)) \<and>
     (\<forall>f. f \<notin> pkg_file cfg ` set ps \<longrightarrow> files (fhost s) f = files h0 f) \<and>
     (\<forall>i<length ps. phases s ! i = Started \<longrightarrow> fst (task_create cfg (ps ! i) h0) = None) \<and>
     (\<forall>i<length ps. \<forall>r. phases s ! i = Done r \<longrightarrow> r = fst (download_task cfg (ps ! i) h0))"

lemma fetch_inv_init: "fetch_inv cfg ps h (fetch_init h ps)"
  by (simp add: fetch_inv_def fetch_init_def task_file_def gerr_ok_def)

lemma download_task_create_err:
  "fst (task_create cfg p h) = Some e \<Longrightarrow> download_task cfg p h = task_create cfg p h"
  by (cases "task_create cfg p h") (simp add: download_task_def)

lemma download_task_create_ok:
  "task_create cfg p h = (None, h1) \<Longrightarrow> download_task cfg p h = task_get cfg p h1"
  by (simp add: download_task_def)

lemma advance_ready:
  assumes inv: "fetch_inv cfg ps h0 s" and d: "distinct ps" and i: "i < length ps"
      and ph: "phases s ! i = Ready"
  shows "fetch_inv cfg ps h0 (advance cfg ps i s)"
proof -
  obtain r h' where tc: "task_create cfg (ps ! i) (fhost s) = (r, h')"
    by (cases "task_create cfg (ps ! i) (fhost s)")
  from inv have same: "same_except_files h0 (fhost s)" and g: "gerr_ok s"
    and len: "length (phases s) = length ps" by (simp_all add: fetch_inv_def)
  then have r0: "fst (task_create cfg (ps ! i) h0) = r"
    using task_create_same_result [OF same, of cfg "ps ! i"] tc by simp
  have same': "same_except_files h0 h'"
    using same task_create_eff(1) [OF tc] by (rule same_except_files_trans)
  have fr: "files h' = (if r = None then (files (fhost s))(pkg_file cfg (ps ! i) \<mapsto> []) else files (fhost s))"
    by (rule task_create_eff(3) [OF tc])
  show ?thesis
  proof (cases r)
    case None
    have "gerr_ok (s\<lparr>fhost := h', phases := (phases s)[i := Started]\<rparr>)"
      using g i len ph by (simp add: gerr_ok_start)
    with None inv i d same' fr r0 ph show ?thesis
      by (auto simp: advance_def tc fetch_inv_def nth_list_update task_file_def nth_eq_iff_index_eq)
  next
    case (Some e)
    have dt: "download_task cfg (ps ! i) h0 = task_create cfg (ps ! i) h0"
      using Some r0 by (simp add: download_task_create_err)
    have "files (snd (task_create cfg (ps ! i) h0)) = files h0"
      using Some r0 task_create_eff(3) [of cfg "ps ! i" h0] by (cases "task_create cfg (ps ! i) h0") auto
    moreover have "gerr_ok (s\<lparr>fhost := h', phases := (phases s)[i := Done (Some e)],
                              gerr := first_err (Some e) (gerr s)\<rparr>)"
      using g i len ph by (simp add: gerr_ok_finish)
    ultimately show ?thesis using Some inv i d same' fr r0 dt ph
      by (auto simp: advance_def tc fetch_inv_def nth_list_update task_file_def nth_eq_iff_index_eq)
  qed
qed

lemma advance_started:
  assumes inv: "fetch_inv cfg ps h0 s" and d: "distinct ps" and i: "i < length ps"
      and ph: "phases s ! i = Started"
  shows "fetch_inv cfg ps h0 (advance cfg ps i s)"
proof -
  obtain r h' where tg: "task_get cfg (ps ! i) (fhost s) = (r, h')"
    by (cases "task_get cfg (ps ! i) (fhost s)")
  from inv have same: "same_except_files h0 (fhost s)" and g: "gerr_ok s"
    and len: "length (phases s) = length ps" by (simp_all add: fetch_inv_def)
  from inv i ph obtain h1 where tc0: "task_create cfg (ps ! i) h0 = (None, h1)"
    by (cases "task_create cfg (ps ! i) h0") (auto simp: fetch_inv_def)
  have same1: "same_except_files h0 h1" by (rule task_create_eff(1) [OF tc0])
  have f1: "files h1 (pkg_file cfg (ps ! i)) = Some []"
    using task_create_eff(3) [OF tc0] by simp
  have fs: "files (fhost s) (pkg_file cfg (ps ! i)) = Some []"
    using inv i ph by (simp add: fetch_inv_def task_file_def)
  have dt: "download_task cfg (ps ! i) h0 = task_get cfg (ps ! i) h1"
    by (rule download_task_create_ok [OF tc0])
  obtain r1 h1' where tg1: "task_get cfg (ps ! i) h1 = (r1, h1')"
    by (cases "task_get cfg (ps ! i) h1")
  have "net h1 = net (fhost s)" using same same1 by (simp add: same_except_files_def)
  then have rr: "r1 = r" and ff: "files h1' (pkg_file cfg (ps ! i)) = files h' (pkg_file cfg (ps ! i))"
    using task_get_eff(2,3) [OF tg] task_get_eff(2,3) [OF tg1] f1 fs by (simp_all split: response.splits)
  have same': "same_except_files h0 h'"
    using same task_get_eff(1) [OF tg] by (rule same_except_files_trans)
  have fr: "\<forall>f. f \<noteq> pkg_file cfg (ps ! i) \<longrightarrow> files h' f = files (fhost s) f"
    using task_get_eff(3) [OF tg] by simp
  have "gerr_ok (s\<lparr>fhost := h', phases := (phases s)[i := Done r], gerr := first_err r (gerr s)\<rparr>)"
    using g i len ph by (simp add: gerr_ok_finish)
  moreover have "files (fhost (advance cfg ps i s)) = files h'" and "phases (advance cfg ps i s) = (phases s)[i := Done r]"
    by (simp_all add: advance_def ph tg)
  moreover have "\<forall>f. f \<notin> pkg_file cfg ` set ps \<longrightarrow> files h' f = files h0 f"
  proof (intro allI impI)
    fix f
    assume f: "f \<notin> pkg_file cfg ` set ps"
    then have "f \<noteq> pkg_file cfg (ps ! i)" using i by auto
    with f fr inv show "files h' f = files h0 f" by (simp add: fetch_inv_def)
  qed
  ultimately show ?thesis using inv i d same' ph dt tg1 rr ff fr
    by (auto simp: advance_def tg fetch_inv_def nth_list_update task_file_def nth_eq_iff_index_eq)
qed


lemma advance_inv:
  assumes "fetch_inv cfg ps h0 s" and "distinct ps" and "runnable s i"
  shows "fetch_inv cfg ps h0 (advance cfg ps i s)"
proof -
  from assms(1,3) have i: "i < length ps" by (simp add: fetch_inv_def runnable_def)
  show ?thesis
  proof (cases "phases s ! i")
    case Ready
    with assms(1,2) i show ?thesis by (rule advance_ready)
  next
    case Started
    with assms(1,2) i show ?thesis by (rule advance_started)
  next
    case (Done r)
    with assms(3) show ?thesis by (simp add: runnable_def)
  qed
qed

lemma fetch_steps_inv:
  assumes "(fetch_step cfg ps)\<^sup>*\<^sup>* (fetch_init h0 ps) s" and "distinct ps"
  shows "fetch_inv cfg ps h0 s"
  using assms(1)
proof (induction rule: rtranclp_induct)
  case base
  show ?case by (rule fetch_inv_init)
next
  case (step s t)
  from step.hyps(2) obtain i where "runnable s i" and "t = advance cfg ps i s"
    by (blast elim: fetch_stepE)
  with step.IH assms(2) show ?case by (simp add: advance_inv)
qed

lemma run_sched_steps: "(fetch_step cfg ps)\<^sup>*\<^sup>* s (run_sched cfg ps is s)"
proof (induction "is" arbitrary: s)
  case Nil
  show ?case by simp
next
  case (Cons i "is")
  show ?case
  proof (cases "runnable s i")
    case True
    then have "fetch_step cfg ps s (advance cfg ps i s)" by (rule fetch_step.move)
    moreover have "(fetch_step cfg ps)\<^sup>*\<^sup>* (advance cfg ps i s) (run_sched cfg ps is (advance cfg ps i s))"
      by (rule Cons.IH)
    ultimately show ?thesis using True by (simp add: converse_rtranclp_into_rtranclp)
  next
    case False
    then show ?thesis using Cons.IH [of s] by simp
  qed
qed

lemma run_sched_append:
  "run_sched cfg ps (xs @ ys) s = run_sched cfg ps ys (run_sched cfg ps xs s)"
  by (induction xs arbitrary: s) simp_all

subsection \<open>Progress: waiting finishes every task\<close>

definition is_done :: "phase \<Rightarrow> bool" where
  "is_done ph \<longleftrightarrow> (case ph of Done _ \<Rightarrow> True | _ \<Rightarrow> False)"

lemma is_done_simps [simp]:
  "\<not> is_done Ready" "\<not> is_done Started" "is_done (Done r)"
  by (simp_all add: is_done_def)

lemma advance_length [simp]: "length (phases (advance cfg ps i s)) = length (phases s)"
  by (simp add: advance_def split: phase.splits prod.splits option.splits)

lemma advance_other:
  "j \<noteq> i \<Longrightarrow> phases (advance cfg ps i s) ! j = phases s ! j"
  by (simp add: advance_def split: phase.splits prod.splits option.splits)

lemma advance_done_self:
  "is_done (phases s ! i) \<Longrightarrow> advance cfg ps i s = s"
  by (simp add: advance_def is_done_def split: phase.splits)

lemma advance_started_self:
  "i < length (phases s) \<Longrightarrow> phases s ! i = Started \<Longrightarrow> is_done (phases (advance cfg ps i s) ! i)"
  by (simp add: advance_def is_done_def split: prod.splits)

lemma advance_ready_self:
  "i < length (phases s) \<Longrightarrow> phases s ! i = Ready \<Longrightarrow>
     phases (advance cfg ps i s) ! i = Started \<or> is_done (phases (advance cfg ps i s) ! i)"
  by (simp add: advance_def is_done_def split: prod.splits option.splits)

lemma advance_keeps_done:
  "is_done (phases s ! j) \<Longrightarrow> is_done (phases (advance cfg ps i s) ! j)"
  by (cases "j = i") (simp_all add: advance_done_self advance_other)

lemma run_sched_length [simp]: "length (phases (run_sched cfg ps is s)) = length (phases s)"
  by (induction "is" arbitrary: s) simp_all

lemma run_sched_keeps_done:
  "is_done (phases s ! j) \<Longrightarrow> is_done (phases (run_sched cfg ps is s) ! j)"
  by (induction "is" arbitrary: s) (simp_all add: advance_keeps_done)

lemma runnable_iff: "runnable s i \<longleftrightarrow> i < length (phases s) \<and> \<not> is_done (phases s ! i)"
  by (simp add: runnable_def is_done_def split: phase.splits)

lemma two_steps_done:
  assumes "i < length (phases s)"
  shows "is_done (phases (run_sched cfg ps [i, i] s) ! i)"
proof (cases "phases s ! i")
  case Ready
  have step1: "phases (advance cfg ps i s) ! i = Started \<or> is_done (phases (advance cfg ps i s) ! i)"
    using assms Ready by (rule advance_ready_self)
  show ?thesis
  proof (cases "phases (advance cfg ps i s) ! i = Started")
    case True
    then have "is_done (phases (advance cfg ps i (advance cfg ps i s)) ! i)"
      using assms by (simp add: advance_started_self)
    with assms Ready True show ?thesis by (simp add: runnable_iff)
  next
    case False
    with step1 have "is_done (phases (advance cfg ps i s) ! i)" by simp
    with assms Ready show ?thesis by (simp add: runnable_iff)
  qed
next
  case Started
  then have "is_done (phases (advance cfg ps i s) ! i)"
    using assms by (simp add: advance_started_self)
  with assms Started show ?thesis by (simp add: runnable_iff)
next
  case (Done r)
  then show ?thesis by (simp add: runnable_iff)
qed

lemma run_sched_pairs_done:
  assumes "j < n" and "n \<le> length (phases s)"
  shows "is_done (phases (run_sched cfg ps (concat (map (\<lambda>i. [i, i]) [0..<n])) s) ! j)"
  using assms
proof (induction n)
  case 0
  then show ?case by simp
next
  case (Suc n)
  let ?s = "run_sched cfg ps (concat (map (\<lambda>i. [i, i]) [0..<n])) s"
  have len: "n < length (phases ?s)" using Suc.prems by simp
  show ?case
  proof (cases "j < n")
    case True
    with Suc have "is_done (phases ?s ! j)" by simp
    then show ?thesis by (simp add: run_sched_append run_sched_keeps_done del: run_sched.simps(2))
  next
    case False
    with Suc.prems have "j = n" by simp
    with two_steps_done [OF len] show ?thesis by (simp add: run_sched_append del: run_sched.simps(2))
  qed
qed

lemma wait_all_finished:
  assumes "length (phases s) = length ps"
  shows "finished (wait_all cfg ps s)"
proof -
  have "\<forall>j<length ps. is_done (phases (wait_all cfg ps s) ! j)"
    using assms by (simp add: wait_all_def run_sched_pairs_done)
  then show ?thesis
    using assms by (auto simp: finished_def is_done_def wait_all_def in_set_conv_nth split: phase.splits)
qed

end
