(* ===== verification/Fetch.thy ===== *)
theory Fetch
  imports Fetch_Tasks
begin

text \<open>
  \<open>DownloadBaseSystem\<close> of \<open>src/build.go\<close>: create the cache directory if needed, then
  launch one task of \<open>Fetch_Tasks\<close> per package whose cache file is missing and wait for
  all of them. The scheduler's behaviour is a parameter (a list of task indices). Results:
  the fan-out refines running each task alone, succeeds exactly when every task does,
  returns one task's error, and does nothing when the cache is complete.
\<close>

subsection \<open>DownloadBaseSystem\<close>

text \<open>\<open>if !utils.Exists("/tmp/" + release) { os.Mkdir(...) }\<close>\<close>

definition ensure_cache_dir :: "builder \<Rightarrow> host act" where
  "ensure_cache_dir b h =
     (if \<not> exists h (cache_dir (bopts b)) then os_mkdir (cache_dir (bopts b)) h else (None, h))"

text \<open>The packages the loop launches a goroutine for: those whose cache file is missing.\<close>

definition missing :: "opts \<Rightarrow> host \<Rightarrow> string list" where
  "missing cfg h = filter (\<lambda>p. \<not> exists h (pkg_file cfg p)) basePackages"

text \<open>The loop of \<open>g.Go\<close> calls and \<open>g.Wait()\<close>, under the scheduler's choices \<open>sched\<close>.\<close>

definition fetch_all :: "builder \<Rightarrow> nat list \<Rightarrow> host act" where
  "fetch_all b sched h =
     (let ps = missing (bopts b) h;
          s = wait_all (bopts b) ps (run_sched (bopts b) ps sched (fetch_init h ps))
      in (gerr s, fhost s))"

definition DownloadBaseSystem :: "builder \<Rightarrow> nat list \<Rightarrow> host act" where
  "DownloadBaseSystem b sched = then_go (ensure_cache_dir b) (fetch_all b sched)"

subsection \<open>The fan-out refines running each task alone\<close>

text \<open>
  The abstract specification of the fetch: each launched package's cache file ends up as
  that package's download alone would leave it, every other file is untouched.
\<close>

definition fetch_spec_files :: "opts \<Rightarrow> string list \<Rightarrow> host \<Rightarrow> path \<Rightarrow> string option" where
  "fetch_spec_files cfg ps h0 f =
     (case find (\<lambda>p. pkg_file cfg p = f) ps of
        None \<Rightarrow> files h0 f
      | Some p \<Rightarrow> files (snd (download_task cfg p h0)) f)"

lemma finished_phase:
  assumes fin: "finished s" and i: "i < length (phases s)"
  shows "\<exists>r. phases s ! i = Done r"
proof -
  from i have "phases s ! i \<in> set (phases s)" by (rule nth_mem)
  with fin have "case phases s ! i of Done _ \<Rightarrow> True | _ \<Rightarrow> False"
    unfolding finished_def by blast
  then show ?thesis by (cases "phases s ! i") auto
qed

lemma finished_files:
  assumes inv: "fetch_inv cfg ps h0 s" and fin: "finished s"
  shows "files (fhost s) = fetch_spec_files cfg ps h0"
proof
  fix f
  show "files (fhost s) f = fetch_spec_files cfg ps h0 f"
  proof (cases "find (\<lambda>p. pkg_file cfg p = f) ps")
    case None
    then have "f \<notin> pkg_file cfg ` set ps" by (auto simp: find_None_iff)
    with inv None show ?thesis by (simp add: fetch_inv_def fetch_spec_files_def)
  next
    case (Some p)
    then obtain i where i: "i < length ps" and pi: "ps ! i = p" and f: "pkg_file cfg p = f"
      by (auto simp: find_Some_iff)
    from inv i have "i < length (phases s)" by (simp add: fetch_inv_def)
    with fin obtain r where "phases s ! i = Done r" by (blast dest: finished_phase)
    moreover have "files (fhost s) (pkg_file cfg (ps ! i)) = task_file cfg (ps ! i) h0 (phases s ! i)"
      using inv i by (simp add: fetch_inv_def)
    ultimately show ?thesis using pi f Some by (simp add: fetch_spec_files_def task_file_def)
  qed
qed

lemma finished_gerr:
  assumes inv: "fetch_inv cfg ps h0 s" and fin: "finished s"
  shows "(gerr s = None) = (\<forall>p\<in>set ps. fst (download_task cfg p h0) = None)"
    and "gerr s = Some e \<Longrightarrow> \<exists>p\<in>set ps. fst (download_task cfg p h0) = Some e"
proof -
  have len: "length (phases s) = length ps" and g: "gerr_ok s"
    and dn: "\<forall>i<length ps. \<forall>r. phases s ! i = Done r \<longrightarrow> r = fst (download_task cfg (ps ! i) h0)"
    using inv by (simp_all add: fetch_inv_def)
  have res: "\<And>i. i < length ps \<Longrightarrow> phases s ! i = Done (fst (download_task cfg (ps ! i) h0))"
    using fin len dn finished_phase by fastforce
  show "(gerr s = None) = (\<forall>p\<in>set ps. fst (download_task cfg p h0) = None)"
  proof
    assume "gerr s = None"
    with g have "\<forall>e. Done (Some e) \<notin> set (phases s)" by (simp add: gerr_ok_def)
    with res len show "\<forall>p\<in>set ps. fst (download_task cfg p h0) = None"
      by (metis in_set_conv_nth not_None_eq nth_mem)
  next
    assume all: "\<forall>p\<in>set ps. fst (download_task cfg p h0) = None"
    show "gerr s = None"
    proof (rule ccontr)
      assume "gerr s \<noteq> None"
      then obtain e where "gerr s = Some e" by blast
      with g have "Done (Some e) \<in> set (phases s)" by (simp add: gerr_ok_def)
      then obtain i where "i < length ps" and "phases s ! i = Done (Some e)"
        using len by (auto simp: in_set_conv_nth)
      with res all show False by (metis nth_mem option.distinct(1) phase.inject)
    qed
  qed
  assume "gerr s = Some e"
  with g have "Done (Some e) \<in> set (phases s)" by (simp add: gerr_ok_def)
  then obtain i where "i < length ps" and "phases s ! i = Done (Some e)"
    using len by (auto simp: in_set_conv_nth)
  with res show "\<exists>p\<in>set ps. fst (download_task cfg p h0) = Some e"
    by (metis nth_mem phase.inject)
qed

lemma distinct_missing: "distinct (missing cfg h)"
  by (simp add: missing_def basePackages_def)

lemma fetch_all_state:
  "\<exists>s. fetch_inv (bopts b) (missing (bopts b) h) h s \<and> finished s \<and>
       fetch_all b sched h = (gerr s, fhost s)"
proof -
  let ?cfg = "bopts b" and ?ps = "missing (bopts b) h"
  let ?s1 = "run_sched ?cfg ?ps sched (fetch_init h ?ps)"
  let ?s = "wait_all ?cfg ?ps ?s1"
  have "(fetch_step ?cfg ?ps)\<^sup>*\<^sup>* (fetch_init h ?ps) ?s1" by (rule run_sched_steps)
  moreover have "(fetch_step ?cfg ?ps)\<^sup>*\<^sup>* ?s1 ?s" unfolding wait_all_def by (rule run_sched_steps)
  ultimately have "fetch_inv ?cfg ?ps h ?s"
    using distinct_missing by (blast intro: fetch_steps_inv rtranclp_trans)
  moreover have "finished ?s"
    by (rule wait_all_finished) (simp add: fetch_init_def)
  ultimately show ?thesis by (auto simp: fetch_all_def Let_def)
qed

text \<open>
  C4. Whatever the scheduler does, the files after the download fan-out are those of the specification: each launched package's cache file is what its own download alone leaves there, every other file is unchanged.
\<close>

theorem fetch_all_files:
  "files (snd (fetch_all b sched h)) = fetch_spec_files (bopts b) (missing (bopts b) h) h"
  using fetch_all_state [of b h sched] finished_files by force

lemmas fetch_eval [eval_simps] =
  basePackages_def sysDownloadURL_def cache_dir_def pkg_file_def task_create_def task_get_def
  download_task_def first_err_def fetch_init_def runnable_def advance_def wait_all_def
  ensure_cache_dir_def missing_def fetch_all_def DownloadBaseSystem_def

text \<open>
  C5. The fan-out, under any schedule, succeeds exactly when the download of every missing package succeeds on its own.
\<close>

theorem fetch_all_ok_iff:
  "(fst (fetch_all b sched h) = None) \<longleftrightarrow>
     (\<forall>p\<in>set (missing (bopts b) h). fst (download_task (bopts b) p h) = None)"
  using fetch_all_state [of b h sched] finished_gerr(1) by force

theorem fetch_all_ok_iff_witness:
  "fst (fetch_all \<lparr>wrap = Fake, bopts = demo_cfg\<rparr> [0, 0]
          (demo_host\<lparr>files := (files demo_host)(''/tmp/13/base.txz'' := None)\<rparr>)) = None"
proof -
  let ?h = "demo_host\<lparr>files := (files demo_host)(''/tmp/13/base.txz'' := None)\<rparr>"
  have "missing demo_cfg ?h = [''base.txz'']" by (simp add: eval_simps)
  moreover have "fst (download_task demo_cfg ''base.txz'' ?h) = None" by (simp add: eval_simps Let_def)
  ultimately show ?thesis using fetch_all_ok_iff [of "\<lparr>wrap = Fake, bopts = demo_cfg\<rparr>" "[0, 0]" ?h] by simp
qed

text \<open>
  C6. An error returned by the fan-out is the error of one of the launched downloads (errgroup keeps one task's error, not a new one).
\<close>

theorem fetch_all_err:
  "fst (fetch_all b sched h) = Some e \<Longrightarrow>
     \<exists>p\<in>set (missing (bopts b) h). fst (download_task (bopts b) p h) = Some e"
  using fetch_all_state [of b h sched] finished_gerr(2) by force

theorem fetch_all_err_witness:
  "fst (fetch_all \<lparr>wrap = Fake, bopts = demo_cfg\<rparr> [1, 1]
          (demo_host\<lparr>files := (files demo_host)(''/tmp/13/base.txz'' := None, ''/tmp/13/ports.txz'' := None),
                     net := (\<lambda>_. RespFail)\<rparr>))
     = Some (ErrHttp ''http://ftp.freebsd.org/pub/FreeBSD/releases/amd64/amd64/13/ports.txz'')
   \<and> (\<exists>p\<in>{''base.txz'', ''ports.txz''}.
        fst (download_task demo_cfg p
          (demo_host\<lparr>files := (files demo_host)(''/tmp/13/base.txz'' := None, ''/tmp/13/ports.txz'' := None),
                     net := (\<lambda>_. RespFail)\<rparr>))
        = Some (ErrHttp ''http://ftp.freebsd.org/pub/FreeBSD/releases/amd64/amd64/13/ports.txz''))"
proof -
  let ?h = "demo_host\<lparr>files := (files demo_host)(''/tmp/13/base.txz'' := None, ''/tmp/13/ports.txz'' := None),
                     net := (\<lambda>_. RespFail)\<rparr>"
  have r: "fst (fetch_all \<lparr>wrap = Fake, bopts = demo_cfg\<rparr> [1, 1] ?h)
     = Some (ErrHttp ''http://ftp.freebsd.org/pub/FreeBSD/releases/amd64/amd64/13/ports.txz'')"
    by (simp add: eval_simps Let_def)
  have m: "missing demo_cfg ?h = [''base.txz'', ''ports.txz'']" by (simp add: eval_simps)
  from fetch_all_err [OF r] m r show ?thesis by simp
qed

lemma fetch_all_frame: "same_except_files h (snd (fetch_all b sched h))"
  using fetch_all_state [of b h sched] by (auto simp: fetch_inv_def)

text \<open>
  C21. A download task whose file can be created ignores the HTTP status code and leaves behind the empty file on a transport error or the partial body on a failed copy.
\<close>

theorem download_task_created:
  assumes "parent_dir (pkg_file cfg p) \<in> dirs h" and "pkg_file cfg p \<notin> dirs h"
  shows "fst (download_task cfg p h) =
           (case net h (sysDownloadURL (Release cfg) p) of
              RespFail \<Rightarrow> Some (ErrHttp (sysDownloadURL (Release cfg) p))
            | Resp _ _ \<Rightarrow> None
            | RespCut _ \<Rightarrow> Some (ErrCopy (sysDownloadURL (Release cfg) p)))
         \<and> files (snd (download_task cfg p h)) =
           (files h)(pkg_file cfg p :=
              case net h (sysDownloadURL (Release cfg) p) of
                RespFail \<Rightarrow> Some []
              | Resp _ body \<Rightarrow> Some body
              | RespCut part \<Rightarrow> Some part)"
  using assms
  by (auto simp: download_task_def task_create_def task_get_def os_create_def put_file_def log_def
                 Let_def split: response.splits)

theorem download_task_created_witness:
  "fst (download_task demo_cfg ''base.txz'' (demo_host\<lparr>net := (\<lambda>_. Resp 404 ''not found'')\<rparr>)) = None
   \<and> files (snd (download_task demo_cfg ''base.txz'' (demo_host\<lparr>net := (\<lambda>_. Resp 404 ''not found'')\<rparr>)))
       ''/tmp/13/base.txz'' = Some ''not found''"
proof -
  let ?h = "demo_host\<lparr>net := (\<lambda>_. Resp 404 ''not found'')\<rparr>"
  have a: "parent_dir (pkg_file demo_cfg ''base.txz'') \<in> dirs ?h" and b: "pkg_file demo_cfg ''base.txz'' \<notin> dirs ?h"
    by (simp_all add: eval_simps)
  from download_task_created [OF a b] show ?thesis by (simp add: eval_simps)
qed

lemma download_task_not_created:
  assumes "\<not> (parent_dir (pkg_file cfg p) \<in> dirs h \<and> pkg_file cfg p \<notin> dirs h)"
  shows "download_task cfg p h = (Some (ErrFs ''open'' (pkg_file cfg p)), log (EvCreate (pkg_file cfg p)) h)"
  using assms by (simp add: download_task_def task_create_def os_create_def Let_def)

lemma run_sched_no_tasks: "phases s = [] \<Longrightarrow> run_sched cfg ps is s = s"
  by (induction "is") (simp_all add: runnable_def)

lemma missing_Nil_iff: "missing cfg h = [] \<longleftrightarrow> (\<forall>p\<in>set basePackages. exists h (pkg_file cfg p))"
  by (simp add: missing_def filter_empty_conv)

text \<open>
  C7. When the cache directory and all three archives already exist, DownloadBaseSystem launches no task, changes nothing and succeeds, for any schedule.
\<close>

theorem DownloadBaseSystem_cached:
  assumes "exists h (cache_dir (bopts b))"
      and "\<forall>p\<in>set basePackages. exists h (pkg_file (bopts b) p)"
  shows "DownloadBaseSystem b sched h = (None, h)"
proof -
  have "missing (bopts b) h = []" using assms(2) by (simp add: missing_Nil_iff)
  then have "fetch_all b sched h = (None, h)"
    by (simp add: fetch_all_def wait_all_def fetch_init_def run_sched_no_tasks)
  with assms(1) show ?thesis by (simp add: DownloadBaseSystem_def ensure_cache_dir_def)
qed

theorem DownloadBaseSystem_cached_witness:
  "DownloadBaseSystem \<lparr>wrap = Fake, bopts = demo_cfg\<rparr> [2, 0, 1] demo_host = (None, demo_host)"
proof -
  have "exists demo_host (cache_dir demo_cfg)" by (simp add: eval_simps)
  moreover have "\<forall>p\<in>set basePackages. exists demo_host (pkg_file demo_cfg p)" by (simp add: eval_simps)
  ultimately show ?thesis
    using DownloadBaseSystem_cached [where b = "\<lparr>wrap = Fake, bopts = demo_cfg\<rparr>" and h = demo_host] by simp
qed

text \<open>
  C35. When the cache directory \<open>/tmp/R\<close> does not exist and cannot be created because
  its parent is missing, \<open>DownloadBaseSystem\<close> returns the \<open>os.Mkdir\<close> error before
  launching any download, whatever the schedule: the only effect is the attempted mkdir.
\<close>

theorem DownloadBaseSystem_no_cache_dir:
  assumes "\<not> exists h (cache_dir (bopts b))" and "parent_dir (cache_dir (bopts b)) \<notin> dirs h"
  shows "DownloadBaseSystem b sched h
           = (Some (ErrFs ''mkdir'' (cache_dir (bopts b))), log (EvMkdir (cache_dir (bopts b))) h)"
  using assms by (simp add: DownloadBaseSystem_def ensure_cache_dir_def os_mkdir_def Let_def)

theorem DownloadBaseSystem_no_cache_dir_witness:
  "DownloadBaseSystem \<lparr>wrap = Fake, bopts = demo_cfg\<rparr> [0, 1]
      (demo_host\<lparr>dirs := {''/''}, files := Map.empty\<rparr>)
   = (Some (ErrFs ''mkdir'' ''/tmp/13''), log (EvMkdir ''/tmp/13'') (demo_host\<lparr>dirs := {''/''}, files := Map.empty\<rparr>))"
proof -
  let ?h = "demo_host\<lparr>dirs := {''/''}, files := Map.empty\<rparr>" and ?b = "\<lparr>wrap = Fake, bopts = demo_cfg\<rparr>"
  have a: "\<not> exists ?h (cache_dir (bopts ?b))" and p: "parent_dir (cache_dir (bopts ?b)) \<notin> dirs ?h"
    by (simp_all add: eval_simps)
  have c: "cache_dir (bopts ?b) = ''/tmp/13''" by (simp add: eval_simps)
  have "DownloadBaseSystem ?b [0, 1] ?h
          = (Some (ErrFs ''mkdir'' (cache_dir (bopts ?b))), log (EvMkdir (cache_dir (bopts ?b))) ?h)"
    by (rule DownloadBaseSystem_no_cache_dir [OF a p])
  then show ?thesis by (simp only: c)
qed

end
