(* ===== verification/Extract.thy ===== *)
theory Extract
  imports Fetch
begin

text \<open>
  The archive extractor, \<open>ExtractBasePkgs\<close> of \<open>src/build.go\<close>: the packages in
  their fixed order, each unpacked by \<open>archiver.TarXZ.Open\<close> from its cache file into
  \<open>BaseDir/releases/Release\<close>, stopping at the first failure. The archiver is an
  external collaborator (\<open>mholt/archiver\<close>'s \<open>TarXZ.Open\<close>), modelled from the spec as
  \<open>tar_open\<close>: it reads the source file and writes the entries in order, creating the
  directories each entry needs (so an empty archive creates nothing); a decoding failure
  is reported after the entries before it have been written. Result: a failing run
  is exactly the successful prefix followed by the failing archive's open; nothing
  later runs and nothing is undone.
\<close>

definition extract_entry :: "path \<Rightarrow> tar_entry \<Rightarrow> host \<Rightarrow> host" where
  "extract_entry dst e h =
     (case e of
        TDir p \<Rightarrow> mkdir_all (dst @ ''/'' @ p) h
      | TFile p c \<Rightarrow> put_file (dst @ ''/'' @ p) c (mkdir_all (parent_dir (dst @ ''/'' @ p)) h))"

definition tar_open :: "path \<Rightarrow> path \<Rightarrow> host act" where
  "tar_open src dst h =
     (let h' = log (EvExtract src dst) h in
      case files h src of
        None \<Rightarrow> (Some (ErrFs ''open'' src), h')
      | Some c \<Rightarrow>
          (let (es, clean) = tar h c;
               h'' = fold (extract_entry dst) es h'
           in (if clean then None else Some (ErrArchive src), h'')))"

definition release_dir :: "opts \<Rightarrow> path" where
  "release_dir cfg = BaseDir cfg @ ''/releases/'' @ Release cfg"

text \<open>The loop \<open>for _, p := range basePackages { if err := ...; err != nil { return err } }\<close>.\<close>

fun extract_each :: "opts \<Rightarrow> path \<Rightarrow> string list \<Rightarrow> host act" where
  "extract_each cfg full [] = ok"
| "extract_each cfg full (p # ps) =
     then_go (tar_open (''/tmp/'' @ Release cfg @ ''/'' @ p) full) (extract_each cfg full ps)"

definition ExtractBasePkgs :: "builder \<Rightarrow> host act" where
  "ExtractBasePkgs b = extract_each (bopts b) (release_dir (bopts b)) basePackages"

subsection \<open>Fail-fast order and no rollback\<close>

lemma extract_entry_events [simp]: "events (extract_entry dst e h) = events h"
  by (simp add: extract_entry_def mkdir_all_def put_file_def split: tar_entry.splits)

lemma fold_extract_events [simp]: "events (fold (extract_entry dst) es h) = events h"
  by (induction es arbitrary: h) simp_all

lemma tar_open_events: "events (snd (tar_open src dst h)) = events h @ [EvExtract src dst]"
  by (simp add: tar_open_def log_def mkdir_all_def Let_def split: option.splits prod.splits)

lemma extract_each_prefix:
  assumes "extract_each cfg full ps h = (r, h')"
  shows "\<exists>n\<le>length ps.
           events h' = events h @ map (\<lambda>p. EvExtract (''/tmp/'' @ Release cfg @ ''/'' @ p) full) (take n ps)
           \<and> ((r = None \<and> n = length ps) \<or> (r \<noteq> None \<and> 0 < n))"
  using assms
proof (induction ps arbitrary: h)
  case Nil
  then show ?case by (simp add: ok_def)
next
  case (Cons p ps)
  let ?src = "''/tmp/'' @ Release cfg @ ''/'' @ p"
  obtain r1 h1 where t: "tar_open ?src full h = (r1, h1)" by (cases "tar_open ?src full h")
  have ev1: "events h1 = events h @ [EvExtract ?src full]"
    using tar_open_events [of ?src full h] t by simp
  show ?case
  proof (cases r1)
    case (Some e)
    with Cons.prems t ev1 show ?thesis by (intro exI [of _ 1]) auto
  next
    case None
    with Cons.prems t have "extract_each cfg full ps h1 = (r, h')" by simp
    from Cons.IH [OF this] obtain n where "n \<le> length ps"
      and "events h' = events h1 @ map (\<lambda>p. EvExtract (''/tmp/'' @ Release cfg @ ''/'' @ p) full) (take n ps)"
      and "(r = None \<and> n = length ps) \<or> (r \<noteq> None \<and> 0 < n)" by blast
    with ev1 show ?thesis by (intro exI [of _ "Suc n"]) auto
  qed
qed

text \<open>Extraction touches files and directories only, never the ZFS state.\<close>

lemma extract_entry_zfs [simp]:
  "datasets (extract_entry dst e h) = datasets h" "snapshots (extract_entry dst e h) = snapshots h"
  by (simp_all add: extract_entry_def mkdir_all_def put_file_def split: tar_entry.splits)

lemma fold_extract_zfs [simp]:
  "datasets (fold (extract_entry dst) es h) = datasets h"
  "snapshots (fold (extract_entry dst) es h) = snapshots h"
  by (induction es arbitrary: h) simp_all

lemma tar_open_grows: "zfs_grows h (snd (tar_open src dst h))"
  by (simp add: tar_open_def zfs_grows_def log_def mkdir_all_def Let_def split: option.splits prod.splits)

lemma extract_each_grows: "zfs_grows h (snd (extract_each cfg full ps h))"
proof (induction ps arbitrary: h)
  case Nil
  then show ?case by (simp add: ok_def zfs_grows_def)
next
  case (Cons p ps)
  show ?case
    by (simp only: extract_each.simps, rule then_go_grows) (simp_all add: tar_open_grows Cons.IH)
qed

lemmas extract_eval [eval_simps] = extract_entry_def tar_open_def release_dir_def ExtractBasePkgs_def

text \<open>
  A failing run of the loop: the archives before the failing one all opened without error,
  and the error and the final host are exactly those of opening the failing archive after
  them. Nothing runs after it and nothing is undone.
\<close>

lemma extract_each_fail:
  assumes "extract_each cfg full ps h = (Some e, h')"
  shows "\<exists>pre p post h1. ps = pre @ p # post \<and> extract_each cfg full pre h = (None, h1)
           \<and> tar_open (''/tmp/'' @ Release cfg @ ''/'' @ p) full h1 = (Some e, h')"
  using assms
proof (induction ps arbitrary: h)
  case Nil
  then show ?case by (simp add: ok_def)
next
  case (Cons q qs)
  obtain r1 h1 where t: "tar_open (''/tmp/'' @ Release cfg @ ''/'' @ q) full h = (r1, h1)"
    by (cases "tar_open (''/tmp/'' @ Release cfg @ ''/'' @ q) full h")
  show ?case
  proof (cases r1)
    case (Some e1)
    with Cons.prems t have "tar_open (''/tmp/'' @ Release cfg @ ''/'' @ q) full h = (Some e, h')" by simp
    then show ?thesis by (intro exI [of _ "[]"] exI [of _ q] exI [of _ qs] exI [of _ h]) (simp add: ok_def)
  next
    case None
    with Cons.prems t have "extract_each cfg full qs h1 = (Some e, h')" by simp
    from Cons.IH [OF this] obtain pre p post h2 where "qs = pre @ p # post"
      and "extract_each cfg full pre h1 = (None, h2)"
      and "tar_open (''/tmp/'' @ Release cfg @ ''/'' @ p) full h2 = (Some e, h')" by blast
    with t None show ?thesis by (intro exI [of _ "q # pre"] exI [of _ p] exI [of _ post] exI [of _ h2]) simp
  qed
qed

text \<open>
  C16. ExtractBasePkgs stops at the first failing archive and undoes nothing: when it fails,
  the packages before the failing one were all extracted without error, and its error and
  final host are exactly those of opening the failing archive after them; no later archive
  is opened.
\<close>

theorem ExtractBasePkgs_fail_fast:
  assumes "ExtractBasePkgs b h = (Some e, h')"
  shows "\<exists>pre p post h1. basePackages = pre @ p # post
           \<and> extract_each (bopts b) (release_dir (bopts b)) pre h = (None, h1)
           \<and> tar_open (pkg_file (bopts b) p) (release_dir (bopts b)) h1 = (Some e, h')"
  using extract_each_fail [OF assms [unfolded ExtractBasePkgs_def]] by (simp add: pkg_file_def)

theorem ExtractBasePkgs_fail_fast_witness:
  "fst (ExtractBasePkgs \<lparr>wrap = Fake, bopts = demo_cfg\<rparr>
          (demo_host\<lparr>files := (files demo_host)(''/tmp/13/lib32.txz'' := None)\<rparr>)) =
     Some (ErrFs ''open'' ''/tmp/13/lib32.txz'')
   \<and> (\<exists>pre p post h1. basePackages = pre @ p # post
        \<and> extract_each demo_cfg ''/j/releases/13'' pre
              (demo_host\<lparr>files := (files demo_host)(''/tmp/13/lib32.txz'' := None)\<rparr>) = (None, h1)
        \<and> tar_open (pkg_file demo_cfg p) ''/j/releases/13'' h1 =
              (Some (ErrFs ''open'' ''/tmp/13/lib32.txz''),
               snd (ExtractBasePkgs \<lparr>wrap = Fake, bopts = demo_cfg\<rparr>
                      (demo_host\<lparr>files := (files demo_host)(''/tmp/13/lib32.txz'' := None)\<rparr>))))"
proof -
  let ?b = "\<lparr>wrap = Fake, bopts = demo_cfg\<rparr>"
  let ?h = "demo_host\<lparr>files := (files demo_host)(''/tmp/13/lib32.txz'' := None)\<rparr>"
  have e: "fst (ExtractBasePkgs ?b ?h) = Some (ErrFs ''open'' ''/tmp/13/lib32.txz'')"
    by (simp add: eval_simps Let_def)
  then have r: "ExtractBasePkgs ?b ?h = (Some (ErrFs ''open'' ''/tmp/13/lib32.txz''), snd (ExtractBasePkgs ?b ?h))"
    by (metis prod.collapse)
  have d: "release_dir demo_cfg = ''/j/releases/13''" by (simp add: eval_simps)
  from ExtractBasePkgs_fail_fast [OF r]
  have "\<exists>pre p post h1. basePackages = pre @ p # post
          \<and> extract_each demo_cfg ''/j/releases/13'' pre ?h = (None, h1)
          \<and> tar_open (pkg_file demo_cfg p) ''/j/releases/13'' h1 =
                (Some (ErrFs ''open'' ''/tmp/13/lib32.txz''), snd (ExtractBasePkgs ?b ?h))"
    by (simp only: builder.select_convs d)
  with e show ?thesis by (rule conjI)
qed

end
