(* ===== verification/Patch.thy ===== *)
theory Patch
  imports Extract
begin

text \<open>
  The patcher, \<open>UpdateBaseJail\<close> of \<open>src/build.go\<close>: one \<open>exec.Command\<close> of
  \<open>env UNAME_r=R freebsd-update ...\<close> started and waited for, its exit status surfaced
  as the error. The \<open>env\<close> slice the function builds is never given to the command
  (it has no effect); the override reaches the tool through the \<open>env\<close> program.
  Results: the command line, and in it that the argument of \<open>-b\<close> is the flag
  \<open>--not-running-from-cron\<close>, while the tree path follows as a stray operand.
\<close>

definition update_cmd :: "opts \<Rightarrow> argv" where
  "update_cmd cfg =
     [''env'', ''UNAME_r='' @ Release cfg, ''freebsd-update'', ''-b'', ''--not-running-from-cron'',
      BaseDir cfg @ ''/releases/'' @ Release cfg, ''fetch'', ''install'']"

definition UpdateBaseJail :: "builder \<Rightarrow> host act" where
  "UpdateBaseJail b h = exec_run (update_cmd (bopts b)) (log (EvExec (update_cmd (bopts b))) h)"

text \<open>
  C18. UpdateBaseJail runs the freebsd-update command line once and surfaces the external tool's exit status verbatim: success on 0, otherwise an exit error with that status; the only change to the host is the logged command.
\<close>

theorem UpdateBaseJail_result:
  "UpdateBaseJail b h =
     (if tool h (update_cmd (bopts b)) = 0 then None
      else Some (ErrExit (update_cmd (bopts b)) (tool h (update_cmd (bopts b)))),
      log (EvExec (update_cmd (bopts b))) h)"
  by (simp add: UpdateBaseJail_def exec_run_def run_prog_def update_cmd_def log_def)

lemma UpdateBaseJail_state:
  "snd (UpdateBaseJail b h) = log (EvExec (update_cmd (bopts b))) h"
  by (simp add: UpdateBaseJail_def exec_run_def run_prog_def update_cmd_def log_def)

text \<open>The value \<open>freebsd-update\<close> receives for its \<open>-b\<close> (base directory) option.\<close>

definition option_arg :: "string \<Rightarrow> argv \<Rightarrow> string option" where
  "option_arg opt cmd = (case dropWhile (\<lambda>a. a \<noteq> opt) cmd of _ # v # _ \<Rightarrow> Some v | _ \<Rightarrow> None)"

text \<open>
  C17. The freebsd-update command line gives -b the value --not-running-from-cron, not the release tree path.
\<close>

theorem update_cmd_base_option:
  "option_arg ''-b'' (update_cmd cfg) = Some ''--not-running-from-cron''
   \<and> option_arg ''-b'' (update_cmd cfg) \<noteq> Some (BaseDir cfg @ ''/releases/'' @ Release cfg)"
proof -
  have "''UNAME_r='' @ Release cfg \<noteq> ''-b''" by simp
  moreover have "BaseDir cfg @ ''/releases/'' @ Release cfg \<noteq> ''--not-running-from-cron''"
  proof
    have "CHR ''/'' \<in> set (BaseDir cfg @ ''/releases/'' @ Release cfg)" by simp
    moreover assume "BaseDir cfg @ ''/releases/'' @ Release cfg = ''--not-running-from-cron''"
    ultimately have "CHR ''/'' \<in> set ''--not-running-from-cron''" by (simp only:)
    then show False by simp
  qed
  ultimately show ?thesis by (auto simp: option_arg_def update_cmd_def)
qed

lemmas patch_eval [eval_simps] = update_cmd_def UpdateBaseJail_def

end
