(* ===== verification/Sysconf.thy ===== *)
theory Sysconf
  imports Patch
begin

text \<open>
  The environment configurator of \<open>src/build.go\<close>: \<open>SetLocaltime\<close>,
  \<open>SetResolvConf\<close>, \<open>SetBaseJailConf\<close>, \<open>BaseJailSysConf\<close> and
  \<open>ConfigureJailHostname\<close>. A Go slice is \<open>nil\<close> or a list: the argument of
  \<open>SetResolvConf\<close> is \<open>string list option\<close>, \<open>None\<close> for \<open>nil\<close>.
  Files are written through descriptors (\<open>file_write\<close>) whose access mode comes from
  the call that opened them. Write errors on a file opened by \<open>os.Create\<close> are not
  modelled (the code ignores them in the nameserver loop). Results: the resolver file
  holds exactly the nameserver lines in order, or a byte copy of the host's file for
  \<open>nil\<close>; \<open>SetBaseJailConf\<close> passes an empty non-nil slice and so writes an empty
  file; \<open>ConfigureJailHostname\<close> never succeeds and changes no file.
\<close>

text \<open>
  \<open>in, err := os.Open(src); ...; out, err := os.Create(dst); ...; _, err = io.Copy(out, in)\<close>:
  the copy reads \<open>in\<close> after \<open>out\<close> was created.
\<close>

definition copy_file :: "path \<Rightarrow> path \<Rightarrow> host act" where
  "copy_file src dst h =
     (case os_open src h of
        (Inl e, h1) \<Rightarrow> (Some e, h1)
      | (Inr i, h1) \<Rightarrow>
          (case os_create_file dst h1 of
             (Inl e, h2) \<Rightarrow> (Some e, h2)
           | (Inr out, h2) \<Rightarrow> file_write out (file_read i h2) h2))"

definition SetLocaltime :: "builder \<Rightarrow> host act" where
  "SetLocaltime b = copy_file ''/etc/localtime'' (release_dir (bopts b) @ ''/etc/localtime'')"

definition resolv_path :: "opts \<Rightarrow> path" where
  "resolv_path cfg = BaseDir cfg @ ''/releases/'' @ Release cfg @ ''/etc/resolv.conf''"

text \<open>
  The loop \<open>for _, i := range nameservers { out.Write([]byte("nameserver " + i + "\\n")) }\<close>;
  the result of each \<open>Write\<close> is discarded.
\<close>

primrec write_nameservers :: "os_file \<Rightarrow> string list \<Rightarrow> host \<Rightarrow> host" where
  "write_nameservers out [] h = h"
| "write_nameservers out (i # is) h =
     write_nameservers out is (snd (file_write out (''nameserver '' @ i @ [CHR 0x0A]) h))"

definition SetResolvConf :: "builder \<Rightarrow> string list option \<Rightarrow> host act" where
  "SetResolvConf b nameservers h =
     (case nameservers of
        Some ns \<Rightarrow>
          (case os_create_file (resolv_path (bopts b)) h of
             (Inl e, h1) \<Rightarrow> (Some e, h1)
           | (Inr out, h1) \<Rightarrow> (None, write_nameservers out ns h1))
      | None \<Rightarrow> copy_file ''/etc/resolv.conf'' (resolv_path (bopts b)) h)"

text \<open>\<open>b.SetResolvConf([]string{})\<close>: an empty slice, which is not \<open>nil\<close>.\<close>

definition SetBaseJailConf :: "builder \<Rightarrow> host act" where
  "SetBaseJailConf b = SetResolvConf b (Some [])"

definition BaseJailSysConf :: "builder \<Rightarrow> host act" where
  "BaseJailSysConf b = ok"

definition ConfigureJailHostname :: "builder \<Rightarrow> string \<Rightarrow> host act" where
  "ConfigureJailHostname b name h =
     (let p = BaseDir (bopts b) @ ''/'' @ name @ ''/etc/rc.conf'' in
      case os_open p h of
        (Inl e, h1) \<Rightarrow> (Some e, h1)
      | (Inr rcconf, h1) \<Rightarrow> file_write rcconf (''hostname='' @ name) h1)"

text \<open>The content the nameserver loop leaves in the file it created.\<close>

definition nameserver_lines :: "string list \<Rightarrow> string" where
  "nameserver_lines ns = concat (map (\<lambda>i. ''nameserver '' @ i @ [CHR 0x0A]) ns)"

subsection \<open>Behaviour\<close>

lemma write_nameservers_put:
  "files h p = Some c \<Longrightarrow>
     write_nameservers (File O_RDWR p) ns h = put_file p (c @ nameserver_lines ns) h"
  by (induction ns arbitrary: h c) (simp_all add: file_write_def put_file_def nameserver_lines_def map_upd_triv)

lemma os_create_file_ok:
  "can_create h p \<Longrightarrow> os_create_file p h = (Inr (File O_RDWR p), put_file p [] (log (EvCreate p) h))"
  by (simp add: os_create_file_def os_create_def put_file_def log_def)

lemma copy_file_ok:
  assumes "files h src = Some c" and "can_create h dst" and "src \<noteq> dst"
  shows "fst (copy_file src dst h) = None \<and> files (snd (copy_file src dst h)) = (files h)(dst \<mapsto> c)"
  using assms by (simp add: copy_file_def os_open_def os_create_file_def os_create_def file_read_def
                            file_write_def put_file_def log_def)

lemma copy_file_no_src:
  "files h src = None \<Longrightarrow> fst (copy_file src dst h) = Some (ErrFs ''open'' src)"
  by (simp add: copy_file_def os_open_def log_def)

lemma copy_file_no_dst:
  "files h src = Some c \<Longrightarrow> \<not> can_create h dst \<Longrightarrow> fst (copy_file src dst h) = Some (ErrFs ''open'' dst)"
  by (auto simp: copy_file_def os_open_def os_create_file_def os_create_def log_def Let_def)

text \<open>The host's configuration files are never the tree's: the tree's paths are longer.\<close>

lemma tree_path_ne:
  "''/etc/localtime'' \<noteq> release_dir cfg @ ''/etc/localtime''"
  "''/etc/resolv.conf'' \<noteq> resolv_path cfg"
  by (auto simp: release_dir_def resolv_path_def dest: arg_cong [where f = length])

lemmas sysconf_eval [eval_simps] =
  copy_file_def SetLocaltime_def resolv_path_def nameserver_lines_def SetResolvConf_def
  SetBaseJailConf_def BaseJailSysConf_def ConfigureJailHostname_def

lemma SetResolvConf_Some:
  "SetResolvConf b (Some ns) h =
     (let p = resolv_path (bopts b) in
      if can_create h p then (None, put_file p (nameserver_lines ns) (log (EvCreate p) h))
      else (Some (ErrFs ''open'' p), log (EvCreate p) h))"
proof (cases "can_create h (resolv_path (bopts b))")
  case True
  let ?p = "resolv_path (bopts b)"
  have "write_nameservers (File O_RDWR ?p) ns (put_file ?p [] (log (EvCreate ?p) h))
          = put_file ?p (nameserver_lines ns) (log (EvCreate ?p) h)"
    by (simp add: write_nameservers_put put_file_def)
  with True show ?thesis by (simp add: SetResolvConf_def os_create_file_ok Let_def)
next
  case False
  then show ?thesis by (auto simp: SetResolvConf_def os_create_file_def os_create_def log_def Let_def)
qed

text \<open>
  C8. Given a non-nil list of nameservers, SetResolvConf succeeds where the file can be
  created; the write loop leaves the resolver file holding exactly one line
  \<open>nameserver IP\<close> with its newline per entry, in order, and changes nothing else on the host
  but the creation it logs.
\<close>

theorem SetResolvConf_nameservers:
  assumes "can_create h (resolv_path (bopts b))"
  shows "SetResolvConf b (Some ns) h =
           (None, put_file (resolv_path (bopts b))
                    (concat (map (\<lambda>i. ''nameserver '' @ i @ [CHR 0x0A]) ns))
                    (log (EvCreate (resolv_path (bopts b))) h))"
  using assms by (simp add: SetResolvConf_Some nameserver_lines_def Let_def)

theorem SetResolvConf_nameservers_witness:
  "fst (SetResolvConf \<lparr>wrap = Fake, bopts = demo_cfg\<rparr> (Some [''8.8.8.8'', ''1.1.1.1'']) demo_host) = None
   \<and> files (snd (SetResolvConf \<lparr>wrap = Fake, bopts = demo_cfg\<rparr> (Some [''8.8.8.8'', ''1.1.1.1'']) demo_host))
       ''/j/releases/13/etc/resolv.conf''
     = Some (''nameserver 8.8.8.8'' @ [CHR 0x0A] @ ''nameserver 1.1.1.1'' @ [CHR 0x0A])"
proof -
  have c: "can_create demo_host (resolv_path (bopts \<lparr>wrap = Fake, bopts = demo_cfg\<rparr>))"
    by (simp add: eval_simps)
  from SetResolvConf_nameservers [OF c] show ?thesis
    by (simp add: eval_simps)
qed

lemma SetResolvConf_Some_fail:
  "\<not> can_create h (resolv_path (bopts b)) \<Longrightarrow>
     fst (SetResolvConf b (Some ns) h) = Some (ErrFs ''open'' (resolv_path (bopts b)))"
  by (simp add: SetResolvConf_def os_create_file_def os_create_def log_def Let_def)

text \<open>
  C10. Given nil, SetResolvConf copies the host's /etc/resolv.conf byte for byte into the tree.
\<close>

theorem SetResolvConf_nil_copies_host:
  assumes "files h ''/etc/resolv.conf'' = Some c" and "can_create h (resolv_path (bopts b))"
  shows "fst (SetResolvConf b None h) = None
         \<and> files (snd (SetResolvConf b None h)) = (files h)(resolv_path (bopts b) \<mapsto> c)"
  using copy_file_ok [OF assms tree_path_ne(2)] by (simp add: SetResolvConf_def)

theorem SetResolvConf_nil_copies_host_witness:
  "fst (SetResolvConf \<lparr>wrap = Fake, bopts = demo_cfg\<rparr> None demo_host) = None
   \<and> files (snd (SetResolvConf \<lparr>wrap = Fake, bopts = demo_cfg\<rparr> None demo_host))
       ''/j/releases/13/etc/resolv.conf'' = Some ''ns''"
proof -
  have a: "files demo_host ''/etc/resolv.conf'' = Some ''ns''" by (simp add: eval_simps)
  have c: "can_create demo_host (resolv_path (bopts \<lparr>wrap = Fake, bopts = demo_cfg\<rparr>))"
    by (simp add: eval_simps)
  from SetResolvConf_nil_copies_host [OF a c] show ?thesis by (simp add: eval_simps)
qed

text \<open>
  C9. SetBaseJailConf passes an empty but non-nil slice, so it writes an empty resolv.conf instead of copying the host's file.
\<close>

theorem SetBaseJailConf_writes_empty:
  assumes "can_create h (resolv_path (bopts b))"
  shows "fst (SetBaseJailConf b h) = None
         \<and> files (snd (SetBaseJailConf b h)) = (files h)(resolv_path (bopts b) \<mapsto> [])"
  using assms by (simp add: SetBaseJailConf_def SetResolvConf_def os_create_file_ok put_file_def log_def)

theorem SetBaseJailConf_writes_empty_witness:
  "files demo_host ''/etc/resolv.conf'' = Some ''ns''
   \<and> fst (SetBaseJailConf \<lparr>wrap = Fake, bopts = demo_cfg\<rparr> demo_host) = None
   \<and> files (snd (SetBaseJailConf \<lparr>wrap = Fake, bopts = demo_cfg\<rparr> demo_host))
       ''/j/releases/13/etc/resolv.conf'' = Some []"
proof -
  have c: "can_create demo_host (resolv_path (bopts \<lparr>wrap = Fake, bopts = demo_cfg\<rparr>))"
    by (simp add: eval_simps)
  from SetBaseJailConf_writes_empty [OF c] show ?thesis by (simp add: eval_simps)
qed

text \<open>
  C12. ConfigureJailHostname never succeeds and never changes a file: \<open>os.Open\<close>
  gives a read-only descriptor, so the write on it fails, or the open itself fails.
\<close>

theorem ConfigureJailHostname_never_succeeds:
  "fst (ConfigureJailHostname b name h) \<noteq> None
   \<and> files (snd (ConfigureJailHostname b name h)) = files h"
  by (simp add: ConfigureJailHostname_def os_open_def file_write_def log_def Let_def
           split: option.splits)

text \<open>
  C22. SetLocaltime copies the host's /etc/localtime byte for byte into the tree when it exists and the target can be created.
\<close>

theorem SetLocaltime_copies_host:
  assumes "files h ''/etc/localtime'' = Some c"
      and "can_create h (release_dir (bopts b) @ ''/etc/localtime'')"
  shows "fst (SetLocaltime b h) = None
         \<and> files (snd (SetLocaltime b h)) = (files h)(release_dir (bopts b) @ ''/etc/localtime'' \<mapsto> c)"
  using copy_file_ok [OF assms tree_path_ne(1)] by (simp add: SetLocaltime_def)

theorem SetLocaltime_copies_host_witness:
  "fst (SetLocaltime \<lparr>wrap = Fake, bopts = demo_cfg\<rparr> demo_host) = None
   \<and> files (snd (SetLocaltime \<lparr>wrap = Fake, bopts = demo_cfg\<rparr> demo_host))
       ''/j/releases/13/etc/localtime'' = Some ''UTC''"
proof -
  have a: "files demo_host ''/etc/localtime'' = Some ''UTC''" by (simp add: eval_simps)
  have c: "can_create demo_host (release_dir (bopts \<lparr>wrap = Fake, bopts = demo_cfg\<rparr>) @ ''/etc/localtime'')"
    by (simp add: eval_simps)
  from SetLocaltime_copies_host [OF a c] show ?thesis by (simp add: eval_simps)
qed

end
