(* ===== verification/Pipeline.thy ===== *)
theory Pipeline
  imports Zfs_Ops Sysconf
begin

text \<open>
  The pipeline orchestrator of \<open>src/build.go\<close>: \<open>CreateJail\<close> (clone, then
  stamp the hostname into the jail's \<open>rc.conf\<close>) and \<open>Initialize\<close>, seven steps
  chained by \<open>if err != nil { return err }\<close>. The spec's design note asks for the
  pipeline as an ordered list of named steps with a uniform contract; \<open>init_steps\<close>
  is that list and \<open>run_steps\<close> runs it, recording the names of the steps that ran
  and the failing step. \<open>Initialize\<close> is proved equal to running the list, for any
  executor plugged into the builder.
\<close>

definition rcConf :: string where
  "rcConf = ''/etc/rc.conf''"

definition hostname_line :: "string \<Rightarrow> string" where
  "hostname_line name = ''hostname=\"'' @ name @ ''\"''"

definition jail_rc_conf :: "opts \<Rightarrow> string \<Rightarrow> path" where
  "jail_rc_conf cfg name = BaseDir cfg @ ''/'' @ name @ rcConf"

definition CreateJail :: "builder \<Rightarrow> string \<Rightarrow> host act" where
  "CreateJail b name =
     then_go (CloneBaseToJail b name)
       (\<lambda>h. case os_create_file (jail_rc_conf (bopts b) name) h of
              (Inl e, h') \<Rightarrow> (Some e, h')
            | (Inr f, h') \<Rightarrow> file_write f (hostname_line name) h')"

definition Initialize :: "builder \<Rightarrow> nat list \<Rightarrow> host act" where
  "Initialize b sched =
     then_go (CreateZFSDataset b)
      (then_go (DownloadBaseSystem b sched)
       (then_go (ExtractBasePkgs b)
        (then_go (UpdateBaseJail b)
         (then_go (SetBaseJailConf b)
          (then_go (CreateZFSSnapshot b)
           (CreateJail b ''base''))))))"

subsection \<open>The pipeline as a list of named steps\<close>

type_synonym step = "string \<times> host act"

definition init_steps :: "builder \<Rightarrow> nat list \<Rightarrow> step list" where
  "init_steps b sched =
     [(''CreateZFSDataset'', CreateZFSDataset b),
      (''DownloadBaseSystem'', DownloadBaseSystem b sched),
      (''ExtractBasePkgs'', ExtractBasePkgs b),
      (''UpdateBaseJail'', UpdateBaseJail b),
      (''SetBaseJailConf'', SetBaseJailConf b),
      (''CreateZFSSnapshot'', CreateZFSSnapshot b),
      (''CreateJail'', CreateJail b ''base'')]"

text \<open>The names of the steps that ran, the failing step with its error, and the host.\<close>

fun run_steps :: "step list \<Rightarrow> host \<Rightarrow> (string list \<times> (string \<times> error) option) \<times> host" where
  "run_steps [] h = (([], None), h)"
| "run_steps ((n, a) # ss) h =
     (case a h of
        (Some e, h') \<Rightarrow> (([n], Some (n, e)), h')
      | (None, h') \<Rightarrow> (let ((ns, r), h'') = run_steps ss h' in ((n # ns, r), h'')))"

definition chain :: "step list \<Rightarrow> host act" where
  "chain ss = foldr (\<lambda>(n, a) acc. then_go a acc) ss ok"

subsection \<open>Initialize is the step list; fail-fast order\<close>

lemma chain_run_steps:
  "run_steps ss h = ((ns, r), h') \<Longrightarrow> chain ss h = (map_option snd r, h')"
proof (induction ss arbitrary: h ns r h')
  case Nil
  then show ?case by (simp add: chain_def ok_def)
next
  case (Cons s ss)
  obtain n a where s: "s = (n, a)" by (cases s)
  show ?case
  proof (cases "a h")
    case (Pair r1 h1)
    show ?thesis
    proof (cases r1)
      case None
      obtain ns' r' h'' where rs: "run_steps ss h1 = ((ns', r'), h'')" by (metis prod.exhaust)
      with Cons.prems s Pair None have "r' = r" and "h'' = h'" by auto
      with Cons.IH [OF rs] s Pair None show ?thesis by (simp add: chain_def)
    next
      case (Some e)
      with Cons.prems s Pair show ?thesis by (auto simp: chain_def)
    qed
  qed
qed

lemma Initialize_chain: "Initialize b sched = chain (init_steps b sched)"
  by (simp add: Initialize_def chain_def init_steps_def)

text \<open>
  C2. Initialize is the ordered list of seven named steps run with stop-at-first-error: its error and final host are those of run_steps on init_steps, for any executor.
\<close>

theorem Initialize_steps:
  "Initialize b sched h =
     (map_option snd (snd (fst (run_steps (init_steps b sched) h))), snd (run_steps (init_steps b sched) h))"
  using chain_run_steps [of "init_steps b sched" h] Initialize_chain
  by (metis prod.collapse)

lemma run_steps_prefix:
  assumes "run_steps ss h = ((ns, r), h')"
  shows "(r = None \<and> ns = map fst ss)
         \<or> (\<exists>k<length ss. \<exists>e. ns = take (Suc k) (map fst ss) \<and> r = Some (fst (ss ! k), e))"
  using assms
proof (induction ss arbitrary: h ns r h')
  case Nil
  then show ?case by simp
next
  case (Cons s ss)
  obtain n a where s: "s = (n, a)" by (cases s)
  obtain r1 h1 where a: "a h = (r1, h1)" by (cases "a h")
  show ?case
  proof (cases r1)
    case (Some e)
    with Cons.prems s a have "ns = [n]" and "r = Some (n, e)" by auto
    then show ?thesis using s by (intro disjI2 exI [of _ 0]) auto
  next
    case None
    obtain ns' r' h'' where rs: "run_steps ss h1 = ((ns', r'), h'')" by (metis prod.exhaust)
    with Cons.prems s a None have ns: "ns = n # ns'" and r: "r = r'" by auto
    from Cons.IH [OF rs] show ?thesis
    proof
      assume "r' = None \<and> ns' = map fst ss"
      with ns r s show ?thesis by simp
    next
      assume "\<exists>k<length ss. \<exists>e. ns' = take (Suc k) (map fst ss) \<and> r' = Some (fst (ss ! k), e)"
      then obtain k e where "k < length ss" "ns' = take (Suc k) (map fst ss)" "r' = Some (fst (ss ! k), e)"
        by blast
      with ns r s show ?thesis by (intro disjI2 exI [of _ "Suc k"]) auto
    qed
  qed
qed

text \<open>A step named after the first one ran only if the first one succeeded.\<close>

lemma run_steps_Cons_ran:
  assumes "run_steps ((n, a) # ss) h = ((ns, r), h')" and "m \<in> set ns" and "m \<noteq> n"
  shows "\<exists>h1 ns'. a h = (None, h1) \<and> run_steps ss h1 = ((ns', r), h') \<and> m \<in> set ns'"
  using assms by (auto split: prod.splits option.splits)

text \<open>With the concrete executor, every step of \<open>Initialize\<close> keeps the existing
  datasets and snapshots: the ZFS commands only add, the other steps do not touch them.\<close>

lemma CreateZFSDataset_grows: "zfs_grows h (snd (CreateZFSDataset (wrap_builder cfg) h))"
  by (auto simp: CreateZFSDataset_Wrap zfs_grows_def log_def Let_def)

lemma ensure_cache_dir_grows: "zfs_grows h (snd (ensure_cache_dir b h))"
  by (simp add: ensure_cache_dir_def os_mkdir_def zfs_grows_def log_def Let_def)

lemma DownloadBaseSystem_grows: "zfs_grows h (snd (DownloadBaseSystem b sched h))"
  unfolding DownloadBaseSystem_def
  by (rule then_go_grows [OF ensure_cache_dir_grows same_except_files_grows [OF fetch_all_frame]])

lemma ExtractBasePkgs_grows: "zfs_grows h (snd (ExtractBasePkgs b h))"
  by (simp add: ExtractBasePkgs_def extract_each_grows)

lemma UpdateBaseJail_grows: "zfs_grows h (snd (UpdateBaseJail b h))"
  by (simp add: UpdateBaseJail_state log_grows)

lemma SetBaseJailConf_grows: "zfs_grows h (snd (SetBaseJailConf b h))"
  by (simp add: SetBaseJailConf_def SetResolvConf_def os_create_file_def os_create_def zfs_grows_def
                log_def Let_def)

lemma CreateZFSSnapshot_grows: "zfs_grows h (snd (CreateZFSSnapshot (wrap_builder cfg) h))"
  by (auto simp: CreateZFSSnapshot_Wrap zfs_grows_def log_def Let_def)

lemma CreateJail_grows: "zfs_grows h (snd (CreateJail (wrap_builder cfg) name h))"
  by (auto simp: CreateJail_def then_go_def CloneBaseToJail_Wrap os_create_file_def os_create_def
                 file_write_def zfs_grows_def log_def Let_def split: prod.splits option.splits)

lemmas Initialize_steps_grow =
  CreateZFSDataset_grows DownloadBaseSystem_grows ExtractBasePkgs_grows UpdateBaseJail_grows
  SetBaseJailConf_grows CreateZFSSnapshot_grows CreateJail_grows

lemmas pipeline_eval [eval_simps] =
  rcConf_def hostname_line_def jail_rc_conf_def CreateJail_def Initialize_def init_steps_def

text \<open>
  C3. If the snapshot step of Initialize runs, the dataset, download, extraction, patch and configuration steps ran before it, in that order, and none of them failed.
\<close>

theorem snapshot_after_preparation:
  assumes "run_steps (init_steps b sched) h = ((ns, r), h')" and "''CreateZFSSnapshot'' \<in> set ns"
  shows "take 5 ns = [''CreateZFSDataset'', ''DownloadBaseSystem'', ''ExtractBasePkgs'',
                      ''UpdateBaseJail'', ''SetBaseJailConf'']
         \<and> (\<forall>n e. r = Some (n, e) \<longrightarrow> n = ''CreateZFSSnapshot'' \<or> n = ''CreateJail'')"
proof -
  have len: "length (init_steps b sched) = 7" by (simp add: init_steps_def)
  from run_steps_prefix [OF assms(1)] show ?thesis
  proof
    assume "r = None \<and> ns = map fst (init_steps b sched)"
    then show ?thesis by (simp add: init_steps_def)
  next
    assume "\<exists>k<length (init_steps b sched). \<exists>e. ns = take (Suc k) (map fst (init_steps b sched))
              \<and> r = Some (fst (init_steps b sched ! k), e)"
    then obtain k e where k: "k < 7" and ns: "ns = take (Suc k) (map fst (init_steps b sched))"
      and r: "r = Some (fst (init_steps b sched ! k), e)" using len by auto
    have "k = 0 \<or> k = 1 \<or> k = 2 \<or> k = 3 \<or> k = 4 \<or> k = 5 \<or> k = 6" using k by arith
    with ns r assms(2) show ?thesis by (auto simp: init_steps_def)
  qed
qed

theorem snapshot_after_preparation_witness:
  "''CreateZFSSnapshot'' \<in> set (fst (fst (run_steps (init_steps \<lparr>wrap = Fake, bopts = demo_cfg\<rparr> []) demo_host)))
   \<and> take 5 (fst (fst (run_steps (init_steps \<lparr>wrap = Fake, bopts = demo_cfg\<rparr> []) demo_host))) =
       [''CreateZFSDataset'', ''DownloadBaseSystem'', ''ExtractBasePkgs'', ''UpdateBaseJail'', ''SetBaseJailConf'']"
proof -
  obtain ns r h' where eq: "run_steps (init_steps \<lparr>wrap = Fake, bopts = demo_cfg\<rparr> []) demo_host = ((ns, r), h')"
    by (metis prod.exhaust)
  have "fst (run_steps (init_steps \<lparr>wrap = Fake, bopts = demo_cfg\<rparr> []) demo_host) =
        ([''CreateZFSDataset'', ''DownloadBaseSystem'', ''ExtractBasePkgs'', ''UpdateBaseJail'',
          ''SetBaseJailConf'', ''CreateZFSSnapshot'', ''CreateJail''], None)"
    by (simp add: eval_simps Let_def)
  with eq have mem: "''CreateZFSSnapshot'' \<in> set ns" by simp
  from snapshot_after_preparation [OF eq mem] mem eq show ?thesis by simp
qed

lemma CreateJail_result:
  "CreateJail b name h =
     (case CloneBaseToJail b name h of
        (Some e, h1) \<Rightarrow> (Some e, h1)
      | (None, h1) \<Rightarrow>
          (let p = jail_rc_conf (bopts b) name in
           if can_create h1 p then (None, put_file p (hostname_line name) (log (EvCreate p) h1))
           else (Some (ErrFs ''open'' p), log (EvCreate p) h1)))"
  by (simp add: CreateJail_def then_go_def os_create_file_def os_create_def file_write_def put_file_def
                log_def Let_def split: prod.split option.split)

text \<open>
  C11. When CreateJail succeeds, the jail's \<open>BaseDir/NAME/etc/rc.conf\<close> holds exactly the
  bytes \<open>hostname="NAME"\<close> (no trailing newline), whatever it held before, for any executor.
\<close>

theorem CreateJail_hostname:
  assumes "CreateJail b name h = (None, h')"
  shows "files h' (BaseDir (bopts b) @ ''/'' @ name @ ''/etc/rc.conf'') = Some (''hostname=\"'' @ name @ ''\"'')"
  using assms
  by (auto simp: CreateJail_result put_file_def jail_rc_conf_def rcConf_def hostname_line_def Let_def
           split: prod.splits option.splits if_splits)

theorem CreateJail_hostname_witness:
  "files (snd (CreateJail \<lparr>wrap = Fake, bopts = demo_cfg\<rparr> ''web1'' demo_host)) ''/j/web1/etc/rc.conf''
     = Some ''hostname=\"web1\"''"
proof -
  have ok: "CreateJail \<lparr>wrap = Fake, bopts = demo_cfg\<rparr> ''web1'' demo_host =
            (None, snd (CreateJail \<lparr>wrap = Fake, bopts = demo_cfg\<rparr> ''web1'' demo_host))"
    by (simp add: eval_simps Let_def)
  from CreateJail_hostname [OF ok] show ?thesis by (simp add: eval_simps)
qed

lemma CreateJail_Wrap_fails: "fst (CreateJail (wrap_builder cfg) name h) \<noteq> None"
  by (simp add: CreateJail_def CloneBaseToJail_Wrap Let_def)

end
