(* ===== verification/Conf_Files.thy ===== *)
theory Conf_Files
  imports Pipeline
begin

text \<open>
  Reading back the configuration files the builder writes. \<open>split_lines\<close> reads a file
  as the resolver and \<open>rc(8)\<close> do, as a list of lines separated by newlines (a last line
  without a newline still counts). \<open>resolv_nameservers\<close> extracts the addresses of the
  \<open>nameserver\<close> lines, \<open>hostname_decls\<close> the values of the \<open>hostname="..."\<close> lines.
  These readers are the specification's view of the files (they are not code of
  \<open>src/\<close>); the round trips show that what \<open>SetResolvConf\<close> and \<open>CreateJail\<close> write
  reads back as the input, provided the input holds no newline.
\<close>

abbreviation nl :: char where
  "nl \<equiv> CHR 0x0A"

fun split_lines_acc :: "string \<Rightarrow> string \<Rightarrow> string list" where
  "split_lines_acc acc [] = (if acc = [] then [] else [rev acc])"
| "split_lines_acc acc (c # cs) =
     (if c = nl then rev acc # split_lines_acc [] cs else split_lines_acc (c # acc) cs)"

definition split_lines :: "string \<Rightarrow> string list" where
  "split_lines s = split_lines_acc [] s"

definition resolv_nameservers :: "string \<Rightarrow> string list" where
  "resolv_nameservers c =
     map (drop 11) (filter (\<lambda>l. take 11 l = ''nameserver '') (split_lines c))"

definition hostname_decls :: "string \<Rightarrow> string list" where
  "hostname_decls c =
     map (\<lambda>l. butlast (drop 10 l))
       (filter (\<lambda>l. take 10 l = ''hostname=\"'' \<and> 11 \<le> length l \<and> last l = CHR ''\"'') (split_lines c))"

lemma split_lines_acc_word:
  "nl \<notin> set w \<Longrightarrow> split_lines_acc acc (w @ cs) = split_lines_acc (rev w @ acc) cs"
  by (induction w arbitrary: acc) auto

lemma split_lines_concat:
  assumes "\<forall>l\<in>set ls. nl \<notin> set l"
  shows "split_lines (concat (map (\<lambda>l. l @ [nl]) ls)) = ls"
proof -
  have "split_lines_acc [] (concat (map (\<lambda>l. l @ [nl]) ls)) = ls"
    using assms by (induction ls) (simp_all add: split_lines_acc_word)
  then show ?thesis by (simp add: split_lines_def)
qed

lemma split_lines_single:
  "nl \<notin> set l \<Longrightarrow> l \<noteq> [] \<Longrightarrow> split_lines l = [l]"
  using split_lines_acc_word [of l "[]" "[]"] by (simp add: split_lines_def)

lemmas conf_files_eval [eval_simps] = split_lines_def resolv_nameservers_def hostname_decls_def

text \<open>
  C26. Round trip of the resolver file: when \<open>SetResolvConf\<close> succeeds on a list of
  nameservers none of which holds a newline, the file it writes reads back, line by line, as
  exactly that list, in order.
\<close>

theorem SetResolvConf_roundtrip:
  assumes "\<forall>i\<in>set ns. nl \<notin> set i" and "SetResolvConf b (Some ns) h = (None, h')"
  shows "map_option resolv_nameservers (files h' (resolv_path (bopts b))) = Some ns"
proof -
  have eq: "nameserver_lines ns = concat (map (\<lambda>l. l @ [nl]) (map (\<lambda>i. ''nameserver '' @ i) ns))"
    by (simp add: nameserver_lines_def comp_def)
  have "\<forall>l\<in>set (map (\<lambda>i. ''nameserver '' @ i) ns). nl \<notin> set l" using assms(1) by auto
  then have "split_lines (nameserver_lines ns) = map (\<lambda>i. ''nameserver '' @ i) ns"
    unfolding eq by (rule split_lines_concat)
  then have rn: "resolv_nameservers (nameserver_lines ns) = ns"
    by (simp add: resolv_nameservers_def comp_def)
  from assms(2) show ?thesis
    by (auto simp: SetResolvConf_Some put_file_def Let_def rn split: if_splits)
qed

theorem SetResolvConf_roundtrip_witness:
  "map_option resolv_nameservers
     (files (snd (SetResolvConf \<lparr>wrap = Fake, bopts = demo_cfg\<rparr> (Some [''8.8.8.8'', ''1.1.1.1'']) demo_host))
        ''/j/releases/13/etc/resolv.conf'')
   = Some [''8.8.8.8'', ''1.1.1.1'']"
proof -
  let ?b = "\<lparr>wrap = Fake, bopts = demo_cfg\<rparr>" and ?ns = "[''8.8.8.8'', ''1.1.1.1'']"
  have ok: "SetResolvConf ?b (Some ?ns) demo_host = (None, snd (SetResolvConf ?b (Some ?ns) demo_host))"
    by (simp add: eval_simps Let_def)
  have "\<forall>i\<in>set ?ns. nl \<notin> set i" by simp
  from SetResolvConf_roundtrip [OF this ok] show ?thesis by (simp add: eval_simps)
qed

text \<open>
  C27. A jail created by \<open>CreateJail\<close> has exactly one hostname declaration in its
  \<open>rc.conf\<close>, and it equals the jail's name, for every name without a newline.
\<close>

theorem CreateJail_one_hostname:
  assumes "CreateJail b name h = (None, h')" and "nl \<notin> set name"
  shows "map_option hostname_decls (files h' (jail_rc_conf (bopts b) name)) = Some [name]"
proof -
  have hd: "hostname_decls (hostname_line name) = [name]"
    using assms(2) by (simp add: hostname_decls_def hostname_line_def split_lines_single)
  from assms(1) show ?thesis
    by (auto simp: CreateJail_result put_file_def Let_def hd split: prod.splits option.splits if_splits)
qed

theorem CreateJail_one_hostname_witness:
  "map_option hostname_decls
     (files (snd (CreateJail \<lparr>wrap = Fake, bopts = demo_cfg\<rparr> ''web1'' demo_host)) ''/j/web1/etc/rc.conf'')
   = Some [''web1'']"
proof -
  let ?b = "\<lparr>wrap = Fake, bopts = demo_cfg\<rparr>"
  have ok: "CreateJail ?b ''web1'' demo_host = (None, snd (CreateJail ?b ''web1'' demo_host))"
    by (simp add: eval_simps Let_def)
  have "nl \<notin> set ''web1''" by simp
  from CreateJail_one_hostname [OF ok this] show ?thesis by (simp add: eval_simps)
qed

lemma split_lines_two:
  "nl \<notin> set l1 \<Longrightarrow> nl \<notin> set l2 \<Longrightarrow> l2 \<noteq> [] \<Longrightarrow> split_lines (l1 @ nl # l2) = [l1, l2]"
  using split_lines_acc_word [of l1 "[]" "nl # l2"] split_lines_acc_word [of l2 "[]" "[]"]
  by (simp add: split_lines_def)

text \<open>
  C37. The jail name is not validated or escaped: a name \<open>X"\<newline>hostname="Y\<close>
  makes \<open>CreateJail\<close> write two hostname declarations into the jail's \<open>rc.conf\<close>, the
  second of which, \<open>Y\<close>, is the one \<open>rc(8)\<close> applies.
\<close>

theorem CreateJail_hostname_injection:
  assumes "CreateJail b (x @ CHR 0x22 # nl # ''hostname=\"'' @ y) h = (None, h')"
      and "nl \<notin> set x" and "nl \<notin> set y"
  shows "map_option hostname_decls
           (files h' (jail_rc_conf (bopts b) (x @ CHR 0x22 # nl # ''hostname=\"'' @ y))) = Some [x, y]"
proof -
  define n where "n = x @ CHR 0x22 # nl # ''hostname=\"'' @ y"
  have eq: "hostname_line n = (''hostname=\"'' @ x @ [CHR 0x22]) @ nl # (''hostname=\"'' @ y @ [CHR 0x22])"
    by (simp add: hostname_line_def n_def)
  have "nl \<notin> set (''hostname=\"'' @ x @ [CHR 0x22])" "nl \<notin> set (''hostname=\"'' @ y @ [CHR 0x22])"
    and "''hostname=\"'' @ y @ [CHR 0x22] \<noteq> []"
    using assms(2,3) by simp_all
  from split_lines_two [OF this]
  have "split_lines (hostname_line n) = [''hostname=\"'' @ x @ [CHR 0x22], ''hostname=\"'' @ y @ [CHR 0x22]]"
    unfolding eq .
  then have hd: "hostname_decls (hostname_line n) = [x, y]"
    by (simp add: hostname_decls_def)
  from assms(1) [folded n_def] show ?thesis
    unfolding n_def [symmetric]
    by (auto simp: CreateJail_result put_file_def Let_def hd split: prod.splits option.splits if_splits)
qed

theorem CreateJail_hostname_injection_witness:
  "map_option hostname_decls
     (files (snd (CreateJail \<lparr>wrap = Fake, bopts = demo_cfg\<rparr> (''web1'' @ CHR 0x22 # nl # ''hostname=\"'' @ ''evil'')
                   (demo_host\<lparr>dirs := insert (''/j/web1\"'' @ nl # ''hostname=\"evil/etc'') (dirs demo_host)\<rparr>)))
        (''/j/web1\"'' @ nl # ''hostname=\"evil/etc/rc.conf''))
   = Some [''web1'', ''evil'']"
proof -
  let ?b = "\<lparr>wrap = Fake, bopts = demo_cfg\<rparr>" and ?n = "''web1'' @ CHR 0x22 # nl # ''hostname=\"'' @ ''evil''"
  let ?h = "demo_host\<lparr>dirs := insert (''/j/web1\"'' @ nl # ''hostname=\"evil/etc'') (dirs demo_host)\<rparr>"
  have ok: "CreateJail ?b ?n ?h = (None, snd (CreateJail ?b ?n ?h))"
    by (simp add: eval_simps jail_rc_conf_def rcConf_def Let_def)
  have "nl \<notin> set ''web1''" and "nl \<notin> set ''evil''" by simp_all
  from CreateJail_hostname_injection [OF ok this]
  show ?thesis by (simp add: jail_rc_conf_def rcConf_def demo_cfg_def)
qed

text \<open>The nameservers are not validated: a newline in an entry injects further lines.\<close>

lemma nameserver_injection:
  "resolv_nameservers (nameserver_lines [''1.1.1.1'' @ [nl] @ ''nameserver 6.6.6.6''])
     = [''1.1.1.1'', ''6.6.6.6'']"
  by (simp add: eval_simps)

end
