(* ===== verification/Fetch_Seq.thy ===== *)
theory Fetch_Seq
  imports Fetch
begin

text \<open>
  The fan-out of \<open>DownloadBaseSystem\<close> against a sequential reference. \<open>download_seq\<close> is
  the loop \<open>for _, p := range pkgs { err := download(p); if first == nil { first = err } }\<close>
  that the errgroup would be without goroutines. The theory proves that the fan-out equals it
  when the tasks run one after the other, that the error the group returns depends on the
  schedule, and that the tasks never interfere in any reachable state.
\<close>

text \<open>The reference: the downloads one after the other, keeping the first error.\<close>

fun download_seq :: "opts \<Rightarrow> string list \<Rightarrow> error option \<Rightarrow> host \<Rightarrow> error option \<times> host" where
  "download_seq cfg [] g h = (g, h)"
| "download_seq cfg (p # ps) g h =
     (case download_task cfg p h of (r, h') \<Rightarrow> download_seq cfg ps (first_err r g) h')"

lemma pair_ready:
  assumes "k < length (phases s)" and "phases s ! k = Ready"
  shows "run_sched cfg ps [k, k] s =
           s\<lparr>fhost := snd (download_task cfg (ps ! k) (fhost s)),
             phases := (phases s)[k := Done (fst (download_task cfg (ps ! k) (fhost s)))],
             gerr := first_err (fst (download_task cfg (ps ! k) (fhost s))) (gerr s)\<rparr>"
proof (cases "task_create cfg (ps ! k) (fhost s)")
  case (Pair r1 h1)
  show ?thesis
  proof (cases r1)
    case None
    with Pair assms show ?thesis
      by (simp add: advance_def runnable_def download_task_def split: prod.splits)
  next
    case (Some e)
    with Pair assms show ?thesis
      by (simp add: advance_def runnable_def download_task_def first_err_def)
  qed
qed

lemma run_sched_seq:
  assumes "length (phases s) = length ps" and "\<forall>j<length ps. k \<le> j \<longrightarrow> phases s ! j = Ready"
  shows "(gerr (run_sched cfg ps (concat (map (\<lambda>i. [i, i]) [k..<length ps])) s),
          fhost (run_sched cfg ps (concat (map (\<lambda>i. [i, i]) [k..<length ps])) s))
         = download_seq cfg (drop k ps) (gerr s) (fhost s)"
  using assms
proof (induction "length ps - k" arbitrary: k s)
  case 0
  then show ?case by simp
next
  case (Suc m)
  then have k: "k < length ps" by simp
  obtain r h' where d: "download_task cfg (ps ! k) (fhost s) = (r, h')" by (cases "download_task cfg (ps ! k) (fhost s)")
  obtain s' where s'def: "run_sched cfg ps [k, k] s = s'" by simp
  have s': "s' = s\<lparr>fhost := h', phases := (phases s)[k := Done r], gerr := first_err r (gerr s)\<rparr>"
    using pair_ready [of k s cfg ps] Suc.prems k d s'def by simp
  have ih: "(gerr (run_sched cfg ps (concat (map (\<lambda>i. [i, i]) [Suc k..<length ps])) s'),
             fhost (run_sched cfg ps (concat (map (\<lambda>i. [i, i]) [Suc k..<length ps])) s'))
            = download_seq cfg (drop (Suc k) ps) (gerr s') (fhost s')"
    using Suc.hyps(2) Suc.prems by (intro Suc.hyps(1)) (simp_all add: s')
  have split: "concat (map (\<lambda>i. [i, i]) [k..<length ps])
                 = [k, k] @ concat (map (\<lambda>i. [i, i]) [Suc k..<length ps])"
    using k by (simp add: upt_conv_Cons)
  have "drop k ps = ps ! k # drop (Suc k) ps" using k by (simp add: Cons_nth_drop_Suc)
  with ih d show ?case
    by (simp only: split run_sched_append s'def) (simp add: s')
qed

lemma wait_all_reach:
  "(fetch_step cfg ps)\<^sup>*\<^sup>* (fetch_init h ps) s \<Longrightarrow> (fetch_step cfg ps)\<^sup>*\<^sup>* (fetch_init h ps) (wait_all cfg ps s)"
  unfolding wait_all_def by (blast intro: run_sched_steps rtranclp_trans)

lemma finished_phases:
  assumes inv: "fetch_inv cfg ps h0 s" and fin: "finished s"
  shows "phases s = map (\<lambda>p. Done (fst (download_task cfg p h0))) ps"
proof (rule nth_equalityI)
  have len: "length (phases s) = length ps" using inv by (simp add: fetch_inv_def)
  then show "length (phases s) = length (map (\<lambda>p. Done (fst (download_task cfg p h0))) ps)" by simp
  fix i assume "i < length (phases s)"
  with len fin inv show "phases s ! i = map (\<lambda>p. Done (fst (download_task cfg p h0))) ps ! i"
    by (auto simp: fetch_inv_def dest: finished_phase)
qed

lemma fetch_all_final:
  obtains s where "(fetch_step (bopts b) (missing (bopts b) h))\<^sup>*\<^sup>* (fetch_init h (missing (bopts b) h)) s"
    and "finished s" and "fetch_all b sched h = (gerr s, fhost s)"
proof -
  let ?cfg = "bopts b" and ?ps = "missing (bopts b) h"
  let ?s1 = "run_sched ?cfg ?ps sched (fetch_init h ?ps)"
  have "(fetch_step ?cfg ?ps)\<^sup>*\<^sup>* (fetch_init h ?ps) (wait_all ?cfg ?ps ?s1)"
    using run_sched_steps by (rule wait_all_reach)
  moreover have "finished (wait_all ?cfg ?ps ?s1)"
    by (rule wait_all_finished) (simp add: fetch_init_def)
  ultimately show ?thesis using that by (simp add: fetch_all_def Let_def)
qed

lemmas fetch_seq_eval [eval_simps] = download_seq.simps

text \<open>
  C24. Equivalence with the sequential loop: when the scheduler runs each download task to
  its end before the next starts, the fan-out returns exactly what the sequential loop
  \<open>download_seq\<close> returns (the error of the first failing package in list order, and the same
  host, trace included).
\<close>

theorem fetch_all_sequential:
  "fetch_all b [] h = download_seq (bopts b) (missing (bopts b) h) None h"
  using run_sched_seq [of "fetch_init h (missing (bopts b) h)" "missing (bopts b) h" 0 "bopts b"]
  by (simp add: fetch_all_def wait_all_def fetch_init_def Let_def)

text \<open>The equivalence covers files and success but not the error value: which task's error
  the group keeps depends on the order in which the tasks fail. In order, the first package's
  error is returned; when the scheduler lets the third task fail first, its error is.\<close>

lemma fetch_all_error_schedule:
  "fst (fetch_all \<lparr>wrap = Fake, bopts = demo_cfg\<rparr> []
          (demo_host\<lparr>files := (files demo_host)(''/tmp/13/base.txz'' := None, ''/tmp/13/ports.txz'' := None),
                     net := (\<lambda>_. RespFail)\<rparr>))
     = Some (ErrHttp ''http://ftp.freebsd.org/pub/FreeBSD/releases/amd64/amd64/13/base.txz'')
   \<and> fst (fetch_all \<lparr>wrap = Fake, bopts = demo_cfg\<rparr> [1, 1]
          (demo_host\<lparr>files := (files demo_host)(''/tmp/13/base.txz'' := None, ''/tmp/13/ports.txz'' := None),
                     net := (\<lambda>_. RespFail)\<rparr>))
     = Some (ErrHttp ''http://ftp.freebsd.org/pub/FreeBSD/releases/amd64/amd64/13/ports.txz'')"
  by (simp add: eval_simps Let_def)

text \<open>
  C32. The download tasks never interfere: in every state the interleaving can reach, no file
  but the launched packages' cache files has changed, and each cache file holds its old
  content, the empty file of a started task, or what its own download alone leaves there.
\<close>

theorem fetch_no_interference:
  assumes "(fetch_step cfg ps)\<^sup>*\<^sup>* (fetch_init h ps) s" and "distinct ps"
  shows "(\<forall>f. f \<notin> pkg_file cfg ` set ps \<longrightarrow> files (fhost s) f = files h f)
         \<and> (\<forall>i<length ps. files (fhost s) (pkg_file cfg (ps ! i))
               \<in> {files h (pkg_file cfg (ps ! i)), Some [],
                  files (snd (download_task cfg (ps ! i) h)) (pkg_file cfg (ps ! i))})"
proof -
  have inv: "fetch_inv cfg ps h s" using assms by (rule fetch_steps_inv)
  then have "\<forall>i<length ps. files (fhost s) (pkg_file cfg (ps ! i)) = task_file cfg (ps ! i) h (phases s ! i)"
    by (simp add: fetch_inv_def)
  then have "\<forall>i<length ps. files (fhost s) (pkg_file cfg (ps ! i))
               \<in> {files h (pkg_file cfg (ps ! i)), Some [],
                  files (snd (download_task cfg (ps ! i) h)) (pkg_file cfg (ps ! i))}"
    by (auto simp: task_file_def split: phase.splits)
  with inv show ?thesis by (simp add: fetch_inv_def)
qed

theorem fetch_no_interference_witness:
  "files (fhost (advance demo_cfg [''base.txz''] 0 (fetch_init demo_host [''base.txz'']))) ''/etc/resolv.conf''
     = files demo_host ''/etc/resolv.conf''
   \<and> files (fhost (advance demo_cfg [''base.txz''] 0 (fetch_init demo_host [''base.txz'']))) ''/tmp/13/base.txz''
       = Some []"
proof -
  let ?ps = "[''base.txz'']" and ?s0 = "fetch_init demo_host [''base.txz'']"
  have r0: "runnable ?s0 0" by (simp add: eval_simps)
  have "(fetch_step demo_cfg ?ps)\<^sup>*\<^sup>* ?s0 (advance demo_cfg ?ps 0 ?s0)"
    using fetch_step.move [where cfg = demo_cfg and ps = ?ps, OF r0] by (rule r_into_rtranclp)
  from fetch_no_interference [OF this] have "\<forall>f. f \<notin> pkg_file demo_cfg ` set ?ps \<longrightarrow>
        files (fhost (advance demo_cfg ?ps 0 ?s0)) f = files demo_host f" by simp
  moreover have "''/etc/resolv.conf'' \<notin> pkg_file demo_cfg ` set ?ps" by (simp add: eval_simps)
  moreover have "files (fhost (advance demo_cfg ?ps 0 ?s0)) ''/tmp/13/base.txz'' = Some []"
    by (simp add: eval_simps Let_def)
  ultimately show ?thesis by blast
qed

end
