(* ===== verification/Fetch_Trace.thy ===== *)
theory Fetch_Trace
  imports Fetch_Seq
begin

text \<open>
  The trace of the fan-out: which external interactions the download tasks perform. A task
  run alone logs the creation of its cache file and, if that succeeds, the GET of its URL
  (\<open>task_events\<close>). Under any interleaving the multiset of events appended so far is the
  sum over tasks of what each task's phase has logged (\<open>trace_inv\<close>, by rule induction over
  \<open>fetch_step\<close>). When every task is done, the fan-out has launched exactly one task per
  missing package.
\<close>

definition task_events :: "opts \<Rightarrow> string \<Rightarrow> host \<Rightarrow> event list" where
  "task_events cfg p h0 =
     EvCreate (pkg_file cfg p)
     # (if fst (task_create cfg p h0) = None then [EvGet (sysDownloadURL (Release cfg) p)] else [])"

definition phase_events :: "opts \<Rightarrow> string \<Rightarrow> host \<Rightarrow> phase \<Rightarrow> event multiset" where
  "phase_events cfg p h0 ph =
     (case ph of Ready \<Rightarrow> {#} | Started \<Rightarrow> {#EvCreate (pkg_file cfg p)#} | Done _ \<Rightarrow> mset (task_events cfg p h0))"

definition ev_sum :: "opts \<Rightarrow> string list \<Rightarrow> host \<Rightarrow> phase list \<Rightarrow> event multiset" where
  "ev_sum cfg ps h0 phs = (\<Sum>i<length ps. phase_events cfg (ps ! i) h0 (phs ! i))"

definition trace_inv :: "opts \<Rightarrow> string list \<Rightarrow> host \<Rightarrow> fetch_state \<Rightarrow> bool" where
  "trace_inv cfg ps h0 s \<longleftrightarrow>
     (\<exists>tr. events (fhost s) = events h0 @ tr \<and> mset tr = ev_sum cfg ps h0 (phases s))"

definition is_create :: "event \<Rightarrow> bool" where
  "is_create ev = (case ev of EvCreate _ \<Rightarrow> True | _ \<Rightarrow> False)"

lemma download_task_events:
  "events (snd (download_task cfg p h)) = events h @ task_events cfg p h"
  by (simp add: download_task_def task_create_def task_get_def task_events_def os_create_def log_def put_file_def
                Let_def then_go_def split: response.splits)

lemma ev_sum_update:
  assumes "i < length ps" and "length phs = length ps"
  shows "ev_sum cfg ps h0 (phs[i := x]) + phase_events cfg (ps ! i) h0 (phs ! i)
         = ev_sum cfg ps h0 phs + phase_events cfg (ps ! i) h0 x"
proof -
  let ?A = "{..<length ps} - {i}"
  have i: "i \<in> {..<length ps}" using assms(1) by simp
  have rest: "(\<Sum>j\<in>?A. phase_events cfg (ps ! j) h0 (phs[i := x] ! j))
              = (\<Sum>j\<in>?A. phase_events cfg (ps ! j) h0 (phs ! j))"
    by (rule sum.cong) auto
  show ?thesis
    unfolding ev_sum_def sum.remove [OF finite_lessThan i] using assms rest
    by (simp add: add_ac)
qed

lemma ev_sum_init: "ev_sum cfg ps h0 (replicate (length ps) Ready) = {#}"
  by (simp add: ev_sum_def phase_events_def)

lemma ev_sum_done:
  "ev_sum cfg ps h0 (map (\<lambda>p. Done (r p)) ps) = mset (concat (map (\<lambda>p. task_events cfg p h0) ps))"
proof (induction ps)
  case Nil
  then show ?case by (simp add: ev_sum_def)
next
  case (Cons p ps)
  then show ?case
    by (simp add: ev_sum_def sum.lessThan_Suc_shift phase_events_def del: sum.lessThan_Suc)
qed

lemma task_create_dirs_result:
  "dirs h = dirs h' \<Longrightarrow> fst (task_create cfg p h) = fst (task_create cfg p h')"
  by (simp add: task_create_def os_create_def Let_def)

lemma advance_trace_inv:
  assumes inv: "fetch_inv cfg ps h0 s" and tr: "trace_inv cfg ps h0 s" and run: "runnable s i"
  shows "trace_inv cfg ps h0 (advance cfg ps i s)"
proof -
  have len: "length (phases s) = length ps" and same: "same_except_files h0 (fhost s)"
    and st: "\<forall>i<length ps. phases s ! i = Started \<longrightarrow> fst (task_create cfg (ps ! i) h0) = None"
    using inv by (simp_all add: fetch_inv_def)
  have i: "i < length ps" using run len by (simp add: runnable_def)
  from tr obtain t where t: "events (fhost s) = events h0 @ t" and mt: "mset t = ev_sum cfg ps h0 (phases s)"
    by (auto simp: trace_inv_def)
  let ?f = "pkg_file cfg (ps ! i)" and ?u = "sysDownloadURL (Release cfg) (ps ! i)"
  have dirs_eq: "dirs (fhost s) = dirs h0" using same by (simp add: same_except_files_def)
  show ?thesis
  proof (cases "phases s ! i")
    case Ready
    obtain r h' where c: "task_create cfg (ps ! i) (fhost s) = (r, h')" by (cases "task_create cfg (ps ! i) (fhost s)")
    have ev: "events h' = events (fhost s) @ [EvCreate ?f]"
      using c by (auto simp: task_create_def os_create_def log_def Let_def split: if_splits)
    have r0: "fst (task_create cfg (ps ! i) h0) = r"
      using c task_create_dirs_result [OF dirs_eq, of cfg "ps ! i"] by simp
    show ?thesis
    proof (cases r)
      case None
      then have "advance cfg ps i s = s\<lparr>fhost := h', phases := (phases s)[i := Started]\<rparr>"
        using Ready c by (simp add: advance_def)
      moreover have "mset (t @ [EvCreate ?f]) = ev_sum cfg ps h0 ((phases s)[i := Started])"
        using ev_sum_update [OF i len, of cfg h0 Started] Ready mt by (simp add: phase_events_def)
      ultimately show ?thesis using ev t by (auto simp: trace_inv_def)
    next
      case (Some e)
      then have "advance cfg ps i s = s\<lparr>fhost := h', phases := (phases s)[i := Done (Some e)],
                                         gerr := first_err (Some e) (gerr s)\<rparr>"
        using Ready c by (simp add: advance_def)
      moreover have "mset (t @ [EvCreate ?f]) = ev_sum cfg ps h0 ((phases s)[i := Done (Some e)])"
        using ev_sum_update [OF i len, of cfg h0 "Done (Some e)"] Ready mt r0 Some
        by (simp add: phase_events_def task_events_def)
      ultimately show ?thesis using ev t by (auto simp: trace_inv_def)
    qed
  next
    case Started
    obtain r h' where g: "task_get cfg (ps ! i) (fhost s) = (r, h')" by (cases "task_get cfg (ps ! i) (fhost s)")
    have ev: "events h' = events (fhost s) @ [EvGet ?u]"
      using g by (auto simp: task_get_def put_file_def log_def Let_def split: response.splits)
    have c0: "fst (task_create cfg (ps ! i) h0) = None" using st i Started by simp
    have "advance cfg ps i s = s\<lparr>fhost := h', phases := (phases s)[i := Done r], gerr := first_err r (gerr s)\<rparr>"
      using Started g by (simp add: advance_def)
    moreover have "mset (t @ [EvGet ?u]) = ev_sum cfg ps h0 ((phases s)[i := Done r])"
      using ev_sum_update [OF i len, of cfg h0 "Done r"] Started mt c0
      by (simp add: phase_events_def task_events_def)
    ultimately show ?thesis using ev t by (auto simp: trace_inv_def)
  next
    case (Done r)
    with run show ?thesis by (simp add: runnable_def)
  qed
qed

lemma fetch_steps_trace_inv:
  assumes "(fetch_step cfg ps)\<^sup>*\<^sup>* (fetch_init h0 ps) s" and "distinct ps"
  shows "trace_inv cfg ps h0 s"
  using assms(1)
proof (induction rule: rtranclp_induct)
  case base
  show ?case by (simp add: trace_inv_def fetch_init_def ev_sum_init)
next
  case (step s t)
  from step.hyps(2) obtain i where "runnable s i" and "t = advance cfg ps i s"
    by (blast elim: fetch_stepE)
  with step.IH fetch_steps_inv [OF step.hyps(1) assms(2)] show ?case
    by (simp add: advance_trace_inv)
qed

lemma task_events_creates: "length (filter is_create (task_events cfg p h0)) = 1"
  by (simp add: task_events_def is_create_def)

lemma creates_concat:
  "length (filter is_create (concat (map (\<lambda>p. task_events cfg p h0) ps))) = length ps"
  by (induction ps) (simp_all add: task_events_creates)

text \<open>
  C25. The fan-out launches exactly one task per archive whose cache file does not exist yet:
  under every schedule, the trace the fan-out appends is, up to the interleaving, the
  concatenation of the traces of the tasks for the packages whose file \<open>/tmp/RELEASE/p\<close>
  is absent, run alone (creation, then the request when creation succeeded), and it holds
  exactly as many file creations as there are such packages; a cached archive is never
  fetched.
\<close>

theorem fetch_all_launches:
  "\<exists>tr. events (snd (fetch_all b sched h)) = events h @ tr
      \<and> mset tr = mset (concat (map (\<lambda>p. task_events (bopts b) p h)
                        (filter (\<lambda>p. \<not> exists h (''/tmp/'' @ Release (bopts b) @ ''/'' @ p)) basePackages)))
      \<and> length (filter is_create tr)
          = length (filter (\<lambda>p. \<not> exists h (''/tmp/'' @ Release (bopts b) @ ''/'' @ p)) basePackages)"
proof -
  let ?cfg = "bopts b" and ?ps = "missing (bopts b) h"
  have mi: "?ps = filter (\<lambda>p. \<not> exists h (''/tmp/'' @ Release (bopts b) @ ''/'' @ p)) basePackages"
    by (simp add: missing_def pkg_file_def)
  obtain s where reach: "(fetch_step ?cfg ?ps)\<^sup>*\<^sup>* (fetch_init h ?ps) s" and fin: "finished s"
    and fa: "fetch_all b sched h = (gerr s, fhost s)"
    by (rule fetch_all_final)
  have ph: "phases s = map (\<lambda>p. Done (fst (download_task ?cfg p h))) ?ps"
    using fetch_steps_inv [OF reach distinct_missing] fin by (rule finished_phases)
  obtain tr where ev: "events (fhost s) = events h @ tr" and mt: "mset tr = ev_sum ?cfg ?ps h (phases s)"
    using fetch_steps_trace_inv [OF reach distinct_missing] by (auto simp: trace_inv_def)
  have m: "mset tr = mset (concat (map (\<lambda>p. task_events ?cfg p h) ?ps))"
    using mt ph ev_sum_done by simp
  have "length (filter is_create tr) = length (filter is_create (concat (map (\<lambda>p. task_events ?cfg p h) ?ps)))"
    using arg_cong [OF m, of "\<lambda>M. size (filter_mset is_create M)"] by (simp flip: mset_filter)
  with m ev fa show ?thesis unfolding mi [symmetric] by (auto simp: creates_concat)
qed

end
