(* ===== verification/Pipeline_Run.thy ===== *)
theory Pipeline_Run
  imports Pipeline
begin

text \<open>
  Whole runs of \<open>Initialize\<close>: the composition of the seven steps on a host where each
  step's precondition holds when its turn comes. \<open>pipeline_ready\<close> states these
  conditions on the initial host: the cache directory and the three archives are there and
  decode cleanly, the patch tool exits with 0, the parent directories of the resolver file
  and of the base jail's \<open>rc.conf\<close> exist, and extraction does not overwrite an archive
  nor create a directory where a later step creates a file. What extraction can touch is
  computed from the archives' entries (\<open>entry_dirs\<close>, \<open>entry_files\<close>), and \<open>frame\<close> is
  the relation "only these directories were added and only these files changed" that the
  steps compose along. With the fake executor the run succeeds; with the concrete one it
  gets through the first six steps and fails at the clone.
\<close>

text \<open>What extracting one entry into \<open>dst\<close> can create: directories, and a file.\<close>

definition entry_dirs :: "path \<Rightarrow> tar_entry \<Rightarrow> path list" where
  "entry_dirs dst e =
     (case e of TDir p \<Rightarrow> ancestors (dst @ ''/'' @ p) | TFile p c \<Rightarrow> ancestors (parent_dir (dst @ ''/'' @ p)))"

definition entry_files :: "path \<Rightarrow> tar_entry \<Rightarrow> path list" where
  "entry_files dst e = (case e of TDir p \<Rightarrow> [] | TFile p c \<Rightarrow> [dst @ ''/'' @ p])"

text \<open>The entries of the three archives as cached on the host.\<close>

definition archive_entries :: "opts \<Rightarrow> host \<Rightarrow> tar_entry list" where
  "archive_entries cfg h =
     concat (map (\<lambda>p. case files h (pkg_file cfg p) of None \<Rightarrow> [] | Some c \<Rightarrow> fst (tar h c)) basePackages)"

definition ex_dirs :: "opts \<Rightarrow> host \<Rightarrow> path set" where
  "ex_dirs cfg h = set (ancestors (release_dir cfg))
     \<union> (\<Union>e\<in>set (archive_entries cfg h). set (entry_dirs (release_dir cfg) e))"

definition ex_files :: "opts \<Rightarrow> host \<Rightarrow> path set" where
  "ex_files cfg h = (\<Union>e\<in>set (archive_entries cfg h). set (entry_files (release_dir cfg) e))"

text \<open>From \<open>h\<close> to \<open>h'\<close> only directories of \<open>D\<close> were added, only files of \<open>F\<close>
  changed, and the world and the ZFS state stayed as they were.\<close>

definition frame :: "path set \<Rightarrow> path set \<Rightarrow> host \<Rightarrow> host \<Rightarrow> bool" where
  "frame D F h h' \<longleftrightarrow>
     dirs h \<subseteq> dirs h' \<and> dirs h' \<subseteq> dirs h \<union> D \<and> (\<forall>f. f \<notin> F \<longrightarrow> files h' f = files h f)
     \<and> tool h' = tool h \<and> tar h' = tar h \<and> datasets h' = datasets h \<and> snapshots h' = snapshots h"

text \<open>The preconditions of a complete run, on the initial host.\<close>

definition pipeline_ready :: "opts \<Rightarrow> host \<Rightarrow> bool" where
  "pipeline_ready cfg h \<longleftrightarrow>
     exists h (cache_dir cfg)
     \<and> (\<forall>p\<in>set basePackages. case files h (pkg_file cfg p) of None \<Rightarrow> False | Some c \<Rightarrow> snd (tar h c))
     \<and> (\<forall>p\<in>set basePackages. pkg_file cfg p \<notin> ex_files cfg h)
     \<and> tool h (update_cmd cfg) = 0
     \<and> parent_dir (resolv_path cfg) \<in> dirs h \<and> resolv_path cfg \<notin> dirs h \<union> ex_dirs cfg h
     \<and> parent_dir (jail_rc_conf cfg ''base'') \<in> dirs h
     \<and> jail_rc_conf cfg ''base'' \<notin> dirs h \<union> ex_dirs cfg h"

lemma frame_refl [simp]: "frame D F h h"
  by (simp add: frame_def)

lemma frame_trans: "frame D F h1 h2 \<Longrightarrow> frame D F h2 h3 \<Longrightarrow> frame D F h1 h3"
  by (auto simp: frame_def)

lemma frame_mono: "frame D F h h' \<Longrightarrow> D \<subseteq> D' \<Longrightarrow> F \<subseteq> F' \<Longrightarrow> frame D' F' h h'"
  by (auto simp: frame_def)

lemma frame_log [simp]: "frame D F h (log ev h)"
  by (simp add: frame_def log_def)

lemma frame_extract_entry:
  "frame (set (entry_dirs dst e)) (set (entry_files dst e)) h (extract_entry dst e h)"
  by (auto simp: frame_def extract_entry_def entry_dirs_def entry_files_def mkdir_all_def put_file_def
           split: tar_entry.splits)

lemma frame_fold_extract:
  "frame (\<Union>e\<in>set es. set (entry_dirs dst e)) (\<Union>e\<in>set es. set (entry_files dst e)) h
     (fold (extract_entry dst) es h)"
proof (induction es arbitrary: h)
  case Nil
  then show ?case by simp
next
  case (Cons e es)
  have "frame (\<Union>e\<in>set (e # es). set (entry_dirs dst e)) (\<Union>e\<in>set (e # es). set (entry_files dst e))
          h (extract_entry dst e h)"
    by (rule frame_mono [OF frame_extract_entry]) auto
  moreover have "frame (\<Union>e\<in>set (e # es). set (entry_dirs dst e)) (\<Union>e\<in>set (e # es). set (entry_files dst e))
          (extract_entry dst e h) (fold (extract_entry dst) es (extract_entry dst e h))"
    by (rule frame_mono [OF Cons.IH]) auto
  ultimately show ?case by (auto intro: frame_trans)
qed

lemma tar_open_ok:
  assumes "files h src = Some c" and "tar h c = (es, True)"
  shows "fst (tar_open src dst h) = None
         \<and> frame (set (ancestors dst) \<union> (\<Union>e\<in>set es. set (entry_dirs dst e)))
                 (\<Union>e\<in>set es. set (entry_files dst e)) h (snd (tar_open src dst h))"
proof -
  let ?h1 = "log (EvExtract src dst) h"
  have f1: "frame (set (ancestors dst) \<union> (\<Union>e\<in>set es. set (entry_dirs dst e)))
                 (\<Union>e\<in>set es. set (entry_files dst e)) h ?h1"
    by (rule frame_log)
  have f2: "frame (set (ancestors dst) \<union> (\<Union>e\<in>set es. set (entry_dirs dst e)))
                 (\<Union>e\<in>set es. set (entry_files dst e)) ?h1 (fold (extract_entry dst) es ?h1)"
    by (rule frame_mono [OF frame_fold_extract]) auto
  have "tar_open src dst h = (None, fold (extract_entry dst) es ?h1)"
    using assms by (simp add: tar_open_def Let_def)
  with frame_trans [OF f1 f2] show ?thesis by simp
qed

lemma archive_entries_mem:
  "p \<in> set basePackages \<Longrightarrow> files h (pkg_file cfg p) = Some c \<Longrightarrow> set (fst (tar h c)) \<subseteq> set (archive_entries cfg h)"
  by (force simp: archive_entries_def)

lemma extract_each_ok:
  assumes "set ps \<subseteq> set basePackages"
    and "\<forall>p\<in>set ps. \<exists>c. files h0 (pkg_file cfg p) = Some c \<and> snd (tar h0 c)"
    and "\<forall>p\<in>set basePackages. pkg_file cfg p \<notin> ex_files cfg h0"
    and "frame (ex_dirs cfg h0) (ex_files cfg h0) h0 h"
  shows "fst (extract_each cfg (release_dir cfg) ps h) = None
         \<and> frame (ex_dirs cfg h0) (ex_files cfg h0) h0 (snd (extract_each cfg (release_dir cfg) ps h))"
  using assms
proof (induction ps arbitrary: h)
  case Nil
  then show ?case by (simp add: ok_def)
next
  case (Cons p ps)
  let ?D = "ex_dirs cfg h0" and ?F = "ex_files cfg h0" and ?dst = "release_dir cfg"
  have p: "p \<in> set basePackages" using Cons.prems(1) by simp
  obtain c where c0: "files h0 (pkg_file cfg p) = Some c" and cl: "snd (tar h0 c)"
    using Cons.prems(2) by auto
  obtain es where es: "tar h0 c = (es, True)" using cl by (cases "tar h0 c") auto
  have src: "''/tmp/'' @ Release cfg @ ''/'' @ p = pkg_file cfg p" by (simp add: pkg_file_def)
  have ch: "files h (pkg_file cfg p) = Some c" and th: "tar h = tar h0"
    using Cons.prems(3,4) p c0 by (auto simp: frame_def)
  have sub: "set es \<subseteq> set (archive_entries cfg h0)"
    using archive_entries_mem [OF p c0] es by simp
  from tar_open_ok [OF ch, of es ?dst] th es
  have t: "fst (tar_open (pkg_file cfg p) ?dst h) = None"
    and ft: "frame (set (ancestors ?dst) \<union> (\<Union>e\<in>set es. set (entry_dirs ?dst e)))
                   (\<Union>e\<in>set es. set (entry_files ?dst e)) h (snd (tar_open (pkg_file cfg p) ?dst h))"
    by simp_all
  have "frame ?D ?F h (snd (tar_open (pkg_file cfg p) ?dst h))"
    by (rule frame_mono [OF ft]) (use sub in \<open>auto simp: ex_dirs_def ex_files_def\<close>)
  then have fr: "frame ?D ?F h0 (snd (tar_open (pkg_file cfg p) ?dst h))"
    using Cons.prems(4) by (rule frame_trans [rotated])
  have ih: "fst (extract_each cfg ?dst ps (snd (tar_open (pkg_file cfg p) ?dst h))) = None
       \<and> frame ?D ?F h0 (snd (extract_each cfg ?dst ps (snd (tar_open (pkg_file cfg p) ?dst h))))"
    using Cons.prems(1,2,3) fr by (intro Cons.IH) auto
  from t have "tar_open (pkg_file cfg p) ?dst h = (None, snd (tar_open (pkg_file cfg p) ?dst h))"
    by (metis prod.collapse)
  with ih show ?case unfolding extract_each.simps src by simp
qed

lemma frame_empty:
  "frame {} {} h h' \<Longrightarrow> dirs h' = dirs h \<and> files h' = files h \<and> tool h' = tool h \<and> tar h' = tar h"
  by (auto simp: frame_def)

lemma pipeline_ready_cong:
  assumes "dirs h' = dirs h" and "files h' = files h" and "tool h' = tool h" and "tar h' = tar h"
  shows "pipeline_ready cfg h' = pipeline_ready cfg h"
  by (simp only: pipeline_ready_def exists_def ex_dirs_def ex_files_def archive_entries_def assms)

lemma Download_ready:
  "pipeline_ready (bopts b) h \<Longrightarrow> DownloadBaseSystem b sched h = (None, h)"
proof -
  assume r: "pipeline_ready (bopts b) h"
  then have "\<forall>p\<in>set basePackages. exists h (pkg_file (bopts b) p)"
    by (auto simp: pipeline_ready_def exists_def split: option.splits)
  then have "missing (bopts b) h = []" by (simp add: missing_Nil_iff)
  then have "fetch_all b sched h = (None, h)"
    by (simp add: fetch_all_def wait_all_def fetch_init_def run_sched_no_tasks)
  with r show ?thesis by (simp add: DownloadBaseSystem_def ensure_cache_dir_def pipeline_ready_def)
qed

lemma Extract_ready:
  assumes "pipeline_ready (bopts b) h"
  shows "fst (ExtractBasePkgs b h) = None
         \<and> frame (ex_dirs (bopts b) h) (ex_files (bopts b) h) h (snd (ExtractBasePkgs b h))"
proof -
  have "\<forall>p\<in>set basePackages. \<exists>c. files h (pkg_file (bopts b) p) = Some c \<and> snd (tar h c)"
    using assms by (auto simp: pipeline_ready_def split: option.splits)
  with assms show ?thesis unfolding ExtractBasePkgs_def
    by (intro extract_each_ok) (simp_all add: pipeline_ready_def)
qed

lemma Update_ok:
  "tool h (update_cmd (bopts b)) = 0 \<Longrightarrow> UpdateBaseJail b h = (None, log (EvExec (update_cmd (bopts b))) h)"
  by (simp add: UpdateBaseJail_def exec_run_def run_prog_def update_cmd_def log_def)

lemma SetBaseJailConf_ok:
  "parent_dir (resolv_path (bopts b)) \<in> dirs h \<Longrightarrow> resolv_path (bopts b) \<notin> dirs h \<Longrightarrow>
     SetBaseJailConf b h = (None, put_file (resolv_path (bopts b)) [] (log (EvCreate (resolv_path (bopts b))) h))"
  by (simp add: SetBaseJailConf_def SetResolvConf_Some nameserver_lines_def log_def Let_def)

lemma CreateJail_ok:
  assumes "CloneBaseToJail b name h = (None, h1)"
    and "parent_dir (jail_rc_conf (bopts b) name) \<in> dirs h1" and "jail_rc_conf (bopts b) name \<notin> dirs h1"
  shows "CreateJail b name h =
           (None, put_file (jail_rc_conf (bopts b) name) (hostname_line name)
                    (log (EvCreate (jail_rc_conf (bopts b) name)) h1))"
  using assms by (simp add: CreateJail_result log_def Let_def)

lemma Fake_zfs_frame:
  "CreateZFSDataset \<lparr>wrap = Fake, bopts = cfg\<rparr> h = (None, snd (CreateZFSDataset \<lparr>wrap = Fake, bopts = cfg\<rparr> h))
   \<and> frame {} {} h (snd (CreateZFSDataset \<lparr>wrap = Fake, bopts = cfg\<rparr> h))"
  "CreateZFSSnapshot \<lparr>wrap = Fake, bopts = cfg\<rparr> h = (None, snd (CreateZFSSnapshot \<lparr>wrap = Fake, bopts = cfg\<rparr> h))
   \<and> frame {} {} h (snd (CreateZFSSnapshot \<lparr>wrap = Fake, bopts = cfg\<rparr> h))"
  "CloneBaseToJail \<lparr>wrap = Fake, bopts = cfg\<rparr> name h = (None, snd (CloneBaseToJail \<lparr>wrap = Fake, bopts = cfg\<rparr> name h))
   \<and> frame {} {} h (snd (CloneBaseToJail \<lparr>wrap = Fake, bopts = cfg\<rparr> name h))"
  by (simp_all add: zfs_ops_defs Fake_def frame_def log_def Let_def)

lemma rc_conf_ne_resolv: "jail_rc_conf cfg name \<noteq> resolv_path cfg"
  by (simp add: jail_rc_conf_def resolv_path_def rcConf_def)

lemma snapshot_Wrap_ok:
  assumes "valid_ds (release_dataset cfg)" and "release_dataset cfg \<in> datasets h"
    and "release_dataset cfg @ ''@p1'' \<notin> snapshots h"
  shows "CreateZFSSnapshot (wrap_builder cfg) h =
           (None, (log (EvExec [''zfs'', ''snapshot'', release_dataset cfg @ ''@p1'']) h)
                    \<lparr>snapshots := insert (release_dataset cfg @ ''@p1'') (snapshots h)\<rparr>)"
  using assms unfolding CreateZFSSnapshot_def call_output_def snapshot_name_eq
  by (simp add: wrap_defs zfs_snapshot_release Let_def)

lemma release_dataset_ancestor: "release_dataset cfg \<in> set (ancestors (release_dataset cfg))"
  by (simp add: ancestors_def)

lemmas pipeline_run_eval [eval_simps] =
  entry_dirs_def entry_files_def archive_entries_def ex_dirs_def ex_files_def pipeline_ready_def

lemma middle_steps:
  assumes ready: "pipeline_ready (bopts b) h"
  obtains h5 where
    "\<And>k. then_go (DownloadBaseSystem b sched)
            (then_go (ExtractBasePkgs b) (then_go (UpdateBaseJail b) (then_go (SetBaseJailConf b) k))) h = k h5"
    and "dirs h \<subseteq> dirs h5" and "dirs h5 \<subseteq> dirs h \<union> ex_dirs (bopts b) h"
    and "files h5 (resolv_path (bopts b)) = Some []"
    and "datasets h5 = datasets h" and "snapshots h5 = snapshots h"
    and "events h5 = events h @ map (\<lambda>p. EvExtract (pkg_file (bopts b) p) (release_dir (bopts b))) basePackages
                     @ [EvExec (update_cmd (bopts b)), EvCreate (resolv_path (bopts b))]"
proof -
  let ?cfg = "bopts b"
  define h3 where "h3 = snd (ExtractBasePkgs b h)"
  have x3: "fst (ExtractBasePkgs b h) = None" and fr3: "frame (ex_dirs ?cfg h) (ex_files ?cfg h) h h3"
    using Extract_ready [OF ready] unfolding h3_def by simp_all
  have s3: "ExtractBasePkgs b h = (None, h3)" using x3 unfolding h3_def by (metis prod.collapse)
  have t3: "tool h3 (update_cmd ?cfg) = 0" using fr3 ready by (simp add: frame_def pipeline_ready_def)
  obtain n where "n \<le> length basePackages"
    and "events h3 = events h @ map (\<lambda>p. EvExtract (''/tmp/'' @ Release ?cfg @ ''/'' @ p) (release_dir ?cfg))
                                   (take n basePackages)"
    and "(None = (None :: error option) \<and> n = length basePackages) \<or> (None \<noteq> (None :: error option) \<and> 0 < n)"
    using extract_each_prefix [OF s3 [unfolded ExtractBasePkgs_def]] by blast
  then have ev3: "events h3 = events h @ map (\<lambda>p. EvExtract (pkg_file ?cfg p) (release_dir ?cfg)) basePackages"
    by (simp add: pkg_file_def)
  define h4 where "h4 = log (EvExec (update_cmd ?cfg)) h3"
  have s4: "UpdateBaseJail b h3 = (None, h4)" using Update_ok [OF t3] by (simp add: h4_def)
  have d4: "dirs h \<subseteq> dirs h4" "dirs h4 \<subseteq> dirs h \<union> ex_dirs ?cfg h"
    using fr3 by (auto simp: frame_def h4_def log_def)
  have "parent_dir (resolv_path ?cfg) \<in> dirs h4" and "resolv_path ?cfg \<notin> dirs h4"
    using d4 ready by (auto simp: pipeline_ready_def)
  then have s5: "SetBaseJailConf b h4 =
      (None, put_file (resolv_path ?cfg) [] (log (EvCreate (resolv_path ?cfg)) h4))"
    by (rule SetBaseJailConf_ok)
  show ?thesis
  proof
    fix k
    show "then_go (DownloadBaseSystem b sched)
            (then_go (ExtractBasePkgs b) (then_go (UpdateBaseJail b) (then_go (SetBaseJailConf b) k))) h
          = k (put_file (resolv_path ?cfg) [] (log (EvCreate (resolv_path ?cfg)) h4))"
      using Download_ready [OF ready, of sched] s3 s4 s5 by simp
  qed (use d4 fr3 ev3 in \<open>auto simp: put_file_def log_def h4_def frame_def\<close>)
qed

lemma rc_conf_ready:
  assumes "pipeline_ready cfg h" and "dirs h \<subseteq> dirs h'" and "dirs h' \<subseteq> dirs h \<union> ex_dirs cfg h"
  shows "parent_dir (jail_rc_conf cfg ''base'') \<in> dirs h'" and "jail_rc_conf cfg ''base'' \<notin> dirs h'"
  using assms by (auto simp: pipeline_ready_def)

text \<open>
  C33. Composition of the pipeline: with the fake executor, \<open>Initialize\<close> succeeds on every
  host that satisfies \<open>pipeline_ready\<close>, whatever the scheduler does, and leaves the base
  tree's resolver file empty and the base jail's \<open>rc.conf\<close> holding its hostname line. Its
  external operations happen in the spec's order: dataset creation, the three extractions
  in package order, the patch command, the resolver file, the snapshot, the clone and the
  jail's \<open>rc.conf\<close>.
\<close>

theorem Initialize_Fake_succeeds:
  assumes ready: "pipeline_ready cfg h"
  shows "fst (Initialize \<lparr>wrap = Fake, bopts = cfg\<rparr> sched h) = None
         \<and> files (snd (Initialize \<lparr>wrap = Fake, bopts = cfg\<rparr> sched h)) (resolv_path cfg) = Some []
         \<and> files (snd (Initialize \<lparr>wrap = Fake, bopts = cfg\<rparr> sched h)) (jail_rc_conf cfg ''base'')
             = Some (hostname_line ''base'')
         \<and> events (snd (Initialize \<lparr>wrap = Fake, bopts = cfg\<rparr> sched h))
             = events h @ [EvExec [''zfs'', ''create'', ''-p'', release_dataset cfg]]
               @ map (\<lambda>p. EvExtract (pkg_file cfg p) (release_dir cfg)) basePackages
               @ [EvExec (update_cmd cfg), EvCreate (resolv_path cfg),
                  EvExec [''zfs'', ''snapshot'', release_dataset cfg @ ''@p1''],
                  EvExec [''zfs'', ''clone'', ''/'' @ release_dataset cfg @ ''@p1'', ''/zroot/jails/base''],
                  EvCreate (jail_rc_conf cfg ''base'')]"
proof -
  let ?b = "\<lparr>wrap = Fake, bopts = cfg\<rparr>"
  define h1 where "h1 = snd (CreateZFSDataset ?b h)"
  have s1: "CreateZFSDataset ?b h = (None, h1)"
    and e1: "dirs h1 = dirs h \<and> files h1 = files h \<and> tool h1 = tool h \<and> tar h1 = tar h"
    using Fake_zfs_frame(1) [of cfg h] frame_empty unfolding h1_def by blast+
  have ev1: "events h1 = events h @ [EvExec [''zfs'', ''create'', ''-p'', release_dataset cfg]]"
    by (simp add: h1_def zfs_ops_defs Fake_def log_def Let_def)
  have r1: "pipeline_ready cfg h1" using ready e1 pipeline_ready_cong by blast
  have r1': "pipeline_ready (bopts ?b) h1" using r1 by simp
  obtain h5 where mid: "\<And>k. then_go (DownloadBaseSystem ?b sched)
            (then_go (ExtractBasePkgs ?b) (then_go (UpdateBaseJail ?b) (then_go (SetBaseJailConf ?b) k))) h1 = k h5"
    and d5: "dirs h1 \<subseteq> dirs h5" "dirs h5 \<subseteq> dirs h1 \<union> ex_dirs (bopts ?b) h1"
    and f5: "files h5 (resolv_path (bopts ?b)) = Some []"
    and "datasets h5 = datasets h1" and "snapshots h5 = snapshots h1"
    and ev5: "events h5 = events h1 @ map (\<lambda>p. EvExtract (pkg_file (bopts ?b) p) (release_dir (bopts ?b))) basePackages
                     @ [EvExec (update_cmd (bopts ?b)), EvCreate (resolv_path (bopts ?b))]"
    by (rule middle_steps [where sched = sched, OF r1']) blast
  define h6 where "h6 = snd (CreateZFSSnapshot ?b h5)"
  have s6: "CreateZFSSnapshot ?b h5 = (None, h6)" and e6: "dirs h6 = dirs h5 \<and> files h6 = files h5"
    using Fake_zfs_frame(2) [of cfg h5] frame_empty unfolding h6_def by blast+
  define h7 where "h7 = snd (CloneBaseToJail ?b ''base'' h6)"
  have c7: "CloneBaseToJail ?b ''base'' h6 = (None, h7)" and e7: "dirs h7 = dirs h6 \<and> files h7 = files h6"
    using Fake_zfs_frame(3) [of cfg "''base''" h6] frame_empty unfolding h7_def by blast+
  have "parent_dir (jail_rc_conf cfg ''base'') \<in> dirs h7" and "jail_rc_conf cfg ''base'' \<notin> dirs h7"
    using rc_conf_ready [OF r1] d5 e6 e7 by simp_all
  with c7 have s7: "CreateJail ?b ''base'' h6 =
              (None, put_file (jail_rc_conf cfg ''base'') (hostname_line ''base'')
                       (log (EvCreate (jail_rc_conf cfg ''base'')) h7))"
    using CreateJail_ok [of ?b "''base''" h6 h7] by simp
  have "Initialize ?b sched h = then_go (DownloadBaseSystem ?b sched)
          (then_go (ExtractBasePkgs ?b) (then_go (UpdateBaseJail ?b) (then_go (SetBaseJailConf ?b)
            (then_go (CreateZFSSnapshot ?b) (CreateJail ?b ''base''))))) h1"
    using s1 by (simp add: Initialize_def)
  also have "\<dots> = CreateJail ?b ''base'' h6" using mid s6 by simp
  moreover have "events h7 = events h5 @ [EvExec [''zfs'', ''snapshot'', release_dataset cfg @ ''@p1''],
      EvExec [''zfs'', ''clone'', ''/'' @ release_dataset cfg @ ''@p1'', ''/zroot/jails/base'']]"
    by (simp add: h7_def h6_def zfs_ops_defs Fake_def log_def release_dataset_def Let_def)
  ultimately show ?thesis
    using s7 f5 e6 e7 ev1 ev5 by (simp add: put_file_def log_def rc_conf_ne_resolv [THEN not_sym])
qed

theorem Initialize_Fake_succeeds_witness:
  "fst (Initialize \<lparr>wrap = Fake, bopts = demo_cfg\<rparr> [] demo_host) = None
   \<and> files (snd (Initialize \<lparr>wrap = Fake, bopts = demo_cfg\<rparr> [] demo_host)) ''/j/base/etc/rc.conf''
       = Some ''hostname=\"base\"''"
proof -
  have "pipeline_ready demo_cfg demo_host" by (simp add: eval_simps)
  from Initialize_Fake_succeeds [OF this, of "[]"] show ?thesis by (simp add: eval_simps)
qed

text \<open>
  C34. With the concrete executor, on a ready host whose release dataset name is valid, whose
  pool exists and which has no \<open>@p1\<close> snapshot yet, the first six steps of \<open>Initialize\<close>
  succeed and the run fails exactly at the clone, with \<open>zfs clone\<close>'s exit status 1; the
  dataset and the snapshot it created stay, and so does the configured tree.
\<close>

theorem Initialize_Wrap_fails_at_clone:
  assumes ready: "pipeline_ready cfg h" and valid: "valid_ds (release_dataset cfg)"
    and pool: "pool (release_dataset cfg) \<in> datasets h"
    and fresh: "release_dataset cfg @ ''@p1'' \<notin> snapshots h"
  shows "fst (Initialize (wrap_builder cfg) sched h)
           = Some (ErrExit [''zfs'', ''clone'', ''/'' @ release_dataset cfg @ ''@p1'', ''/zroot/jails/base''] 1)
         \<and> release_dataset cfg \<in> datasets (snd (Initialize (wrap_builder cfg) sched h))
         \<and> release_dataset cfg @ ''@p1'' \<in> snapshots (snd (Initialize (wrap_builder cfg) sched h))
         \<and> files (snd (Initialize (wrap_builder cfg) sched h)) (resolv_path cfg) = Some []"
proof -
  let ?b = "wrap_builder cfg" and ?rd = "release_dataset cfg"
  define h1 where "h1 = (log (EvExec [''zfs'', ''create'', ''-p'', ?rd]) h)
                          \<lparr>datasets := datasets h \<union> set (ancestors ?rd), stdout := stdout h @ [[]]\<rparr>"
  have s1: "CreateZFSDataset ?b h = (None, h1)"
    using valid pool by (simp add: CreateZFSDataset_Wrap h1_def Let_def)
  have r1': "pipeline_ready (bopts ?b) h1"
    using ready pipeline_ready_cong [of h1 h cfg] by (simp add: h1_def log_def)
  obtain h5 where mid: "\<And>k. then_go (DownloadBaseSystem ?b sched)
            (then_go (ExtractBasePkgs ?b) (then_go (UpdateBaseJail ?b) (then_go (SetBaseJailConf ?b) k))) h1 = k h5"
    and "dirs h1 \<subseteq> dirs h5" and "dirs h5 \<subseteq> dirs h1 \<union> ex_dirs (bopts ?b) h1"
    and f5: "files h5 (resolv_path (bopts ?b)) = Some []"
    and ds5: "datasets h5 = datasets h1" and sn5: "snapshots h5 = snapshots h1"
    by (rule middle_steps [where sched = sched, OF r1']) blast
  have "?rd \<in> datasets h5" using ds5 release_dataset_ancestor by (simp add: h1_def log_def)
  moreover have "?rd @ ''@p1'' \<notin> snapshots h5" using sn5 fresh by (simp add: h1_def log_def)
  ultimately have s6: "CreateZFSSnapshot ?b h5 =
      (None, (log (EvExec [''zfs'', ''snapshot'', ?rd @ ''@p1'']) h5)\<lparr>snapshots := insert (?rd @ ''@p1'') (snapshots h5)\<rparr>)"
    by (rule snapshot_Wrap_ok [OF valid])
  have "Initialize ?b sched h = then_go (DownloadBaseSystem ?b sched)
          (then_go (ExtractBasePkgs ?b) (then_go (UpdateBaseJail ?b) (then_go (SetBaseJailConf ?b)
            (then_go (CreateZFSSnapshot ?b) (CreateJail ?b ''base''))))) h1"
    using s1 by (simp add: Initialize_def)
  also have "\<dots> = CreateJail ?b ''base''
      ((log (EvExec [''zfs'', ''snapshot'', ?rd @ ''@p1'']) h5)\<lparr>snapshots := insert (?rd @ ''@p1'') (snapshots h5)\<rparr>)"
    using mid s6 by simp
  finally show ?thesis
    using \<open>?rd \<in> datasets h5\<close> f5
    by (simp add: CreateJail_def CloneBaseToJail_Wrap release_dataset_def log_def Let_def)
qed

theorem Initialize_Wrap_fails_at_clone_witness:
  "fst (Initialize (wrap_builder demo_cfg) [] demo_host)
     = Some (ErrExit [''zfs'', ''clone'', ''/z/jails/releases/13@p1'', ''/zroot/jails/base''] 1)
   \<and> ''z/jails/releases/13@p1'' \<in> snapshots (snd (Initialize (wrap_builder demo_cfg) [] demo_host))"
proof -
  have "pipeline_ready demo_cfg demo_host" and "valid_ds (release_dataset demo_cfg)"
    and "pool (release_dataset demo_cfg) \<in> datasets demo_host"
    and "release_dataset demo_cfg @ ''@p1'' \<notin> snapshots demo_host"
    by (simp_all add: eval_simps)
  from Initialize_Wrap_fails_at_clone [OF this, of "[]"] show ?thesis by (simp add: eval_simps)
qed

end
