(* ===== verification/Spec2Isabelle.thy ===== *)
theory Spec2Isabelle
  imports Conf_Files Fetch_Trace Pipeline_Run
begin

text \<open>
  \<^bold>\<open>A verification model of briandowns/jail-builder.\<close>

  The program (\<open>src/build.go\<close>, \<open>src/zfs.go\<close>) provisions FreeBSD jails: it creates
  a ZFS dataset for a release, downloads the three base archives concurrently, extracts
  them, patches the tree with \<open>freebsd-update\<close>, configures DNS, snapshots the
  dataset and clones the snapshot into jails. All effects go to the host: the file
  system, the \<open>zfs\<close> command (through the builder's \<open>Wrapper\<close> executor), HTTP
  and external tools.

  \<^bold>\<open>Library.\<close>
  \<^item> \<open>Jail_Prelude\<close>: the error values, the type \<open>'h act = 'h \<Rightarrow> error option \<times> 'h\<close>
    of a Go method returning \<open>error\<close>, the combinator \<open>then_go\<close> for
    \<open>if err := a(); err != nil { return err }\<close>, the fact collections
    \<open>host_simps\<close>, \<open>jail_simps\<close>, \<open>eval_simps\<close>, generic list and path lemmas.
  \<^item> \<open>Host\<close> (modelled from the spec, not code of \<open>src/\<close>): the record \<open>host\<close>
    (files, directories, ZFS datasets, snapshots and clone origins, printed output, a
    ghost trace \<open>events\<close> of external interactions, and the fixed behaviour of the
    HTTP server, the archives and other tools); \<open>os.Mkdir\<close>, \<open>os.Create\<close>,
    \<open>os.Open\<close> returning descriptors \<open>os_file\<close> with their access mode, \<open>Write\<close>
    (\<open>file_write\<close>, which fails on a read-only descriptor), \<open>utils.Exists\<close>; the
    \<open>zfs\<close> command as its option parser \<open>zfs_parse\<close> (\<open>create [-p] [-o p=v]\<close>,
    \<open>destroy [-r]\<close>, \<open>snapshot\<close>, \<open>clone\<close>, usage errors) and the executor
    \<open>zfs_exec\<close> of a parsed command, with ZFS's naming rules (\<open>valid_ds\<close>:
    components of ZFS's characters, a pool name beginning with a letter); the executor
    interface \<open>wrapper\<close> (\<open>CombinedOutput\<close>, \<open>Output\<close>), its implementation \<open>Wrap\<close> and the fake executor \<open>Fake\<close> the spec's
    design note asks for.
  \<^item> \<open>Options\<close>: \<open>Opts\<close> as the record \<open>opts\<close>, \<open>Validate\<close>, \<open>Builder\<close> as
    \<open>builder\<close>, \<open>New\<close>; the example inputs \<open>demo_cfg\<close>, \<open>demo_host\<close> of the
    witnesses.
  \<^item> \<open>Zfs_Ops\<close>: \<open>CreateZFSDataset\<close>, \<open>CreateZFSSnapshot\<close>, \<open>CloneBaseToJail\<close>,
    \<open>CreateBaseJailDataset\<close> (\<open>src/zfs.go\<close>), each a command line run through the
    builder's wrapper.
  \<^item> \<open>Fetch_Tasks\<close>: the download tasks and the error group running them. Each
    goroutine is a task of two atomic effects (\<open>task_create\<close>, \<open>task_get\<close>); the
    errgroup is the state \<open>fetch_state\<close> (task phases and \<open>errOnce\<close>'s error);
    \<open>fetch_step\<close> is the inductive step relation (any runnable task moves),
    \<open>run_sched\<close> executes it along the scheduler's choices (a list of task indices, a
    parameter of \<open>DownloadBaseSystem\<close>), \<open>wait_all\<close> is \<open>g.Wait()\<close>. The invariant
    \<open>fetch_inv\<close> holds in every reachable state (rule induction).
  \<^item> \<open>Fetch\<close>: \<open>DownloadBaseSystem\<close> as \<open>ensure_cache_dir\<close> then \<open>fetch_all\<close>, the
    fan-out over the missing packages; a finished state is characterised without
    reference to the schedule (\<open>fetch_spec_files\<close>).
  \<^item> \<open>Extract\<close>: \<open>ExtractBasePkgs\<close> as a loop \<open>extract_each\<close> over the packages,
    with the archiver \<open>tar_open\<close> modelled from the spec.
  \<^item> \<open>Patch\<close>: \<open>UpdateBaseJail\<close> and its command line \<open>update_cmd\<close>.
  \<^item> \<open>Sysconf\<close>: \<open>SetLocaltime\<close>, \<open>SetResolvConf\<close> (a Go slice as
    \<open>string list option\<close>, \<open>None\<close> for \<open>nil\<close>; its write loop as
    \<open>write_nameservers\<close>), \<open>SetBaseJailConf\<close>,
    \<open>BaseJailSysConf\<close>, \<open>ConfigureJailHostname\<close>.
  \<^item> \<open>Pipeline\<close>: \<open>CreateJail\<close>, \<open>Initialize\<close>, and the design note's named step list
    \<open>init_steps\<close> run by \<open>run_steps\<close>, which records the steps that ran.
  \<^item> \<open>Fetch_Seq\<close>: the sequential reference \<open>download_seq\<close> of the fan-out (the same
    tasks one after the other, keeping the first error), the equality of the two under the
    in-order schedule, the schedule dependence of the returned error, and the
    non-interference of the tasks.
  \<^item> \<open>Fetch_Trace\<close>: the events each download task logs (\<open>task_events\<close>) and the
    multiset invariant \<open>trace_inv\<close> of the interleaved trace.
  \<^item> \<open>Conf_Files\<close>: readers of the written files as the resolver and \<open>rc(8)\<close> see
    them (\<open>split_lines\<close>, \<open>resolv_nameservers\<close>, \<open>hostname_decls\<close>; the
    specification's view, not code of \<open>src/\<close>), for round trips and for the injection
    a jail name with a newline allows.
  \<^item> \<open>Pipeline_Run\<close>: whole runs of \<open>Initialize\<close>. \<open>pipeline_ready\<close> gathers the
    preconditions of every step on the initial host; \<open>frame\<close> bounds what extraction can
    change (computed from the archives' entries); the middle steps compose for any
    executor (\<open>middle_steps\<close>).

  \<^bold>\<open>What is proved\<close> (claims C1 to C37, each after a text block naming it).
  Pipeline: \<open>Initialize\<close> equals its step list run with stop-at-first-error (C2);
  the snapshot step runs only after the dataset, download, extraction, patch and
  configuration steps succeeded (C3); with the concrete executor \<open>Initialize\<close> never
  succeeds (C1), because the clone command is always rejected (C13); a successful
  \<open>CreateJail\<close> leaves exactly the bytes \<open>hostname="NAME"\<close> in the jail's
  \<open>rc.conf\<close> (C11). Fetch: under every schedule the resulting files are those of
  running each download alone (C4, a refinement of the interleaving to the specification
  \<open>fetch_spec_files\<close>), success iff every download succeeds (C5), the error is one
  task's error (C6), nothing is done when all archives are cached (C7), the status code
  is ignored and partial files stay (C21), a missing \<open>/tmp\<close> stops the step before any
  download (C35), one task is launched per archive absent from the cache (C25).
  Configuration: the write loop leaves one \<open>nameserver\<close> line per entry, in order
  (C8), \<open>SetBaseJailConf\<close> writes an empty resolver file (C9), byte copies (C10,
  C22), \<open>ConfigureJailHostname\<close> never succeeds and changes no file, because
  \<open>os.Open\<close> gives a read-only descriptor (C12). ZFS: snapshot precondition (C14),
  idempotent dataset creation thanks to \<open>-p\<close> (C15), the release dataset name is valid
  exactly under conditions \<open>Validate\<close> does not check (C29), and
  \<open>CreateBaseJailDataset\<close> gets a usage error because it passes two operands (C31).
  Extraction: a failing run is the successful prefix followed by the failing archive's
  open, with nothing after it and nothing undone (C16). Patch: the misplaced \<open>-b\<close>
  argument (C17), status surfaced (C18). Options: validation order (C19), \<open>New\<close> (C20).
  Across the whole pipeline with the concrete executor no dataset or snapshot is ever
  destroyed (C23, from the per-step lemmas \<open>Initialize_steps_grow\<close> over the relation
  \<open>zfs_grows\<close>); a failing patch step stops the pipeline with its error after exactly
  four steps (C28); a dataset root that ZFS rejects stops it at its first step (C36).
  Fan-out against its reference: the in-order schedule is exactly the sequential loop
  (C24); the tasks never interfere in any reachable state of the interleaving (C32).
  Round trips: the resolver file reads back as the nameserver list (C26), a jail's
  \<open>rc.conf\<close> has exactly one hostname declaration, its name (C27), both for inputs
  without newlines; a name with a newline injects a second declaration (C37). With the
  concrete executor the clone is issued only once the release snapshot exists (C30).
  Composition: with the fake executor \<open>Initialize\<close> succeeds on every ready host
  (C33); with the concrete one the first six steps succeed there and the run fails
  exactly at the clone, leaving the dataset and snapshot (C34).

  \<^bold>\<open>Bounds and scheduling.\<close> No fuel is needed: every loop of the code is over a
  finite list (the fixed package list, the nameservers, an archive's entries). The
  fan-out's scheduler is an arbitrary list of task indices; \<open>wait_all\<close> then gives
  every task two more turns, which is enough since a task has two effects
  (\<open>wait_all_finished\<close>). Tasks are fixed at launch from the host after the cache
  directory step; the \<open>Exists\<close> checks of later packages in Go's loop run concurrently
  with earlier tasks, which is equivalent because every task touches only its own file
  (the invariant's frame conjuncts).

  \<^bold>\<open>Not modelled.\<close> The bytes of HTTP transfers and archives beyond what the host's
  \<open>net\<close> and \<open>tar\<close> fields say; TLS and timeouts (\<open>hc.Do\<close> either answers or
  fails); write errors on read-write descriptors (the code ignores them in the
  nameserver loop); \<open>http.NewRequest\<close> failing on a malformed URL; the mountpoints
  relating ZFS datasets to directories, and the effect of ZFS properties; the
  255-character limit on ZFS names and the reserved pool names; \<open>zfs\<close> options the
  builder never passes (they read as usage errors); with \<open>-p\<close> and an invalid
  property, real \<open>zfs\<close> creates the missing ancestors before failing, the model fails
  first; the effect of \<open>freebsd-update\<close> on the tree (only its exit status);
  \<open>fmt.Println\<close> beyond appending the output to \<open>stdout\<close>; the output of the
  commands \<open>Wrap\<close> runs (it returns empty output);
  \<open>cmd.Start\<close> failing because a program is missing (the exit status of a run tool
  stands for every failure of \<open>Run\<close>); errors returned by deferred \<open>Close\<close> calls,
  which the code discards. Every function and method of \<open>src/build.go\<close> and
  \<open>src/zfs.go\<close> is a definition of the development; what remains partly or not
  modelled lies outside \<open>src/\<close>: the executor \<open>Wrap\<close> and the archiver are modelled
  from the specification only as far as the code's calls need, and \<open>net/http\<close>, the
  host's file system and ZFS, and the jail facility are the environment, represented
  by fields of \<open>host\<close>.
\<close>

text \<open>
  C1. With the concrete command executor, \<open>Initialize\<close> never returns success:
  whatever the options, the scheduler and the host, the run fails at the latest in
  \<open>CreateJail\<close>, whose \<open>zfs clone\<close> names start with a slash.
\<close>

theorem Initialize_Wrap_never_succeeds:
  "fst (Initialize (wrap_builder cfg) sched h) \<noteq> None"
  using CreateJail_Wrap_fails
  by (simp add: Initialize_def then_go_None_iff)

text \<open>
  C23. With the concrete command executor, \<open>Initialize\<close> never destroys ZFS state: every
  dataset and snapshot that exists before the run exists after it, also after the
  failure of C1: the error paths perform no cleanup that destroys a dataset or snapshot.
\<close>

theorem Initialize_Wrap_no_rollback:
  "datasets h \<subseteq> datasets (snd (Initialize (wrap_builder cfg) sched h))
   \<and> snapshots h \<subseteq> snapshots (snd (Initialize (wrap_builder cfg) sched h))"
proof -
  have "zfs_grows h (snd (Initialize (wrap_builder cfg) sched h))"
    unfolding Initialize_def by (intro then_go_grows Initialize_steps_grow)
  then show ?thesis by (simp add: zfs_grows_def)
qed

text \<open>
  C36. A dataset root that \<open>Validate\<close> accepts but ZFS rejects (one that starts
  with a slash, holds an empty component or a character outside ZFS's set) makes
  \<open>Initialize\<close> fail at its first step with the concrete executor: it returns
  \<open>zfs create\<close>'s error and the host shows only that command and its printed (empty)
  output; nothing is downloaded, extracted, configured or created.
\<close>

theorem Initialize_Wrap_invalid_dataset:
  assumes "\<not> valid_ds (release_dataset cfg)"
  shows "Initialize (wrap_builder cfg) sched h =
           (Some (ErrExit [''zfs'', ''create'', ''-p'', release_dataset cfg]
                   (if is_option (release_dataset cfg) then 2 else 1)),
            (log (EvExec [''zfs'', ''create'', ''-p'', release_dataset cfg]) h)\<lparr>stdout := stdout h @ [[]]\<rparr>)"
  using assms by (simp add: Initialize_def CreateZFSDataset_Wrap Let_def)

theorem Initialize_Wrap_invalid_dataset_witness:
  "Validate \<lparr>BaseDir = ''/j'', Release = ''13'', Dataset = ''/zroot''\<rparr> = None
   \<and> fst (Initialize (wrap_builder \<lparr>BaseDir = ''/j'', Release = ''13'', Dataset = ''/zroot''\<rparr>) [] demo_host)
       = Some (ErrExit [''zfs'', ''create'', ''-p'', ''/zroot/jails/releases/13''] 1)"
proof -
  let ?c = "\<lparr>BaseDir = ''/j'', Release = ''13'', Dataset = ''/zroot''\<rparr>"
  have "\<not> valid_ds (release_dataset ?c)" by (simp add: eval_simps)
  from Initialize_Wrap_invalid_dataset [OF this, of "[]" demo_host] show ?thesis
    by (simp add: eval_simps)
qed

text \<open>
  C28. Fail-fast without later steps: when creating the dataset, downloading and extracting
  succeed and the patch step fails, \<open>Initialize\<close> returns the patch step's error with the
  host the patch step left, and the steps that ran are exactly the first four; no
  configuration, snapshot or clone is attempted.
\<close>

theorem Initialize_stops_at_patch:
  assumes "CreateZFSDataset b h = (None, h1)" and "DownloadBaseSystem b sched h1 = (None, h2)"
      and "ExtractBasePkgs b h2 = (None, h3)" and "UpdateBaseJail b h3 = (Some e, h4)"
  shows "Initialize b sched h = (Some e, h4)
         \<and> fst (fst (run_steps (init_steps b sched) h))
             = [''CreateZFSDataset'', ''DownloadBaseSystem'', ''ExtractBasePkgs'', ''UpdateBaseJail'']"
  using assms by (simp add: Initialize_def init_steps_def)

theorem Initialize_stops_at_patch_witness:
  "fst (Initialize \<lparr>wrap = Fake, bopts = demo_cfg\<rparr> [] (demo_host\<lparr>tool := (\<lambda>_. 1)\<rparr>))
     = Some (ErrExit (update_cmd demo_cfg) 1)
   \<and> fst (fst (run_steps (init_steps \<lparr>wrap = Fake, bopts = demo_cfg\<rparr> []) (demo_host\<lparr>tool := (\<lambda>_. 1)\<rparr>)))
     = [''CreateZFSDataset'', ''DownloadBaseSystem'', ''ExtractBasePkgs'', ''UpdateBaseJail'']"
proof -
  let ?b = "\<lparr>wrap = Fake, bopts = demo_cfg\<rparr>" and ?h = "demo_host\<lparr>tool := (\<lambda>_. 1)\<rparr>"
  let ?h1 = "snd (CreateZFSDataset ?b ?h)"
  let ?h2 = "snd (DownloadBaseSystem ?b [] ?h1)"
  let ?h3 = "snd (ExtractBasePkgs ?b ?h2)"
  have s1: "CreateZFSDataset ?b ?h = (None, ?h1)" by (simp add: eval_simps)
  have s2: "DownloadBaseSystem ?b [] ?h1 = (None, ?h2)" by (simp add: eval_simps Let_def)
  have s3: "ExtractBasePkgs ?b ?h2 = (None, ?h3)" by (simp add: eval_simps Let_def)
  have s4: "UpdateBaseJail ?b ?h3 = (Some (ErrExit (update_cmd demo_cfg) 1), snd (UpdateBaseJail ?b ?h3))"
    by (simp add: eval_simps Let_def)
  from Initialize_stops_at_patch [OF s1 s2 s3 s4] show ?thesis by simp
qed

text \<open>
  C30. With the concrete executor, \<open>Initialize\<close> issues the clone only when the release
  snapshot exists: if the \<open>CreateJail\<close> step runs, the snapshot \<open>Dataset/jails/releases/R@p1\<close>
  and its dataset exist in the host the run ends with (the clone step removes neither).
\<close>

theorem clone_after_snapshot:
  assumes "run_steps (init_steps (wrap_builder cfg) sched) h = ((ns, r), h')"
      and "''CreateJail'' \<in> set ns"
  shows "release_dataset cfg @ ''@p1'' \<in> snapshots h' \<and> release_dataset cfg \<in> datasets h'"
proof -
  let ?b = "wrap_builder cfg"
  have r0: "run_steps
      [(''CreateZFSDataset'', CreateZFSDataset ?b), (''DownloadBaseSystem'', DownloadBaseSystem ?b sched),
       (''ExtractBasePkgs'', ExtractBasePkgs ?b), (''UpdateBaseJail'', UpdateBaseJail ?b),
       (''SetBaseJailConf'', SetBaseJailConf ?b), (''CreateZFSSnapshot'', CreateZFSSnapshot ?b),
       (''CreateJail'', CreateJail ?b ''base'')] h = ((ns, r), h')"
    using assms(1) by (simp add: init_steps_def)
  from run_steps_Cons_ran [OF r0 assms(2)] obtain h1 ns1 where
    r1: "run_steps [(''DownloadBaseSystem'', DownloadBaseSystem ?b sched),
       (''ExtractBasePkgs'', ExtractBasePkgs ?b), (''UpdateBaseJail'', UpdateBaseJail ?b),
       (''SetBaseJailConf'', SetBaseJailConf ?b), (''CreateZFSSnapshot'', CreateZFSSnapshot ?b),
       (''CreateJail'', CreateJail ?b ''base'')] h1 = ((ns1, r), h')" and m1: "''CreateJail'' \<in> set ns1"
    by auto
  from run_steps_Cons_ran [OF r1 m1] obtain h2 ns2 where
    r2: "run_steps [(''ExtractBasePkgs'', ExtractBasePkgs ?b), (''UpdateBaseJail'', UpdateBaseJail ?b),
       (''SetBaseJailConf'', SetBaseJailConf ?b), (''CreateZFSSnapshot'', CreateZFSSnapshot ?b),
       (''CreateJail'', CreateJail ?b ''base'')] h2 = ((ns2, r), h')" and m2: "''CreateJail'' \<in> set ns2"
    by auto
  from run_steps_Cons_ran [OF r2 m2] obtain h3 ns3 where
    r3: "run_steps [(''UpdateBaseJail'', UpdateBaseJail ?b),
       (''SetBaseJailConf'', SetBaseJailConf ?b), (''CreateZFSSnapshot'', CreateZFSSnapshot ?b),
       (''CreateJail'', CreateJail ?b ''base'')] h3 = ((ns3, r), h')" and m3: "''CreateJail'' \<in> set ns3"
    by auto
  from run_steps_Cons_ran [OF r3 m3] obtain h4 ns4 where
    r4: "run_steps [(''SetBaseJailConf'', SetBaseJailConf ?b), (''CreateZFSSnapshot'', CreateZFSSnapshot ?b),
       (''CreateJail'', CreateJail ?b ''base'')] h4 = ((ns4, r), h')" and m4: "''CreateJail'' \<in> set ns4"
    by auto
  from run_steps_Cons_ran [OF r4 m4] obtain h5 ns5 where
    r5: "run_steps [(''CreateZFSSnapshot'', CreateZFSSnapshot ?b),
       (''CreateJail'', CreateJail ?b ''base'')] h5 = ((ns5, r), h')" and m5: "''CreateJail'' \<in> set ns5"
    by auto
  from run_steps_Cons_ran [OF r5 m5] obtain h6 ns6 where
    snap: "CreateZFSSnapshot ?b h5 = (None, h6)"
    and r6: "run_steps [(''CreateJail'', CreateJail ?b ''base'')] h6 = ((ns6, r), h')"
    by auto
  have "h' = snd (CreateJail ?b ''base'' h6)"
    using r6 by (auto split: prod.splits option.splits)
  then have "zfs_grows h6 h'" by (simp add: CreateJail_grows)
  with CreateZFSSnapshot_Wrap_ok [OF snap] show ?thesis by (auto simp: zfs_grows_def)
qed

theorem clone_after_snapshot_witness:
  "''CreateJail'' \<in> set (fst (fst (run_steps (init_steps (wrap_builder demo_cfg) []) demo_host)))
   \<and> ''z/jails/releases/13@p1'' \<in> snapshots (snd (run_steps (init_steps (wrap_builder demo_cfg) []) demo_host))"
proof -
  obtain ns r h' where eq: "run_steps (init_steps (wrap_builder demo_cfg) []) demo_host = ((ns, r), h')"
    by (metis prod.exhaust)
  have "fst (fst (run_steps (init_steps (wrap_builder demo_cfg) []) demo_host)) =
        [''CreateZFSDataset'', ''DownloadBaseSystem'', ''ExtractBasePkgs'', ''UpdateBaseJail'',
         ''SetBaseJailConf'', ''CreateZFSSnapshot'', ''CreateJail'']"
    by (simp add: eval_simps Let_def)
  with eq have mem: "''CreateJail'' \<in> set ns" by simp
  from clone_after_snapshot [OF eq mem] mem eq show ?thesis by (simp add: eval_simps)
qed

end
